theory Spec2Isabelle
  imports Main
begin

section \<open>Strings and JavaScript values\<close>

text \<open>
  The migration engine is \<^verbatim>\<open>services/migrationService.js\<close>.  It is JavaScript, so a
  row read from the source database is an object whose properties hold JavaScript values.
  Strings are modelled as \<^typ>\<open>string\<close>; the three characters that the engine treats
  specially are named here.
\<close>

abbreviation dquote :: char where "dquote \<equiv> CHR 0x22"
abbreviation bslash :: char where "bslash \<equiv> CHR 0x5C"
abbreviation squote :: char where "squote \<equiv> CHR 0x27"

text \<open>\<^verbatim>\<open>s.startsWith(p)\<close> and \<^verbatim>\<open>s.includes(p)\<close>.\<close>

definition startsWith :: "string \<Rightarrow> string \<Rightarrow> bool" where
  "startsWith s p = (take (length p) s = p)"

fun str_includes :: "string \<Rightarrow> string \<Rightarrow> bool" where
  "str_includes [] p = (p = [])"
| "str_includes (c # cs) p = (startsWith (c # cs) p \<or> str_includes cs p)"

text \<open>\<^verbatim>\<open>xs.join(sep)\<close> on a list of strings.\<close>

fun js_join :: "string \<Rightarrow> string list \<Rightarrow> string" where
  "js_join sep [] = []"
| "js_join sep [x] = x"
| "js_join sep (x # y # ys) = x @ sep @ js_join sep (y # ys)"

text \<open>
  Decimal rendering of an integer, as a template literal, \<^verbatim>\<open>join\<close> and
  \<^verbatim>\<open>JSON.stringify\<close> render a number that is an integer below \<^verbatim>\<open>1e21\<close> in absolute
  value.  From \<^verbatim>\<open>1e21\<close> on JavaScript prints a number in exponent notation; such
  numbers are outside the model.
\<close>

fun show_nat :: "nat \<Rightarrow> string" where
  "show_nat n =
     (if n < 10 then [''0123456789'' ! n]
      else show_nat (n div 10) @ [''0123456789'' ! (n mod 10)])"

declare show_nat.simps [simp del]

definition show_int :: "int \<Rightarrow> string" where
  "show_int i = (if i < 0 then CHR ''-'' # show_nat (nat (- i)) else show_nat (nat i))"

text \<open>
  JavaScript values.  Numbers are restricted to integers below \<^verbatim>\<open>1e21\<close> in absolute
  value (the type preparer never computes with them, it only prints them).  A \<open>JDate\<close> carries what \<^verbatim>\<open>toJSON()\<close> returns
  (\<open>None\<close> for an invalid date) and what \<^verbatim>\<open>toString()\<close> returns.  \<open>JBigInt\<close> is
  the one value of this datatype that \<^verbatim>\<open>JSON.stringify\<close> refuses with a TypeError.
\<close>

datatype jsval =
    JNull
  | JUndefined
  | JBool bool
  | JNum int
  | JBigInt int
  | JStr string
  | JDate "string option" string
  | JArr "jsval list"
  | JObj "(string \<times> jsval) list"

text \<open>\<^verbatim>\<open>typeof v\<close>.\<close>

fun typeof :: "jsval \<Rightarrow> string" where
  "typeof JNull = ''object''"
| "typeof JUndefined = ''undefined''"
| "typeof (JBool b) = ''boolean''"
| "typeof (JNum n) = ''number''"
| "typeof (JBigInt n) = ''bigint''"
| "typeof (JStr s) = ''string''"
| "typeof (JDate j d) = ''object''"
| "typeof (JArr vs) = ''object''"
| "typeof (JObj kvs) = ''object''"

text \<open>\<^verbatim>\<open>v instanceof Date\<close> and \<^verbatim>\<open>Array.isArray(v)\<close>.\<close>

fun instanceofDate :: "jsval \<Rightarrow> bool" where
  "instanceofDate (JDate j d) = True"
| "instanceofDate v = False"

fun isArray :: "jsval \<Rightarrow> bool" where
  "isArray (JArr vs) = True"
| "isArray v = False"

subsection \<open>\<^verbatim>\<open>JSON.stringify\<close>\<close>

definition hex_digit :: "nat \<Rightarrow> char" where
  "hex_digit n = ''0123456789abcdef'' ! (n mod 16)"

definition json_escape_char :: "char \<Rightarrow> string" where
  "json_escape_char c =
     (if c = dquote then [bslash, dquote]
      else if c = bslash then [bslash, bslash]
      else if c = CHR 0x08 then [bslash, CHR ''b'']
      else if c = CHR 0x0C then [bslash, CHR ''f'']
      else if c = CHR 0x0A then [bslash, CHR ''n'']
      else if c = CHR 0x0D then [bslash, CHR ''r'']
      else if c = CHR 0x09 then [bslash, CHR ''t'']
      else if (of_char c :: nat) < 32
        then [bslash, CHR ''u'', CHR ''0'', CHR ''0'',
              hex_digit (of_char c div 16), hex_digit (of_char c)]
      else [c])"

definition json_quote :: "string \<Rightarrow> string" where
  "json_quote s = dquote # concat (map json_escape_char s) @ [dquote]"

text \<open>
  \<open>json_stringify v\<close> is \<open>Some text\<close> when \<^verbatim>\<open>JSON.stringify(v)\<close> returns \<open>text\<close> and
  \<open>None\<close> when it throws.  Inside an array \<^verbatim>\<open>undefined\<close> is written \<^verbatim>\<open>null\<close>; a
  property whose value is \<^verbatim>\<open>undefined\<close> is left out of an object.  (At top level
  \<^verbatim>\<open>JSON.stringify(undefined)\<close> is not a string; the engine never makes that call.)
\<close>

fun json_stringify :: "jsval \<Rightarrow> string option" where
  "json_stringify JNull = Some ''null''"
| "json_stringify JUndefined = Some ''null''"
| "json_stringify (JBool b) = Some (if b then ''true'' else ''false'')"
| "json_stringify (JNum n) = Some (show_int n)"
| "json_stringify (JBigInt n) = None"
| "json_stringify (JStr s) = Some (json_quote s)"
| "json_stringify (JDate j d) = Some (case j of None \<Rightarrow> ''null'' | Some t \<Rightarrow> json_quote t)"
| "json_stringify (JArr vs) =
     map_option (\<lambda>ts. ''['' @ js_join '','' ts @ '']'') (those (map json_stringify vs))"
| "json_stringify (JObj kvs) =
     map_option (\<lambda>ts. ''{'' @ js_join '','' ts @ ''}'')
       (those (map (\<lambda>kv. map_option (\<lambda>t. json_quote (fst kv) @ '':'' @ t)
                                      (json_stringify (snd kv)))
                   (filter (\<lambda>kv. snd kv \<noteq> JUndefined) kvs)))"

text \<open>
  What \<^verbatim>\<open>Array.prototype.join\<close> makes of one element: \<^verbatim>\<open>null\<close> and
  \<^verbatim>\<open>undefined\<close> become the empty string, a nested array is joined with commas.
\<close>

fun joinElem :: "jsval \<Rightarrow> string" where
  "joinElem JNull = []"
| "joinElem JUndefined = []"
| "joinElem (JBool b) = (if b then ''true'' else ''false'')"
| "joinElem (JNum n) = show_int n"
| "joinElem (JBigInt n) = show_int n"
| "joinElem (JStr s) = s"
| "joinElem (JDate j d) = d"
| "joinElem (JArr vs) = js_join '','' (map joinElem vs)"
| "joinElem (JObj kvs) = ''[object Object]''"

section \<open>Catalog rows and column classification\<close>

text \<open>
  One row of \<^verbatim>\<open>information_schema.columns\<close>, with the fields that
  \<^verbatim>\<open>getTableColumns\<close> and \<^verbatim>\<open>getTableColumnsDetailed\<close> select.  The catalog never
  leaves \<^verbatim>\<open>column_name\<close>, \<^verbatim>\<open>data_type\<close>, \<^verbatim>\<open>udt_name\<close> or \<^verbatim>\<open>is_nullable\<close>
  null; the other four fields are nullable.
\<close>

record column =
  column_name :: string
  data_type :: string
  udt_name :: string
  is_nullable :: string
  character_maximum_length :: "int option"
  numeric_precision :: "int option"
  numeric_scale :: "int option"
  column_default :: "string option"

definition getJsonColumns :: "column list \<Rightarrow> string list" where
  "getJsonColumns columns =
     map column_name
       (filter (\<lambda>col. data_type col = ''json'' \<or> data_type col = ''jsonb''
                     \<or> udt_name col = ''json'' \<or> udt_name col = ''jsonb'') columns)"

definition getArrayColumns :: "column list \<Rightarrow> string list" where
  "getArrayColumns columns =
     map column_name
       (filter (\<lambda>col. data_type col = ''ARRAY'' \<or> startsWith (udt_name col) ''_'') columns)"

section \<open>The type mapping of the schema replayer\<close>

text \<open>
  JavaScript truthiness of a nullable number and of a nullable string: \<^verbatim>\<open>null\<close>,
  \<^verbatim>\<open>0\<close> and the empty string are falsy.
\<close>

fun truthy_num :: "int option \<Rightarrow> bool" where
  "truthy_num None = False"
| "truthy_num (Some n) = (n \<noteq> 0)"

fun truthy_str :: "string option \<Rightarrow> bool" where
  "truthy_str None = False"
| "truthy_str (Some s) = (s \<noteq> [])"

text \<open>\<^verbatim>\<open>x || d\<close> on a nullable number, and the template rendering of a nullable number.\<close>

definition num_or :: "int option \<Rightarrow> int \<Rightarrow> int" where
  "num_or x d = (if truthy_num x then the x else d)"

text \<open>\<^verbatim>\<open>col.column_default && col.column_default.includes('nextval')\<close>.\<close>

definition default_is_nextval :: "column \<Rightarrow> bool" where
  "default_is_nextval col =
     (truthy_str (column_default col) \<and> str_includes (the (column_default col)) ''nextval'')"

definition columnToSqlType :: "column \<Rightarrow> string" where
  "columnToSqlType col =
     (if data_type col = ''character varying'' then
        (if truthy_num (character_maximum_length col)
         then ''varchar('' @ show_int (the (character_maximum_length col)) @ '')''
         else ''varchar(255)'')
      else if data_type col = ''character'' then
        (if truthy_num (character_maximum_length col)
         then ''char('' @ show_int (the (character_maximum_length col)) @ '')''
         else ''char(1)'')
      else if data_type col = ''numeric'' then
        ''numeric('' @ show_int (num_or (numeric_precision col) 10) @ '','' @
                      show_int (num_or (numeric_scale col) 2) @ '')''
      else if data_type col = ''integer'' then ''integer''
      else if data_type col = ''bigint'' then ''bigint''
      else if data_type col = ''smallint'' then ''smallint''
      else if data_type col = ''boolean'' then ''boolean''
      else if data_type col = ''text'' then ''text''
      else if data_type col = ''json'' then ''json''
      else if data_type col = ''jsonb'' then ''jsonb''
      else if data_type col = ''uuid'' then ''uuid''
      else if data_type col = ''timestamp without time zone'' then ''timestamp''
      else if data_type col = ''timestamp with time zone'' then ''timestamptz''
      else if data_type col = ''date'' then ''date''
      else if data_type col = ''time without time zone'' then ''time''
      else if data_type col = ''double precision'' then ''double precision''
      else if data_type col = ''real'' then ''real''
      else if data_type col = ''bytea'' then ''bytea''
      else if data_type col = ''ARRAY'' then remove1 CHR ''_'' (udt_name col) @ ''[]''
      else if udt_name col \<noteq> [] then udt_name col else data_type col)"

text \<open>\<^verbatim>\<open>getDefaultValueForType\<close>: \<open>None\<close> is the JavaScript \<^verbatim>\<open>null\<close>.\<close>

definition getDefaultValueForType :: "string \<Rightarrow> string option" where
  "getDefaultValueForType dataType =
     (if dataType \<in> set [''integer'', ''bigint'', ''smallint'', ''numeric'',
                          ''double precision'', ''real''] then Some ''0''
      else if dataType = ''boolean'' then Some ''false''
      else if dataType \<in> set [''character varying'', ''character'', ''text'']
        then Some [squote, squote]
      else if dataType \<in> set [''json'', ''jsonb''] then Some [squote, CHR ''{'', CHR ''}'', squote]
      else if dataType \<in> set [''timestamp without time zone'', ''timestamp with time zone'']
        then Some ''NOW()''
      else if dataType = ''date'' then Some ''CURRENT_DATE''
      else if dataType = ''uuid'' then Some ''gen_random_uuid()''
      else None)"

section \<open>The type preparer\<close>

text \<open>
  A row is the list of its own enumerable properties in \<^verbatim>\<open>Object.entries\<close> order, so
  the keys of a row that the engine reads are distinct.  The prototype of an object is
  not modelled.  The application logger is a sink; what the engine writes to it is
  collected as a list of entries.
\<close>

type_synonym row = "(string \<times> jsval) list"

datatype level = Info | Warning | Error

type_synonym log_entry = "level \<times> string"

text \<open>
  One turn of the loop of \<^verbatim>\<open>prepareRowForInsert\<close>: the value stored under \<open>key\<close> and
  what is logged.  \<open>parses s\<close> says whether \<^verbatim>\<open>JSON.parse(s)\<close> returns; it is a
  parameter, the engine only looks at whether the call throws.  The element formatter of
  an array column puts a string between double quotes after replacing every double
  quote by backslash and double quote.
\<close>

definition quoteArrayElem :: "jsval \<Rightarrow> string" where
  "quoteArrayElem v =
     (case v of
        JStr s \<Rightarrow> dquote # concat (map (\<lambda>c. if c = dquote then [bslash, dquote] else [c]) s)
                    @ [dquote]
      | _ \<Rightarrow> joinElem v)"

definition formatArray :: "jsval list \<Rightarrow> string" where
  "formatArray vs = ''{'' @ js_join '','' (map quoteArrayElem vs) @ ''}''"

definition prepareValue ::
  "(string \<Rightarrow> bool) \<Rightarrow> string list \<Rightarrow> string list \<Rightarrow> string \<Rightarrow> jsval
     \<Rightarrow> jsval \<times> log_entry list" where
  "prepareValue parses jsonColumns arrayColumns key v =
     (if v = JNull \<or> v = JUndefined then (JNull, [])
      else if key \<in> set jsonColumns then
        (if typeof v = ''object'' then
           (case json_stringify v of
              Some t \<Rightarrow> (JStr t, [])
            | None \<Rightarrow> (JStr ''{}'', [(Error, ''Failed to stringify JSON column '' @ key @ '':'')]))
         else
           (case v of
              JStr s \<Rightarrow> (if parses s then (JStr s, []) else (JStr (json_quote s), []))
            | _ \<Rightarrow> (v, [])))
      else if key \<in> set arrayColumns then
        (case v of
           JArr vs \<Rightarrow> (JStr (formatArray vs), [])
         | JStr s \<Rightarrow> (if startsWith s ''{'' then (JStr s, []) else (JStr s, []))
         | _ \<Rightarrow> (v, []))
      else if typeof v = ''object'' \<and> \<not> instanceofDate v then
        (case json_stringify v of
           Some t \<Rightarrow> (JStr t, [])
         | None \<Rightarrow> (JNull, [(Error, ''Failed to stringify object in column '' @ key @ '':'')]))
      else (v, []))"

text \<open>
  The assignment \<^verbatim>\<open>prepared[key] = value\<close> on an object that was created as \<^verbatim>\<open>{}\<close>.
  Under the key \<^verbatim>\<open>__proto__\<close> it reaches the setter of \<^verbatim>\<open>Object.prototype\<close> and
  creates no property.  Under any other key it replaces the value of the property when
  the object has one of that name and adds the property after the others when not
  (a row being in \<^verbatim>\<open>Object.entries\<close> order, this is the order of the result as well).
\<close>

fun assign :: "string \<Rightarrow> jsval \<Rightarrow> row \<Rightarrow> row" where
  "assign key v [] = [(key, v)]"
| "assign key v ((k, w) # kvs) =
     (if k = key then (k, v) # kvs else (k, w) # assign key v kvs)"

definition set_property :: "row \<Rightarrow> string \<Rightarrow> jsval \<Rightarrow> row" where
  "set_property obj key v = (if key = ''__proto__'' then obj else assign key v obj)"

text \<open>
  \<^verbatim>\<open>prepareRowForInsert\<close>: the loop over \<^verbatim>\<open>Object.entries(row)\<close> assigns the prepared
  value of each column to \<^verbatim>\<open>prepared\<close>, which starts as \<^verbatim>\<open>{}\<close>.
\<close>

definition prepareRowForInsert ::
  "(string \<Rightarrow> bool) \<Rightarrow> row \<Rightarrow> string list \<Rightarrow> string list \<Rightarrow> row \<times> log_entry list" where
  "prepareRowForInsert parses r jsonColumns arrayColumns =
     (foldl (\<lambda>prepared (key, v).
               set_property prepared key
                 (fst (prepareValue parses jsonColumns arrayColumns key v)))
        [] r,
      concat (map (\<lambda>(key, v). snd (prepareValue parses jsonColumns arrayColumns key v)) r))"

section \<open>Reading a PostgreSQL array literal\<close>

text \<open>
  The text that the type preparer emits for an array column is read by the PostgreSQL
  server, which is outside the repository.  \<open>parse_pg_array\<close> follows the array input
  syntax of the PostgreSQL manual for a one-dimensional literal: elements between braces,
  separated by commas; an element between double quotes ends at the next double quote
  that is not preceded by a backslash, and a backslash makes the next character an
  ordinary data character (also outside quotes).  White space around elements and the
  unquoted word NULL are not treated.  \<open>None\<close> is a malformed literal.
\<close>

datatype pg_mode = Start | Quoted | Unquoted | AfterElem

fun pg_scan :: "pg_mode \<Rightarrow> string \<Rightarrow> string list \<Rightarrow> string \<Rightarrow> string list option" where
  "pg_scan m acc out [] = None"
| "pg_scan Start acc out (c # cs) =
     (if c = dquote then pg_scan Quoted [] out cs
      else if c = CHR '','' \<or> c = CHR ''}'' \<or> c = CHR ''{'' then None
      else if c = bslash then (case cs of [] \<Rightarrow> None | d # ds \<Rightarrow> pg_scan Unquoted [d] out ds)
      else pg_scan Unquoted [c] out cs)"
| "pg_scan Quoted acc out (c # cs) =
     (if c = dquote then pg_scan AfterElem [] (rev acc # out) cs
      else if c = bslash then (case cs of [] \<Rightarrow> None | d # ds \<Rightarrow> pg_scan Quoted (d # acc) out ds)
      else pg_scan Quoted (c # acc) out cs)"
| "pg_scan Unquoted acc out (c # cs) =
     (if c = CHR '','' then pg_scan Start [] (rev acc # out) cs
      else if c = CHR ''}'' then (if cs = [] then Some (rev (rev acc # out)) else None)
      else if c = dquote \<or> c = CHR ''{'' then None
      else if c = bslash then (case cs of [] \<Rightarrow> None | d # ds \<Rightarrow> pg_scan Unquoted (d # acc) out ds)
      else pg_scan Unquoted (c # acc) out cs)"
| "pg_scan AfterElem acc out (c # cs) =
     (if c = CHR '','' then pg_scan Start [] out cs
      else if c = CHR ''}'' then (if cs = [] then Some (rev out) else None)
      else None)"

definition parse_pg_array :: "string \<Rightarrow> string list option" where
  "parse_pg_array s =
     (case s of
        [] \<Rightarrow> None
      | c # cs \<Rightarrow> if c \<noteq> CHR ''{'' then None
                 else if cs = ''}'' then Some []
                 else pg_scan Start [] [] cs)"

section \<open>Databases, statements and the environment\<close>

text \<open>
  The engine talks to three databases through knex: the application database
  \<^verbatim>\<open>appDb\<close> (connections, job records, logs) and the two databases of a job,
  \<^verbatim>\<open>sourceDb\<close> and \<^verbatim>\<open>targetDb\<close>.  \<open>role\<close> is the value of the setting
  \<^verbatim>\<open>session_replication_role\<close> on the target connection.
\<close>

datatype conn = AppDb | SourceDb | TargetDb

text \<open>
  What \<^verbatim>\<open>db(tableName).max(column).first()\<close> holds under the key \<^verbatim>\<open>max\<close>: null for a
  table without rows, a number for a column of type \<^verbatim>\<open>int2\<close> or \<^verbatim>\<open>int4\<close>, and a
  string of digits for a column of type \<^verbatim>\<open>int8\<close> or \<^verbatim>\<open>numeric\<close>, which the driver
  delivers as text.  \<^verbatim>\<open>resetSequences\<close> computes \<^verbatim>\<open>(max || 0) + 1\<close>, which on a string
  appends the character \<^verbatim>\<open>1\<close>; the result is the second parameter of \<^verbatim>\<open>setval\<close>.
\<close>

datatype max_value = MaxNull | MaxNum int | MaxStr string

datatype setval_arg = ArgNum int | ArgStr string

fun max_or_zero :: "max_value \<Rightarrow> max_value" where
  "max_or_zero MaxNull = MaxNum 0"
| "max_or_zero (MaxNum n) = MaxNum n"
| "max_or_zero (MaxStr s) = (if s = [] then MaxNum 0 else MaxStr s)"

fun plus_one :: "max_value \<Rightarrow> setval_arg" where
  "plus_one MaxNull = ArgNum 1"
| "plus_one (MaxNum n) = ArgNum (n + 1)"
| "plus_one (MaxStr s) = ArgStr (s @ ''1'')"

fun show_arg :: "setval_arg \<Rightarrow> string" where
  "show_arg (ArgNum n) = show_int n"
| "show_arg (ArgStr s) = s"

datatype role = RoleDefault | RoleReplica

record connection =
  host :: string
  port :: int
  database :: string
  username :: string
  password :: string
  ssl :: bool
  reject_unauthorized :: bool

text \<open>One task of a job, and one entry of the job's result.\<close>

record collection_task =
  coll_name :: string
  coll_rule :: "string option"

record table_result =
  collection :: string
  rule :: "string option"
  rowsMigrated :: "nat option"
  status :: string
  error :: "string option"

text \<open>One row of \<^verbatim>\<open>information_schema.sequences\<close>, as \<^verbatim>\<open>getTableSequences\<close> reads it.\<close>

record sequence_row =
  sequence_name :: string
  increment :: "string option"
  minimum_value :: "string option"
  start_value :: "string option"

text \<open>
  Every call that the engine makes on a database, one constructor for each query or
  statement of the source.  Statements that the source builds as one line of SQL carry
  that text.
\<close>

datatype stmt =
    FindConnection string
  | InsertMigrationLog string string string string
  | UpdateMigration string string "table_result list option" "string option"
  | SelectColumns string
  | SelectColumnsDetailed string
  | SelectSerialColumns string
  | SelectMax string string
  | SetVal string setval_arg
  | CountRows string
  | SelectUniqueConstraints string
  | AddUniqueConstraint string string string
  | HasTable string
  | SetSessionReplicationRole role
  | TruncateCascade string
  | SelectSequences string
  | SequenceExistsPublic string
  | SequenceExists string
  | CreateSequenceIfNotExists string string string string
  | CreateSequence string
  | TableExists string
  | CreateTable string string
  | SetColumnDefaultNextval string string string
  | AlterSequenceOwnedBy string string string
  | AddPrimaryKey string string string
  | AddColumn string string string
  | SelectIndexes string
  | SelectIndexNames string
  | CreateIndex string
  | SelectBatch string nat nat
  | SelectAll string
  | InsertBatch string "row list"
  | InsertRow string row
  | InsertOnConflictMerge string string row
  | SelectPrimaryKey string
  | Destroy

text \<open>
  The history of a run is the list of the calls made so far, the most recent first; each
  entry records the connection, the statement, the replication role of the target
  session when the call was made, and whether the call succeeded.
\<close>

record event =
  ev_conn :: conn
  ev_stmt :: stmt
  ev_role :: role
  ev_ok :: bool

record job_record =
  job_status :: string
  job_result :: "table_result list option"
  job_error :: "string option"

text \<open>
  The state of a run: the history, the replication role of the target session, what was
  written to the application logger (most recent first), the \<^verbatim>\<open>migration_logs\<close> rows
  inserted (most recent first), the job's row of the \<^verbatim>\<open>migrations\<close> table, and whether
  the local variables \<^verbatim>\<open>sourceDb\<close> and \<^verbatim>\<open>targetDb\<close> hold a knex handle.  The wall
  clock (\<^verbatim>\<open>duration_ms\<close>) and the generated log identifiers are left out.
  The calls of a run are awaited one after the other, and the target handle is taken
  to serve them on one session, so that a \<^verbatim>\<open>SET\<close> is seen by the calls that follow it.
\<close>

record state =
  hist :: "event list"
  session_role :: role
  logger :: "log_entry list"
  migration_logs :: "(string \<times> string \<times> string \<times> string) list"
  job :: job_record
  sourceDb :: bool
  targetDb :: bool

text \<open>
  The environment of a run.  \<open>fault\<close> decides, from the history, whether the next call
  fails and with which message; nothing else is assumed about when the databases fail.
  The catalog and count queries are answered from the history as well, so the answers
  may change as the engine changes the target.  The rows of the source tables are a
  snapshot: the engine never writes to the source.  \<open>json_parses\<close> says on which
  strings \<^verbatim>\<open>JSON.parse\<close> returns.
\<close>

record env =
  fault :: "event list \<Rightarrow> conn \<Rightarrow> stmt \<Rightarrow> string option"
  json_parses :: "string \<Rightarrow> bool"
  connections :: "string \<Rightarrow> connection option"
  source_rows :: "string \<Rightarrow> row list"
  db_columns :: "event list \<Rightarrow> conn \<Rightarrow> string \<Rightarrow> column list"
  db_serial_columns :: "event list \<Rightarrow> conn \<Rightarrow> string \<Rightarrow> (string \<times> string option) list"
  db_column_max :: "event list \<Rightarrow> conn \<Rightarrow> string \<Rightarrow> string \<Rightarrow> max_value"
  db_row_count :: "event list \<Rightarrow> conn \<Rightarrow> string \<Rightarrow> int"
  db_unique_constraints :: "event list \<Rightarrow> conn \<Rightarrow> string \<Rightarrow> (string \<times> string) list"
  db_has_table :: "event list \<Rightarrow> conn \<Rightarrow> string \<Rightarrow> bool"
  db_sequences :: "event list \<Rightarrow> conn \<Rightarrow> string \<Rightarrow> sequence_row list"
  db_sequence_exists :: "event list \<Rightarrow> conn \<Rightarrow> string \<Rightarrow> bool"
  db_indexes :: "event list \<Rightarrow> conn \<Rightarrow> string \<Rightarrow> (string \<times> string) list"
  db_primary_key :: "event list \<Rightarrow> conn \<Rightarrow> string \<Rightarrow> string list"

section \<open>Asynchronous functions as state transformers with exceptions\<close>

text \<open>
  An \<^verbatim>\<open>async\<close> function of the engine is a function from the state to an outcome and
  a new state; \<open>Inl msg\<close> is a thrown error with \<^verbatim>\<open>error.message = msg\<close>.
\<close>

type_synonym 'a action = "state \<Rightarrow> (string + 'a) \<times> state"

definition returnE :: "'a \<Rightarrow> 'a action" where
  "returnE x = (\<lambda>s. (Inr x, s))"

definition throwE :: "string \<Rightarrow> 'a action" where
  "throwE msg = (\<lambda>s. (Inl msg, s))"

definition bindE :: "'a action \<Rightarrow> ('a \<Rightarrow> 'b action) \<Rightarrow> 'b action" where
  "bindE m f = (\<lambda>s. case m s of (Inl msg, s') \<Rightarrow> (Inl msg, s') | (Inr x, s') \<Rightarrow> f x s')"

definition seqE :: "'a action \<Rightarrow> 'b action \<Rightarrow> 'b action" where
  "seqE m n = bindE m (\<lambda>x. n)"

text \<open>\<^verbatim>\<open>try { m } catch (e) { h(e) }\<close> and \<^verbatim>\<open>try { m } finally { fin }\<close>.\<close>

definition catchE :: "'a action \<Rightarrow> (string \<Rightarrow> 'a action) \<Rightarrow> 'a action" where
  "catchE m h = (\<lambda>s. case m s of (Inl msg, s') \<Rightarrow> h msg s' | (Inr x, s') \<Rightarrow> (Inr x, s'))"

definition finallyE :: "'a action \<Rightarrow> unit action \<Rightarrow> 'a action" where
  "finallyE m fin =
     (\<lambda>s. case m s of (r, s') \<Rightarrow>
        (case fin s' of (Inl msg, s'') \<Rightarrow> (Inl msg, s'') | (Inr u, s'') \<Rightarrow> (r, s'')))"

text \<open>
  \<^verbatim>\<open>for (const x of xs) { ... }\<close>: the body receives the element and the current values
  of the variables that the loop updates, and returns their new values.
\<close>

fun forE :: "'a list \<Rightarrow> ('a \<Rightarrow> 'b \<Rightarrow> 'b action) \<Rightarrow> 'b \<Rightarrow> 'b action" where
  "forE [] f acc = returnE acc"
| "forE (x # xs) f acc = bindE (f x acc) (forE xs f)"

text \<open>A call on the logger; a list of calls.\<close>

definition logger_write :: "level \<Rightarrow> string \<Rightarrow> unit action" where
  "logger_write lvl msg = (\<lambda>s. (Inr (), s\<lparr>logger := (lvl, msg) # logger s\<rparr>))"

definition logger_writes :: "log_entry list \<Rightarrow> unit action" where
  "logger_writes entries = (\<lambda>s. (Inr (), s\<lparr>logger := rev entries @ logger s\<rparr>))"

text \<open>
  What a successful statement changes in the state: a \<^verbatim>\<open>SET session_replication_role\<close>
  on the target sets the role, an insert into \<^verbatim>\<open>migration_logs\<close> adds the row, an
  update of \<^verbatim>\<open>migrations\<close> writes the job record.
\<close>

definition apply_effect :: "conn \<Rightarrow> stmt \<Rightarrow> state \<Rightarrow> state" where
  "apply_effect c q s =
     (if c = TargetDb then
        (case q of
           SetSessionReplicationRole r \<Rightarrow> s\<lparr>session_role := r\<rparr>
         | _ \<Rightarrow> s)
      else if c = AppDb then
        (case q of
           InsertMigrationLog mid coll lvl msg \<Rightarrow>
             s\<lparr>migration_logs := (mid, coll, lvl, msg) # migration_logs s\<rparr>
         | UpdateMigration mid st res err \<Rightarrow>
             s\<lparr>job := \<lparr>job_status = st,
                        job_result = (case res of None \<Rightarrow> job_result (job s) | Some r \<Rightarrow> Some r),
                        job_error = (case err of None \<Rightarrow> job_error (job s) | Some e \<Rightarrow> Some e)\<rparr>\<rparr>
         | _ \<Rightarrow> s)
      else s)"

text \<open>
  One call on a database: the environment decides whether it fails; the call is entered
  in the history either way.
\<close>

definition exec :: "env \<Rightarrow> conn \<Rightarrow> stmt \<Rightarrow> unit action" where
  "exec E c q =
     (\<lambda>s. case fault E (hist s) c q of
        Some msg \<Rightarrow>
          (Inl msg, s\<lparr>hist := \<lparr>ev_conn = c, ev_stmt = q, ev_role = session_role s,
                                 ev_ok = False\<rparr> # hist s\<rparr>)
      | None \<Rightarrow>
          (Inr (), apply_effect c q
             (s\<lparr>hist := \<lparr>ev_conn = c, ev_stmt = q, ev_role = session_role s,
                            ev_ok = True\<rparr> # hist s\<rparr>)))"

text \<open>A query: a call whose answer is read from the environment at the history of the call.\<close>

definition query :: "env \<Rightarrow> conn \<Rightarrow> stmt \<Rightarrow> (event list \<Rightarrow> 'a) \<Rightarrow> 'a action" where
  "query E c q answer = (\<lambda>s. bindE (exec E c q) (\<lambda>u. returnE (answer (hist s))) s)"

section \<open>The engine: logging, introspection, sequences and constraints\<close>

text \<open>
  \<^verbatim>\<open>logMigration\<close>: the insert into \<^verbatim>\<open>migration_logs\<close>; a failure is written to the
  logger and swallowed.
\<close>

definition logMigration :: "env \<Rightarrow> string \<Rightarrow> string \<Rightarrow> string \<Rightarrow> string \<Rightarrow> unit action" where
  "logMigration E migrationId collectionName lvl message =
     catchE (exec E AppDb (InsertMigrationLog migrationId collectionName lvl message))
       (\<lambda>err. logger_write Error ''Failed to log migration:'')"

definition getTableColumns :: "env \<Rightarrow> conn \<Rightarrow> string \<Rightarrow> column list action" where
  "getTableColumns E db tableName =
     query E db (SelectColumns tableName) (\<lambda>h. db_columns E h db tableName)"

definition getTableColumnsDetailed :: "env \<Rightarrow> conn \<Rightarrow> string \<Rightarrow> column list action" where
  "getTableColumnsDetailed E db tableName =
     query E db (SelectColumnsDetailed tableName) (\<lambda>h. db_columns E h db tableName)"

text \<open>
  \<^verbatim>\<open>resetSequences\<close>.  A row of the first query is a column name and the name of its
  sequence, which may be null.  (\<^verbatim>\<open>max\<close> is taken as a number; for an \<^verbatim>\<open>int8\<close>
  column the driver returns a string, which is not modelled.)
\<close>

definition resetSequences :: "env \<Rightarrow> conn \<Rightarrow> string \<Rightarrow> unit action" where
  "resetSequences E db tableName =
     catchE
       (bindE (query E db (SelectSerialColumns tableName)
                 (\<lambda>h. db_serial_columns E h db tableName))
          (\<lambda>sequences.
             forE sequences
               (\<lambda>seq u.
                  if truthy_str (snd seq) then
                    catchE
                      (bindE (query E db (SelectMax tableName (fst seq))
                                (\<lambda>h. db_column_max E h db tableName (fst seq)))
                         (\<lambda>maxResult.
                            let maxValue = max_or_zero maxResult in
                            seqE (exec E db (SetVal (the (snd seq)) (plus_one maxValue)))
                              (logger_write Info
                                 (''Sequence '' @ the (snd seq) @ '' reset to ''
                                    @ show_arg (plus_one maxValue)))))
                      (\<lambda>seqError.
                         logger_write Warning
                           (''Could not reset sequence '' @ the (snd seq) @ '': '' @ seqError))
                  else returnE ())
               ()))
       (\<lambda>err. logger_write Warning
                 (''Sequence reset skipped for '' @ tableName @ '': '' @ err))"

definition tableHasData :: "env \<Rightarrow> conn \<Rightarrow> string \<Rightarrow> bool action" where
  "tableHasData E db tableName =
     catchE
       (bindE (query E db (CountRows tableName) (\<lambda>h. db_row_count E h db tableName))
          (\<lambda>count. returnE (count > 0)))
       (\<lambda>err. returnE False)"

text \<open>
  \<^verbatim>\<open>copyConstraints(sourceDb, targetDb, tableName)\<close>.  Here and below the two handles
  of a job are the connections \<open>SourceDb\<close> and \<open>TargetDb\<close>.
\<close>

definition copyConstraints :: "env \<Rightarrow> string \<Rightarrow> unit action" where
  "copyConstraints E tableName =
     catchE
       (bindE (query E SourceDb (SelectUniqueConstraints tableName)
                 (\<lambda>h. db_unique_constraints E h SourceDb tableName))
          (\<lambda>uniqueConstraints.
             forE uniqueConstraints
               (\<lambda>constraint u.
                  catchE
                    (seqE (exec E TargetDb
                             (AddUniqueConstraint tableName (fst constraint) (snd constraint)))
                       (logger_write Info
                          (''Unique constraint '' @ fst constraint @ '' created'')))
                    (\<lambda>err.
                       if \<not> str_includes err ''already exists'' then
                         logger_write Warning
                           (''Could not create constraint '' @ fst constraint @ '': '' @ err)
                       else returnE ()))
               ()))
       (\<lambda>err. logger_write Warning
                 (''Constraint copy skipped for '' @ tableName @ '': '' @ err))"

definition getTableSequences :: "env \<Rightarrow> conn \<Rightarrow> string \<Rightarrow> sequence_row list action" where
  "getTableSequences E db tableName =
     catchE (query E db (SelectSequences tableName) (\<lambda>h. db_sequences E h db tableName))
       (\<lambda>err. returnE [])"

text \<open>\<^verbatim>\<open>x || '1'\<close> on a nullable string.\<close>

definition str_or :: "string option \<Rightarrow> string \<Rightarrow> string" where
  "str_or x d = (if truthy_str x then the x else d)"

text \<open>
  \<^verbatim>\<open>createSequences\<close>.  \<open>log\<close> is the callback that \<^verbatim>\<open>migrateSchema\<close> received.  The
  pictographs at the head of the messages are left out.
\<close>

definition createSequences :: "env \<Rightarrow> string \<Rightarrow> (string \<Rightarrow> unit action) \<Rightarrow> unit action" where
  "createSequences E tableName log =
     catchE
       (bindE (getTableSequences E SourceDb tableName)
          (\<lambda>sequences.
             forE sequences
               (\<lambda>seq u.
                  catchE
                    (bindE (query E TargetDb (SequenceExistsPublic (sequence_name seq))
                              (\<lambda>h. db_sequence_exists E h TargetDb (sequence_name seq)))
                       (\<lambda>seqExists.
                          if \<not> seqExists then
                            seqE (exec E TargetDb
                                    (CreateSequenceIfNotExists (sequence_name seq)
                                       (str_or (increment seq) ''1'')
                                       (str_or (minimum_value seq) ''1'')
                                       (str_or (start_value seq) ''1'')))
                              (log (''Sequence '' @ sequence_name seq @ '' created''))
                          else log (''Sequence '' @ sequence_name seq @ '' already exists'')))
                    (\<lambda>seqError.
                       log (''Could not create sequence '' @ sequence_name seq @ '': ''
                              @ seqError)))
               ()))
       (\<lambda>err. log (''Sequence creation skipped: '' @ err))"

section \<open>The engine: the schema replayer\<close>

text \<open>
  The name of the sequence in a default such as \<^verbatim>\<open>nextval('public.t_id_seq'::regclass)\<close>:
  the first match of \<^verbatim>\<open>/'([^']+)'/\<close>, then \<^verbatim>\<open>.split('.').pop().replace(/'/g, '')\<close>.
\<close>

fun match_quoted :: "string \<Rightarrow> string option" where
  "match_quoted [] = None"
| "match_quoted (c # cs) =
     (if c = squote \<and> takeWhile (\<lambda>d. d \<noteq> squote) cs \<noteq> []
           \<and> dropWhile (\<lambda>d. d \<noteq> squote) cs \<noteq> []
      then Some (takeWhile (\<lambda>d. d \<noteq> squote) cs)
      else match_quoted cs)"

definition nextvalSequenceName :: "string \<Rightarrow> string option" where
  "nextvalSequenceName columnDefault =
     map_option
       (\<lambda>m. filter (\<lambda>d. d \<noteq> squote) (rev (takeWhile (\<lambda>d. d \<noteq> CHR ''.'') (rev m))))
       (match_quoted columnDefault)"

definition quoted_ident :: "string \<Rightarrow> string" where
  "quoted_ident n = dquote # n @ [dquote]"

datatype schema_error = TableError string string | ColumnError string string

record schema_changes =
  tableCreated :: bool
  sequencesCreated :: nat
  columnsAdded :: "string list"
  columnsModified :: "string list"
  errors :: "schema_error list"

definition no_changes :: schema_changes where
  "no_changes = \<lparr>tableCreated = False, sequencesCreated = 0, columnsAdded = [],
                  columnsModified = [], errors = []\<rparr>"

text \<open>\<^verbatim>\<open>syncIndexes\<close>: an index is a pair of \<^verbatim>\<open>indexname\<close> and \<^verbatim>\<open>indexdef\<close>.\<close>

definition syncIndexes :: "env \<Rightarrow> string \<Rightarrow> (string \<Rightarrow> unit action) \<Rightarrow> unit action" where
  "syncIndexes E tableName log =
     catchE
       (bindE (query E SourceDb (SelectIndexes tableName)
                 (\<lambda>h. db_indexes E h SourceDb tableName))
          (\<lambda>sourceIndexes.
             bindE (query E TargetDb (SelectIndexNames tableName)
                      (\<lambda>h. map fst (db_indexes E h TargetDb tableName)))
               (\<lambda>targetIndexNames.
                  forE sourceIndexes
                    (\<lambda>idx u.
                       if fst idx \<notin> set targetIndexNames then
                         catchE
                           (seqE (log (''Creating index: '' @ fst idx))
                              (seqE (exec E TargetDb (CreateIndex (snd idx)))
                                 (log (''Index '' @ fst idx @ '' created''))))
                           (\<lambda>idxError.
                              log (''Could not create index '' @ fst idx @ '': '' @ idxError))
                       else returnE ())
                    ())))
       (\<lambda>err. log (''Index sync skipped: '' @ err))"

text \<open>The column definition inside \<^verbatim>\<open>CREATE TABLE\<close>.\<close>

definition columnDef :: "column \<Rightarrow> string" where
  "columnDef col =
     (let def0 = quoted_ident (column_name col) @ '' '' @ columnToSqlType col;
          def1 = (if default_is_nextval col then def0
                  else if truthy_str (column_default col)
                    then def0 @ '' DEFAULT '' @ the (column_default col)
                  else def0)
      in if is_nullable col = ''NO'' then def1 @ '' NOT NULL'' else def1)"

text \<open>
  The loop that attaches the sequences to the columns of a table just created, and the
  creation of the primary key over the serial columns.
\<close>

definition configureSequence ::
  "env \<Rightarrow> string \<Rightarrow> (string \<Rightarrow> unit action) \<Rightarrow> column \<Rightarrow> schema_changes
     \<Rightarrow> schema_changes action" where
  "configureSequence E tableName log col changes =
     (if default_is_nextval col then
        catchE
          (case nextvalSequenceName (the (column_default col)) of
             Some seqName \<Rightarrow>
               seqE (exec E TargetDb
                       (SetColumnDefaultNextval tableName (column_name col) seqName))
                 (seqE (exec E TargetDb
                          (AlterSequenceOwnedBy seqName tableName (column_name col)))
                    (seqE (log (''Sequence '' @ seqName @ '' configured for column ''
                                  @ column_name col))
                       (returnE (changes\<lparr>sequencesCreated := sequencesCreated changes + 1\<rparr>))))
           | None \<Rightarrow> returnE changes)
          (\<lambda>seqError.
             seqE (log (''Could not configure sequence for '' @ column_name col @ '': ''
                          @ seqError))
               (returnE changes))
      else returnE changes)"

definition createPrimaryKey ::
  "env \<Rightarrow> string \<Rightarrow> (string \<Rightarrow> unit action) \<Rightarrow> column list \<Rightarrow> unit action" where
  "createPrimaryKey E tableName log sourceColumns =
     (let pkColumns = filter default_is_nextval sourceColumns in
      if length pkColumns > 0 then
        catchE
          (seqE (exec E TargetDb
                   (AddPrimaryKey tableName (tableName @ ''_pkey'')
                      (js_join '', '' (map (\<lambda>c. quoted_ident (column_name c)) pkColumns))))
             (log ''Primary key created''))
          (\<lambda>pkError. log (''Could not create primary key: '' @ pkError))
      else returnE ())"

text \<open>
  The branch of \<^verbatim>\<open>migrateSchema\<close> for a table that the target does not have.  The
  second component of the result says whether the function returned from inside the
  branch (after a failed \<^verbatim>\<open>CREATE TABLE\<close>).
\<close>

definition createTargetTable ::
  "env \<Rightarrow> string \<Rightarrow> (string \<Rightarrow> unit action) \<Rightarrow> column list \<Rightarrow> schema_changes
     \<Rightarrow> (schema_changes \<times> bool) action" where
  "createTargetTable E tableName log sourceColumns changes =
     seqE (log (''Creating sequences for '' @ tableName @ ''...''))
       (seqE (createSequences E tableName log)
          (seqE (log (''Creating table '' @ tableName @ ''...''))
             (let createTableSQL =
                    ''CREATE TABLE '' @ quoted_ident tableName @ '' (''
                      @ js_join '', '' (map columnDef sourceColumns) @ '')''
              in bindE
                   (catchE
                      (seqE (exec E TargetDb (CreateTable tableName createTableSQL))
                         (seqE (log (''Table '' @ tableName @ '' created with ''
                                       @ show_nat (length sourceColumns) @ '' columns''))
                            (returnE (changes\<lparr>tableCreated := True\<rparr>, False))))
                      (\<lambda>createError.
                         seqE (log (''Failed to create table: '' @ createError))
                           (returnE
                              (changes\<lparr>errors := errors changes
                                          @ [TableError tableName createError]\<rparr>, True))))
                   (\<lambda>created.
                      if snd created then returnE (fst created, True)
                      else bindE (forE sourceColumns (configureSequence E tableName log)
                                    (fst created))
                             (\<lambda>changes'.
                                seqE (createPrimaryKey E tableName log sourceColumns)
                                  (returnE (changes', False)))))))"

text \<open>
  One turn of the loop over the missing columns of an existing target table: create the
  sequence of a serial column when the target lacks it, then \<^verbatim>\<open>ALTER TABLE ... ADD
  COLUMN\<close>; the column is entered in \<^verbatim>\<open>columnsAdded\<close> when the statement succeeded and
  in \<^verbatim>\<open>errors\<close> when anything in the turn failed.
\<close>

definition addColumnSQL :: "string \<Rightarrow> column \<Rightarrow> string" where
  "addColumnSQL tableName col =
     (let alterSQL = ''ALTER TABLE '' @ quoted_ident tableName @ '' ADD COLUMN ''
                       @ quoted_ident (column_name col) @ '' '' @ columnToSqlType col
      in if default_is_nextval col then alterSQL @ '' DEFAULT '' @ the (column_default col)
         else if truthy_str (column_default col)
           then alterSQL @ '' DEFAULT '' @ the (column_default col)
         else if is_nullable col = ''NO'' then
           (case getDefaultValueForType (data_type col) of
              Some defaultValue \<Rightarrow> alterSQL @ '' DEFAULT '' @ defaultValue
            | None \<Rightarrow> alterSQL)
         else alterSQL)"

definition addMissingColumn ::
  "env \<Rightarrow> string \<Rightarrow> (string \<Rightarrow> unit action) \<Rightarrow> column \<Rightarrow> schema_changes
     \<Rightarrow> schema_changes action" where
  "addMissingColumn E tableName log col changes =
     catchE
       (seqE
          (if default_is_nextval col then
             (case nextvalSequenceName (the (column_default col)) of
                Some seqName \<Rightarrow>
                  bindE (query E TargetDb (SequenceExists seqName)
                           (\<lambda>h. db_sequence_exists E h TargetDb seqName))
                    (\<lambda>seqExists.
                       if \<not> seqExists then
                         seqE (exec E TargetDb (CreateSequence seqName))
                           (log (''Sequence '' @ seqName @ '' created''))
                       else returnE ())
              | None \<Rightarrow> returnE ())
           else returnE ())
          (seqE (log (''Adding column: '' @ column_name col))
             (seqE (exec E TargetDb
                      (AddColumn tableName (column_name col) (addColumnSQL tableName col)))
                (seqE (log (''Column '' @ column_name col @ '' added''))
                   (returnE (changes\<lparr>columnsAdded := columnsAdded changes
                                        @ [column_name col]\<rparr>))))))
       (\<lambda>colError.
          seqE (log (''Failed to add column '' @ column_name col @ '': '' @ colError))
            (returnE (changes\<lparr>errors := errors changes
                                 @ [ColumnError (column_name col) colError]\<rparr>)))"

definition addMissingColumns ::
  "env \<Rightarrow> string \<Rightarrow> (string \<Rightarrow> unit action) \<Rightarrow> column list \<Rightarrow> schema_changes
     \<Rightarrow> schema_changes action" where
  "addMissingColumns E tableName log sourceColumns changes =
     seqE (log (''Table '' @ tableName @ '' exists, checking for new columns...''))
       (bindE (getTableColumnsDetailed E TargetDb tableName)
          (\<lambda>targetColumns.
             let targetColumnNames = map column_name targetColumns;
                 missingColumns =
                   filter (\<lambda>srcCol. column_name srcCol \<notin> set targetColumnNames) sourceColumns
             in if length missingColumns = 0 then
                  seqE (log (''Table '' @ tableName @ '' is up to date'')) (returnE changes)
                else
                  seqE (log (''Found '' @ show_nat (length missingColumns)
                               @ '' new column(s) to add''))
                    (forE missingColumns (addMissingColumn E tableName log) changes)))"

text \<open>
  \<^verbatim>\<open>migrateSchema\<close>.  Everything that can throw into the outer \<^verbatim>\<open>catch\<close> (the two
  column queries and the existence query) does so before \<^verbatim>\<open>changes\<close> is first
  updated, so the handler extends the initial value.
\<close>

definition migrateSchema ::
  "env \<Rightarrow> string \<Rightarrow> (string \<Rightarrow> unit action) \<Rightarrow> schema_changes action" where
  "migrateSchema E tableName log =
     catchE
       (bindE (getTableColumnsDetailed E SourceDb tableName)
          (\<lambda>sourceColumns.
             if length sourceColumns = 0 then
               seqE (log (''Table '' @ tableName @ '' not found in source database''))
                 (returnE no_changes)
             else
               bindE (query E TargetDb (TableExists tableName)
                        (\<lambda>h. db_has_table E h TargetDb tableName))
                 (\<lambda>tableExists.
                    bindE
                      (if \<not> tableExists
                       then createTargetTable E tableName log sourceColumns no_changes
                       else bindE (addMissingColumns E tableName log sourceColumns no_changes)
                              (\<lambda>changes. returnE (changes, False)))
                      (\<lambda>branch.
                         if snd branch then returnE (fst branch)
                         else seqE (syncIndexes E tableName log) (returnE (fst branch))))))
       (\<lambda>err.
          seqE (log (''Schema migration failed for '' @ tableName @ '': '' @ err))
            (returnE (no_changes\<lparr>errors := [TableError tableName err]\<rparr>)))"

section \<open>The engine: the data replicator\<close>

definition batchSize :: nat where
  "batchSize = 500"

text \<open>\<^verbatim>\<open>sourceDb(tableName).select('*').limit(batchSize).offset(offset)\<close>.\<close>

definition selectBatch :: "env \<Rightarrow> string \<Rightarrow> nat \<Rightarrow> nat \<Rightarrow> row list action" where
  "selectBatch E tableName lim off =
     query E SourceDb (SelectBatch tableName lim off)
       (\<lambda>h. take lim (drop off (source_rows E tableName)))"

text \<open>
  The error entry for a row that could not be inserted holds the first 200 characters
  of \<^verbatim>\<open>JSON.stringify(row)\<close>; that call throws when the row cannot be serialized.
\<close>

definition logRowError :: "string \<Rightarrow> string \<Rightarrow> row \<Rightarrow> unit action" where
  "logRowError tableName rowError r =
     (case json_stringify (JObj r) of
        None \<Rightarrow> throwE ''Do not know how to serialize a BigInt''
      | Some t \<Rightarrow>
          logger_write Error
            (''Failed to insert row in '' @ tableName @ '': '' @ rowError @ '' '' @ take 200 t))"

text \<open>
  One turn of the loop of \<^verbatim>\<open>migrateData\<close>, from the preparation of a non-empty batch
  to the end of the \<^verbatim>\<open>try\<close>/\<^verbatim>\<open>catch\<close>; the result is the new value of
  \<^verbatim>\<open>totalMigrated\<close>.  (The percentage in the progress message is left out.)
\<close>

definition migrateBatch ::
  "env \<Rightarrow> string \<Rightarrow> string list \<Rightarrow> string list \<Rightarrow> int \<Rightarrow> row list \<Rightarrow> nat \<Rightarrow> nat action" where
  "migrateBatch E tableName jsonColumns arrayColumns totalRows batch totalMigrated =
     (let prepared = map (\<lambda>r. prepareRowForInsert (json_parses E) r jsonColumns arrayColumns)
                       batch;
          preparedData = map fst prepared
      in seqE (logger_writes (concat (map snd prepared)))
           (catchE
              (seqE (exec E TargetDb (SetSessionReplicationRole RoleReplica))
                 (seqE (exec E TargetDb (InsertBatch tableName preparedData))
                    (seqE (exec E TargetDb (SetSessionReplicationRole RoleDefault))
                       (seqE (logger_write Info
                                (tableName @ '': '' @ show_nat (totalMigrated + length batch)
                                   @ ''/'' @ show_int totalRows @ '' rows''))
                          (returnE (totalMigrated + length batch))))))
              (\<lambda>insertError.
                 seqE (logger_write Warning
                         (''Batch insert failed for '' @ tableName @ '', trying row by row: ''
                            @ insertError))
                   (seqE (exec E TargetDb (SetSessionReplicationRole RoleReplica))
                      (bindE
                         (forE preparedData
                            (\<lambda>r tot.
                               catchE
                                 (seqE (exec E TargetDb (InsertRow tableName r))
                                    (returnE (tot + 1)))
                                 (\<lambda>rowError.
                                    seqE (logRowError tableName rowError r) (returnE tot)))
                            totalMigrated)
                         (\<lambda>tot.
                            seqE (exec E TargetDb (SetSessionReplicationRole RoleDefault))
                              (returnE tot)))))))"

text \<open>
  The \<^verbatim>\<open>while (true)\<close> loop of \<^verbatim>\<open>migrateData\<close>, with the variables \<^verbatim>\<open>offset\<close> and
  \<^verbatim>\<open>totalMigrated\<close>.  It ends on an empty batch, after a batch shorter than
  \<^verbatim>\<open>batchSize\<close>, or by an exception.
\<close>

function migrateData_loop ::
  "env \<Rightarrow> string \<Rightarrow> string list \<Rightarrow> string list \<Rightarrow> int \<Rightarrow> nat \<Rightarrow> nat \<Rightarrow> nat action" where
  "migrateData_loop E tableName jsonColumns arrayColumns totalRows off totalMigrated s =
     (case selectBatch E tableName batchSize off s of
        (Inl msg, s1) \<Rightarrow> (Inl msg, s1)
      | (Inr batch, s1) \<Rightarrow>
          if length batch = 0 then (Inr totalMigrated, s1)
          else
            (case migrateBatch E tableName jsonColumns arrayColumns totalRows batch
                    totalMigrated s1 of
               (Inl msg, s2) \<Rightarrow> (Inl msg, s2)
             | (Inr tot, s2) \<Rightarrow>
                 if length batch < batchSize then (Inr tot, s2)
                 else migrateData_loop E tableName jsonColumns arrayColumns totalRows
                        (off + batchSize) tot s2))"
  by pat_completeness auto
termination
proof (relation "measure (\<lambda>(E, tableName, jc, ac, totalRows, off, tot, s).
                   length (source_rows E tableName) - off)")
  show "wf (measure (\<lambda>(E, tableName, jc, ac, totalRows, off, tot, s).
                   length (source_rows E tableName) - off))"
    by simp
next
  fix E tableName jsonColumns arrayColumns totalRows off totalMigrated s x1 s1 batch x2 s2 tot
  assume sel: "(x1, s1) = selectBatch E tableName batchSize off s"
    and b: "x1 = Inr batch" and full: "\<not> length batch < batchSize"
  have "batch = take batchSize (drop off (source_rows E tableName))"
    using sel b
    by (auto simp: selectBatch_def query_def bindE_def returnE_def exec_def
             split: option.splits)
  with full have "off + batchSize \<le> length (source_rows E tableName)"
    by (simp add: batchSize_def)
  then show "((E, tableName, jsonColumns, arrayColumns, totalRows, off + batchSize, tot, s2),
              (E, tableName, jsonColumns, arrayColumns, totalRows, off, totalMigrated, s))
             \<in> measure (\<lambda>(E, tableName, jc, ac, totalRows, off, tot, s).
                   length (source_rows E tableName) - off)"
    by (simp add: batchSize_def)
qed

declare migrateData_loop.simps [simp del]

definition migrateData :: "env \<Rightarrow> string \<Rightarrow> string list \<Rightarrow> string list \<Rightarrow> nat action" where
  "migrateData E tableName jsonColumns arrayColumns =
     bindE (query E SourceDb (CountRows tableName) (\<lambda>h. db_row_count E h SourceDb tableName))
       (\<lambda>totalRows.
          seqE (logger_write Info
                  (''Starting data migration for '' @ tableName @ '': '' @ show_int totalRows
                     @ '' rows''))
            (bindE (migrateData_loop E tableName jsonColumns arrayColumns totalRows 0 0)
               (\<lambda>totalMigrated.
                  seqE (logger_write Info
                          (''Completed data migration for '' @ tableName @ '': ''
                             @ show_nat totalMigrated @ ''/'' @ show_int totalRows @ '' rows''))
                    (returnE totalMigrated))))"

text \<open>
  \<^verbatim>\<open>upsertData\<close>.  The key query returns one row for each column of the primary key;
  the conflict target is \<^verbatim>\<open>pkQuery.rows[0]?.column_name || "id"\<close>.
\<close>

definition upsertData :: "env \<Rightarrow> string \<Rightarrow> string list \<Rightarrow> string list \<Rightarrow> nat action" where
  "upsertData E tableName jsonColumns arrayColumns =
     bindE (query E SourceDb (SelectPrimaryKey tableName)
              (\<lambda>h. db_primary_key E h SourceDb tableName))
       (\<lambda>pkRows.
          let primaryKey = (case pkRows of
                              [] \<Rightarrow> ''id''
                            | c # cs \<Rightarrow> if c \<noteq> [] then c else ''id'')
          in bindE (query E SourceDb (SelectAll tableName) (\<lambda>h. source_rows E tableName))
               (\<lambda>rows.
                  forE rows
                    (\<lambda>r count.
                       let prepared = prepareRowForInsert (json_parses E) r jsonColumns
                                        arrayColumns
                       in seqE (logger_writes (snd prepared))
                            (catchE
                               (seqE (exec E TargetDb
                                        (InsertOnConflictMerge tableName primaryKey
                                           (fst prepared)))
                                  (returnE (count + 1)))
                               (\<lambda>err.
                                  seqE (logger_write Error
                                          (''Upsert failed for row in '' @ tableName @ '': ''
                                             @ err))
                                    (returnE count))))
                    0))"

definition insertIgnoreData :: "env \<Rightarrow> string \<Rightarrow> string list \<Rightarrow> string list \<Rightarrow> nat action" where
  "insertIgnoreData E tableName jsonColumns arrayColumns =
     bindE (query E SourceDb (SelectAll tableName) (\<lambda>h. source_rows E tableName))
       (\<lambda>rows.
          forE rows
            (\<lambda>r inserted.
               let prepared = prepareRowForInsert (json_parses E) r jsonColumns arrayColumns
               in seqE (logger_writes (snd prepared))
                    (catchE
                       (seqE (exec E TargetDb (InsertRow tableName (fst prepared)))
                          (returnE (inserted + 1)))
                       (\<lambda>err.
                          if \<not> str_includes err ''duplicate key''
                               \<and> \<not> str_includes err ''unique constraint''
                          then seqE (logger_write Error
                                       (''Insert failed for row in '' @ tableName @ '': ''
                                          @ err))
                                 (returnE inserted)
                          else returnE inserted)))
            0)"

section \<open>The engine: the migration coordinator\<close>

text \<open>
  \<^verbatim>\<open>collection.rule || globalRule\<close>; \<open>None\<close> is \<^verbatim>\<open>undefined\<close>.  The rule as a
  template literal prints it.
\<close>

definition rule_or :: "string option \<Rightarrow> string option \<Rightarrow> string option" where
  "rule_or r g = (if truthy_str r then r else g)"

definition show_rule :: "string option \<Rightarrow> string" where
  "show_rule r = (case r of None \<Rightarrow> ''undefined'' | Some t \<Rightarrow> t)"

text \<open>
  A call of a callback whose promise is not awaited: a rejection does not reach the
  caller.  \<^verbatim>\<open>migrateSchema\<close> calls its \<^verbatim>\<open>log\<close> callback this way.
\<close>

definition unawaited :: "unit action \<Rightarrow> unit action" where
  "unawaited m = catchE m (\<lambda>err. returnE ())"

text \<open>
  The block of the \<^verbatim>\<open>overwrite\<close> case that empties a target table which has rows: the
  replication role is set, and a \<^verbatim>\<open>try\<close>/\<^verbatim>\<open>finally\<close> truncates, resets the sequences and
  sets the role back.
\<close>

definition truncateTarget :: "env \<Rightarrow> string \<Rightarrow> string \<Rightarrow> unit action" where
  "truncateTarget E migrationId collectionName =
     seqE (exec E TargetDb (SetSessionReplicationRole RoleReplica))
       (finallyE
          (seqE (exec E TargetDb (TruncateCascade collectionName))
             (seqE (logMigration E migrationId collectionName ''info'' ''Table truncated'')
                (seqE (resetSequences E TargetDb collectionName)
                   (logMigration E migrationId collectionName ''info'' ''Sequences reset''))))
          (exec E TargetDb (SetSessionReplicationRole RoleDefault)))"

definition schemaCase :: "env \<Rightarrow> string \<Rightarrow> string \<Rightarrow> nat action" where
  "schemaCase E migrationId collectionName =
     bindE (migrateSchema E collectionName
              (\<lambda>msg. unawaited (logMigration E migrationId collectionName ''info'' msg)))
       (\<lambda>schemaChanges.
          seqE (if tableCreated schemaChanges
                then logMigration E migrationId collectionName ''info''
                       ''Table created successfully''
                else returnE ())
            (seqE (if length (columnsAdded schemaChanges) > 0
                   then logMigration E migrationId collectionName ''info''
                          (''Added columns: '' @ js_join '', '' (columnsAdded schemaChanges))
                   else returnE ())
               (seqE (if length (errors schemaChanges) > 0
                      then logMigration E migrationId collectionName ''warning''
                             (''Errors: '' @ js_join ''; ''
                                (map (\<lambda>e. case e of TableError t m \<Rightarrow> m
                                                     | ColumnError c m \<Rightarrow> m)
                                     (errors schemaChanges)))
                      else returnE ())
                  (returnE (length (columnsAdded schemaChanges))))))"

definition overwriteCase ::
  "env \<Rightarrow> string \<Rightarrow> string \<Rightarrow> string list \<Rightarrow> string list \<Rightarrow> nat action" where
  "overwriteCase E migrationId collectionName jsonColumns arrayColumns =
     bindE (query E TargetDb (HasTable collectionName)
              (\<lambda>h. db_has_table E h TargetDb collectionName))
       (\<lambda>targetTableExists.
          seqE (if \<not> targetTableExists then
                  seqE (logMigration E migrationId collectionName ''info''
                          ''Target table does not exist, creating...'')
                    (bindE (migrateSchema E collectionName
                              (\<lambda>msg. unawaited
                                        (logMigration E migrationId collectionName ''info'' msg)))
                       (\<lambda>changes. returnE ()))
                else returnE ())
            (bindE (tableHasData E TargetDb collectionName)
               (\<lambda>hasData.
                  seqE (if hasData then truncateTarget E migrationId collectionName
                        else logMigration E migrationId collectionName ''info''
                               ''Table is empty, skipping truncate'')
                    (bindE (migrateData E collectionName jsonColumns arrayColumns)
                       (\<lambda>rowsMigrated.
                          seqE (resetSequences E TargetDb collectionName)
                            (seqE (copyConstraints E collectionName)
                               (seqE (logMigration E migrationId collectionName ''info''
                                        (''Overwrite complete: '' @ show_nat rowsMigrated
                                           @ '' rows migrated''))
                                  (returnE rowsMigrated))))))))"

text \<open>
  The \<^verbatim>\<open>switch (rule)\<close>; it has no \<^verbatim>\<open>default\<close>, and \<^verbatim>\<open>rowsMigrated\<close> starts at 0.
\<close>

definition dispatchRule ::
  "env \<Rightarrow> string \<Rightarrow> string \<Rightarrow> string option \<Rightarrow> string list \<Rightarrow> string list \<Rightarrow> nat action" where
  "dispatchRule E migrationId collectionName r jsonColumns arrayColumns =
     (if r = Some ''schema'' then schemaCase E migrationId collectionName
      else if r = Some ''overwrite''
        then overwriteCase E migrationId collectionName jsonColumns arrayColumns
      else if r = Some ''upsert'' then
        bindE (upsertData E collectionName jsonColumns arrayColumns)
          (\<lambda>rowsMigrated.
             seqE (logMigration E migrationId collectionName ''info''
                     (''Upsert complete: '' @ show_nat rowsMigrated @ '' rows''))
               (returnE rowsMigrated))
      else if r = Some ''ignore'' then
        bindE (insertIgnoreData E collectionName jsonColumns arrayColumns)
          (\<lambda>rowsMigrated.
             seqE (logMigration E migrationId collectionName ''info''
                     (''Insert ignore complete: '' @ show_nat rowsMigrated @ '' rows''))
               (returnE rowsMigrated))
      else returnE 0)"

text \<open>The body of the \<^verbatim>\<open>try\<close> inside the loop over the collections, up to the switch.\<close>

definition migrateCollectionBody ::
  "env \<Rightarrow> string \<Rightarrow> string \<Rightarrow> string option \<Rightarrow> nat action" where
  "migrateCollectionBody E migrationId collectionName r =
     seqE (logMigration E migrationId collectionName ''info''
             (''Starting migration with rule: '' @ show_rule r))
       (bindE (getTableColumns E SourceDb collectionName)
          (\<lambda>cols.
             let jsonColumns = getJsonColumns cols;
                 arrayColumns = getArrayColumns cols
             in seqE (logger_write Info
                        (''Table '' @ collectionName @ '' - JSON columns: ''
                           @ (if js_join '', '' jsonColumns = [] then ''none''
                              else js_join '', '' jsonColumns)))
                  (seqE (logger_write Info
                           (''Table '' @ collectionName @ '' - Array columns: ''
                              @ (if js_join '', '' arrayColumns = [] then ''none''
                                 else js_join '', '' arrayColumns)))
                     (dispatchRule E migrationId collectionName r jsonColumns arrayColumns))))"

text \<open>
  One turn of the loop over the collections: the \<^verbatim>\<open>try\<close> pushes a success entry, the
  \<^verbatim>\<open>catch\<close> logs and pushes a failed entry.  \<open>results\<close> is the array built so far.
\<close>

definition migrateCollection ::
  "env \<Rightarrow> string \<Rightarrow> string option \<Rightarrow> collection_task \<Rightarrow> table_result list
     \<Rightarrow> table_result list action" where
  "migrateCollection E migrationId globalRule c results =
     (let collectionName = coll_name c;
          r = rule_or (coll_rule c) globalRule
      in seqE (logger_write Info
                 (''Processing collection: '' @ collectionName @ '' with rule: '' @ show_rule r))
           (catchE
              (bindE (migrateCollectionBody E migrationId collectionName r)
                 (\<lambda>n. returnE
                         (results @ [\<lparr>collection = collectionName, rule = r,
                                       rowsMigrated = Some n, status = ''success'',
                                       error = None\<rparr>])))
              (\<lambda>err.
                 seqE (logger_write Error (''Error migrating '' @ collectionName @ '':''))
                   (seqE (logMigration E migrationId collectionName ''error''
                            (''Migration failed: '' @ err))
                      (returnE
                         (results @ [\<lparr>collection = collectionName, rule = r,
                                       rowsMigrated = None, status = ''failed'',
                                       error = Some err\<rparr>]))))))"

text \<open>
  \<^verbatim>\<open>executeMigration\<close>.  The two knex handles are created, without any call on a
  database, once both connection records are found; the \<^verbatim>\<open>finally\<close> destroys the
  handles that exist.
\<close>

definition openHandles :: "unit action" where
  "openHandles = (\<lambda>s. (Inr (), s\<lparr>sourceDb := True, targetDb := True\<rparr>))"

definition destroyHandles :: "env \<Rightarrow> unit action" where
  "destroyHandles E =
     (\<lambda>s. seqE (if sourceDb s then exec E SourceDb Destroy else returnE ())
                (if targetDb s then exec E TargetDb Destroy else returnE ()) s)"

definition executeMigration ::
  "env \<Rightarrow> string \<Rightarrow> string \<Rightarrow> string \<Rightarrow> string option \<Rightarrow> collection_task list
     \<Rightarrow> unit action" where
  "executeMigration E migrationId sourceConnId targetConnId globalRule collections =
     finallyE
       (catchE
          (bindE (query E AppDb (FindConnection sourceConnId) (\<lambda>h. connections E sourceConnId))
             (\<lambda>sourceConn.
                bindE (query E AppDb (FindConnection targetConnId)
                         (\<lambda>h. connections E targetConnId))
                  (\<lambda>targetConn.
                     if sourceConn = None \<or> targetConn = None
                     then throwE ''Source or target connection not found''
                     else
                       seqE openHandles
                         (bindE (forE collections (migrateCollection E migrationId globalRule)
                                   [])
                            (\<lambda>results.
                               seqE (exec E AppDb
                                       (UpdateMigration migrationId ''completed''
                                          (Some results) None))
                                 (logger_write Info
                                    (''Migration '' @ migrationId @ '' completed'')))))))
          (\<lambda>err.
             seqE (logger_write Error (''Migration '' @ migrationId @ '' failed:''))
               (exec E AppDb (UpdateMigration migrationId ''failed'' None (Some err)))))
       (destroyHandles E)"

text \<open>
  The state in which the route starts \<^verbatim>\<open>executeMigration\<close>: the job record was inserted
  with status \<^verbatim>\<open>running\<close>, nothing else has happened.
\<close>

definition initial_state :: state where
  "initial_state =
     \<lparr>hist = [], session_role = RoleDefault, logger = [], migration_logs = [],
      job = \<lparr>job_status = ''running'', job_result = None, job_error = None\<rparr>,
      sourceDb = False, targetDb = False\<rparr>"

section \<open>Example data\<close>

text \<open>
  A stand-in for \<^verbatim>\<open>JSON.parse\<close> on the examples below, where no JSON column holds a
  string other than \<^verbatim>\<open>null\<close>, and the columns of a table with a serial key, a JSON
  column and a text array.
\<close>

definition parses_null_only :: "string \<Rightarrow> bool" where
  "parses_null_only s = (s = ''null'')"

definition example_columns :: "column list" where
  "example_columns =
     [\<lparr>column_name = ''id'', data_type = ''integer'', udt_name = ''int4'', is_nullable = ''NO'',
        character_maximum_length = None, numeric_precision = Some 32, numeric_scale = Some 0,
        column_default = Some (''nextval('' @ [squote] @ ''t_id_seq'' @ [squote]
                                @ ''::regclass)'')\<rparr>,
      \<lparr>column_name = ''data'', data_type = ''jsonb'', udt_name = ''jsonb'', is_nullable = ''YES'',
        character_maximum_length = None, numeric_precision = None, numeric_scale = None,
        column_default = None\<rparr>,
      \<lparr>column_name = ''tags'', data_type = ''ARRAY'', udt_name = ''_text'', is_nullable = ''YES'',
        character_maximum_length = None, numeric_precision = None, numeric_scale = None,
        column_default = None\<rparr>]"

section \<open>What a run did\<close>

text \<open>
  The statements are grouped by what they do to the target: reads of the catalog and of
  the data, the queries of the sequence reset, the statements that change the schema,
  and the statements that write rows.
\<close>

datatype stmt_kind =
    KRead | KSeqQuery | KLog | KJob | KSetRole | KTruncate | KSeqReset | KBatchInsert
  | KRowInsert | KUpsert | KSchema | KAddColumn | KDestroy

fun kind_of :: "stmt \<Rightarrow> stmt_kind" where
  "kind_of (FindConnection i) = KRead"
| "kind_of (InsertMigrationLog m c l msg) = KLog"
| "kind_of (UpdateMigration m st res err) = KJob"
| "kind_of (SelectColumns t) = KRead"
| "kind_of (SelectColumnsDetailed t) = KRead"
| "kind_of (SelectSerialColumns t) = KSeqQuery"
| "kind_of (SelectMax t c) = KSeqQuery"
| "kind_of (SetVal n v) = KSeqReset"
| "kind_of (CountRows t) = KRead"
| "kind_of (SelectUniqueConstraints t) = KRead"
| "kind_of (AddUniqueConstraint t n cs) = KSchema"
| "kind_of (HasTable t) = KRead"
| "kind_of (SetSessionReplicationRole r) = KSetRole"
| "kind_of (TruncateCascade t) = KTruncate"
| "kind_of (SelectSequences t) = KRead"
| "kind_of (SequenceExistsPublic n) = KRead"
| "kind_of (SequenceExists n) = KRead"
| "kind_of (CreateSequenceIfNotExists n i m st) = KSchema"
| "kind_of (CreateSequence n) = KSchema"
| "kind_of (TableExists t) = KRead"
| "kind_of (CreateTable t sql) = KSchema"
| "kind_of (SetColumnDefaultNextval t c n) = KSchema"
| "kind_of (AlterSequenceOwnedBy n t c) = KSchema"
| "kind_of (AddPrimaryKey t n cs) = KSchema"
| "kind_of (AddColumn t c sql) = KAddColumn"
| "kind_of (SelectIndexes t) = KRead"
| "kind_of (SelectIndexNames t) = KRead"
| "kind_of (CreateIndex d) = KSchema"
| "kind_of (SelectBatch t l off) = KRead"
| "kind_of (SelectAll t) = KRead"
| "kind_of (InsertBatch t rs) = KBatchInsert"
| "kind_of (InsertRow t r) = KRowInsert"
| "kind_of (InsertOnConflictMerge t k r) = KUpsert"
| "kind_of (SelectPrimaryKey t) = KRead"
| "kind_of Destroy = KDestroy"

text \<open>
  The calls an action makes when started in a state, the most recent first; the reads of
  the source by \<^verbatim>\<open>LIMIT\<close> and \<^verbatim>\<open>OFFSET\<close> among given calls, in the order they were
  made, as triples of table, limit and offset; the calls that added a column to the
  target; and the calls that write or delete rows.
\<close>

definition events_during :: "'a action \<Rightarrow> state \<Rightarrow> event list" where
  "events_during m s = take (length (hist (snd (m s))) - length (hist s)) (hist (snd (m s)))"

fun fetch_of :: "stmt \<Rightarrow> (string \<times> nat \<times> nat) list" where
  "fetch_of (SelectBatch t lim off) = [(t, lim, off)]"
| "fetch_of q = []"

definition fetches :: "event list \<Rightarrow> (string \<times> nat \<times> nat) list" where
  "fetches evs =
     concat (map (\<lambda>e. if ev_conn e = SourceDb then fetch_of (ev_stmt e) else []) (rev evs))"

definition column_added :: "event \<Rightarrow> bool" where
  "column_added e = (ev_conn e = TargetDb \<and> kind_of (ev_stmt e) = KAddColumn \<and> ev_ok e)"

definition moves_rows :: "event \<Rightarrow> bool" where
  "moves_rows e = (kind_of (ev_stmt e) \<in> {KTruncate, KBatchInsert, KRowInsert, KUpsert})"

text \<open>
  Where the replication role may be \<^verbatim>\<open>replica\<close>.  Over a whole job: a call on the target
  made under \<^verbatim>\<open>replica\<close> is a \<^verbatim>\<open>SET\<close> of the role, the truncate, a statement of the
  sequence reset, a batch insert or a row insert, and every truncate and batch insert is
  made under \<^verbatim>\<open>replica\<close>.  Within the truncate block and within the copy of the
  overwrite rule, the calls on the target are listed exactly.
\<close>

definition replica_scoped :: "event \<Rightarrow> bool" where
  "replica_scoped e =
     (ev_conn e = TargetDb \<longrightarrow>
        (ev_role e = RoleReplica \<longrightarrow>
           kind_of (ev_stmt e) \<in> {KSetRole, KTruncate, KSeqQuery, KSeqReset, KBatchInsert,
                                    KRowInsert})
        \<and> (kind_of (ev_stmt e) \<in> {KTruncate, KBatchInsert} \<longrightarrow> ev_role e = RoleReplica))"

definition truncate_block_event :: "event \<Rightarrow> bool" where
  "truncate_block_event e =
     (ev_conn e = AppDb
      \<or> ev_conn e = TargetDb
          \<and> (kind_of (ev_stmt e) = KSetRole
              \<or> kind_of (ev_stmt e) \<in> {KTruncate, KSeqQuery, KSeqReset}
                  \<and> ev_role e = RoleReplica))"

definition data_block_event :: "event \<Rightarrow> bool" where
  "data_block_event e =
     (ev_conn e = SourceDb \<or> ev_conn e = AppDb
      \<or> kind_of (ev_stmt e) = KSetRole
      \<or> kind_of (ev_stmt e) \<in> {KBatchInsert, KRowInsert} \<and> ev_role e = RoleReplica)"

text \<open>
  The entry of the job result for a task, from the outcome of the task's
  \<^verbatim>\<open>try\<close> block, and the two shapes an entry has.
\<close>

definition entry_for :: "string option \<Rightarrow> collection_task \<Rightarrow> (string + nat) \<Rightarrow> table_result" where
  "entry_for g c outcome =
     (case outcome of
        Inr n \<Rightarrow> \<lparr>collection = coll_name c, rule = rule_or (coll_rule c) g,
                    rowsMigrated = Some n, status = ''success'', error = None\<rparr>
      | Inl msg \<Rightarrow> \<lparr>collection = coll_name c, rule = rule_or (coll_rule c) g,
                      rowsMigrated = None, status = ''failed'', error = Some msg\<rparr>)"

definition entry_ok :: "table_result \<Rightarrow> bool" where
  "entry_ok e = (status e = ''success'' \<and> rowsMigrated e \<noteq> None \<and> error e = None
                 \<or> status e = ''failed'' \<and> rowsMigrated e = None \<and> error e \<noteq> None)"

text \<open>
  The job result, entry by entry.  \<open>task_outcome\<close> is the outcome of the \<^verbatim>\<open>try\<close> block of
  a task when the loop reaches the task in state \<open>s\<close>: the count it returns or the
  message of the exception it throws.  \<open>after_task\<close> is the state in which the loop goes
  on.  \<open>job_entries\<close> lists, for the tasks in their order, the entry of each task's
  outcome, and \<open>loop_start\<close> is the state in which the loop over the tasks starts: after
  the two lookups of the connection records and the creation of the handles.
\<close>

definition task_outcome ::
  "env \<Rightarrow> string \<Rightarrow> string option \<Rightarrow> collection_task \<Rightarrow> state \<Rightarrow> string + nat" where
  "task_outcome E mid g c s =
     fst (migrateCollectionBody E mid (coll_name c) (rule_or (coll_rule c) g)
            (snd (logger_write Info
                    (''Processing collection: '' @ coll_name c @ '' with rule: ''
                       @ show_rule (rule_or (coll_rule c) g)) s)))"

definition after_task ::
  "env \<Rightarrow> string \<Rightarrow> string option \<Rightarrow> collection_task \<Rightarrow> state \<Rightarrow> state" where
  "after_task E mid g c s = snd (migrateCollection E mid g c [] s)"

fun job_entries ::
  "env \<Rightarrow> string \<Rightarrow> string option \<Rightarrow> collection_task list \<Rightarrow> state \<Rightarrow> table_result list" where
  "job_entries E mid g [] s = []"
| "job_entries E mid g (c # cs) s =
     entry_for g c (task_outcome E mid g c s) # job_entries E mid g cs (after_task E mid g c s)"

definition loop_start :: "env \<Rightarrow> string \<Rightarrow> string \<Rightarrow> state \<Rightarrow> state" where
  "loop_start E sid tid s =
     snd (openHandles
            (snd (query E AppDb (FindConnection tid) (\<lambda>h. connections E tid)
                    (snd (query E AppDb (FindConnection sid) (\<lambda>h. connections E sid) s)))))"

text \<open>
  An action that, from every state, returns a value with \<open>P\<close>.
\<close>

definition returns :: "'a action \<Rightarrow> ('a \<Rightarrow> bool) \<Rightarrow> bool" where
  "returns m P = (\<forall>s. \<exists>x s'. m s = (Inr x, s') \<and> P x)"

section \<open>Assertions on actions\<close>

text \<open>
  A triple for an action that may throw: from a state with \<open>P\<close>, a normal end with
  value \<open>x\<close> is in a state with \<open>Q x\<close> and an exception \<open>msg\<close> is raised in a state with
  \<open>R msg\<close>.  \<open>keeps\<close> is the triple of an invariant, \<open>never_throws\<close> that of an
  invariant kept by an action that always ends normally, and \<open>yields\<close> constrains the
  value of a normal end.
\<close>

definition hoareE ::
  "(state \<Rightarrow> bool) \<Rightarrow> 'a action \<Rightarrow> ('a \<Rightarrow> state \<Rightarrow> bool) \<Rightarrow> (string \<Rightarrow> state \<Rightarrow> bool) \<Rightarrow> bool" where
  "hoareE P m Q R =
     (\<forall>s. P s \<longrightarrow> (case m s of (Inl msg, s') \<Rightarrow> R msg s' | (Inr x, s') \<Rightarrow> Q x s'))"

definition keeps :: "(state \<Rightarrow> bool) \<Rightarrow> 'a action \<Rightarrow> bool" where
  "keeps I m = hoareE I m (\<lambda>x. I) (\<lambda>msg. I)"

definition never_throws :: "(state \<Rightarrow> bool) \<Rightarrow> 'a action \<Rightarrow> bool" where
  "never_throws I m = hoareE I m (\<lambda>x. I) (\<lambda>msg s. False)"

definition yields :: "('a \<Rightarrow> bool) \<Rightarrow> 'a action \<Rightarrow> bool" where
  "yields P m = (\<forall>s x s'. m s = (Inr x, s') \<longrightarrow> P x)"

text \<open>
  Invariants on the history since a given point \<open>h0\<close>: the role is \<open>r\<close> and every call
  since then was made under \<open>r\<close> with a connection and kind from \<open>S\<close> (\<open>since\<close>) or
  satisfies \<open>G\<close> (\<open>trace\<close>); the reads of the source since then are \<open>F\<close>; exactly
  \<open>n\<close> calls since then added a column and none wrote rows.
\<close>

definition since :: "event list \<Rightarrow> role \<Rightarrow> (conn \<times> stmt_kind) set \<Rightarrow> state \<Rightarrow> bool" where
  "since h0 r S s =
     (session_role s = r \<and>
      (\<exists>new. hist s = new @ h0 \<and>
         list_all (\<lambda>e. (ev_conn e, kind_of (ev_stmt e)) \<in> S \<and> ev_role e = r) new))"

definition trace :: "event list \<Rightarrow> role \<Rightarrow> (event \<Rightarrow> bool) \<Rightarrow> state \<Rightarrow> bool" where
  "trace h0 r G s = (session_role s = r \<and> (\<exists>new. hist s = new @ h0 \<and> list_all G new))"

definition fetched :: "event list \<Rightarrow> (string \<times> nat \<times> nat) list \<Rightarrow> state \<Rightarrow> bool" where
  "fetched h0 F s = (\<exists>new. hist s = new @ h0 \<and> fetches new = F)"

definition added :: "event list \<Rightarrow> nat \<Rightarrow> state \<Rightarrow> bool" where
  "added h0 n s =
     (\<exists>new. hist s = new @ h0 \<and> length (filter column_added new) = n
        \<and> list_all (\<lambda>e. \<not> moves_rows e) new)"

definition default_kinds :: "(conn \<times> stmt_kind) set" where
  "default_kinds = {(c, k). \<not> (c = TargetDb \<and> k \<in> {KSetRole, KTruncate, KBatchInsert})}"

definition schema_kinds :: "(conn \<times> stmt_kind) set" where
  "schema_kinds = {(AppDb, KLog), (SourceDb, KRead), (TargetDb, KRead), (TargetDb, KSchema)}"

text \<open>
  Two conditions on the environment.  Setting the replication role does not fail.  And
  \<^verbatim>\<open>JSON.stringify\<close> accepts every prepared row: the error entry for a row that the
  fallback could not insert calls it outside any \<^verbatim>\<open>try\<close>.  The values that the
  driver's default type parsers deliver are all accepted; a \<^verbatim>\<open>BigInt\<close> is not.
\<close>

definition no_set_fault :: "env \<Rightarrow> bool" where
  "no_set_fault E = (\<forall>h r. fault E h TargetDb (SetSessionReplicationRole r) = None)"

definition rows_serializable :: "env \<Rightarrow> bool" where
  "rows_serializable E =
     (\<forall>t jc ac. \<forall>r \<in> set (source_rows E t).
        json_stringify (JObj (fst (prepareRowForInsert (json_parses E) r jc ac))) \<noteq> None)"

section \<open>Example environments\<close>

text \<open>
  An environment in which nothing fails, with a source table \<^verbatim>\<open>t\<close> of two rows and
  targets without columns; the same with 501 rows; one whose target rejects every batch
  insert and the second row; one whose source table has a two-column primary key; and
  a list of three tasks.
\<close>

definition some_connection :: connection where
  "some_connection = \<lparr>host = ''db'', port = 5432, database = ''app'', username = ''u'',
     password = ''p'', ssl = False, reject_unauthorized = False\<rparr>"

definition quiet_env :: env where
  "quiet_env =
     \<lparr>fault = (\<lambda>h c q. None),
      json_parses = parses_null_only,
      connections = (\<lambda>i. Some some_connection),
      source_rows = (\<lambda>t. if t = ''t'' then [[(''id'', JNum 1)], [(''id'', JNum 2)]] else []),
      db_columns = (\<lambda>h c t. if c = SourceDb then example_columns else []),
      db_serial_columns = (\<lambda>h c t. [(''id'', Some ''public.t_id_seq'')]),
      db_column_max = (\<lambda>h c t col. MaxNum 2),
      db_row_count = (\<lambda>h c t. 2),
      db_unique_constraints = (\<lambda>h c t. []),
      db_has_table = (\<lambda>h c t. True),
      db_sequences = (\<lambda>h c t. []),
      db_sequence_exists = (\<lambda>h c t. True),
      db_indexes = (\<lambda>h c t. []),
      db_primary_key = (\<lambda>h c t. [''id''])\<rparr>"

definition rows_501 :: "row list" where
  "rows_501 = map (\<lambda>i. [(''id'', JNum (int i))]) [0..<501]"

definition big_env :: env where
  "big_env = quiet_env\<lparr>source_rows := (\<lambda>t. rows_501), db_row_count := (\<lambda>h c t. 501)\<rparr>"

definition rejecting_fault :: "event list \<Rightarrow> conn \<Rightarrow> stmt \<Rightarrow> string option" where
  "rejecting_fault h c q =
     (if c = TargetDb then
        (case q of
           InsertBatch t rs \<Rightarrow> Some ''duplicate key value violates unique constraint''
         | InsertRow t r \<Rightarrow> if r = [(''id'', JNum 2)]
                             then Some ''duplicate key value violates unique constraint''
                             else None
         | _ \<Rightarrow> None)
      else None)"

definition rejecting_env :: env where
  "rejecting_env = quiet_env\<lparr>fault := rejecting_fault\<rparr>"

definition composite_key_env :: env where
  "composite_key_env =
     quiet_env\<lparr>source_rows := (\<lambda>t. [[(''tenant'', JNum 1), (''id'', JNum 7),
                                        (''name'', JStr ''a'')]]),
                db_primary_key := (\<lambda>h c t. [''tenant'', ''id''])\<rparr>"

definition example_tasks :: "collection_task list" where
  "example_tasks = [\<lparr>coll_name = ''t'', coll_rule = None\<rparr>,
                    \<lparr>coll_name = ''u'', coll_rule = Some ''bogus''\<rparr>,
                    \<lparr>coll_name = ''v'', coll_rule = Some ''schema''\<rparr>]"

text \<open>
  An environment in which the column query on the source table \<^verbatim>\<open>u\<close> fails, and three
  tasks without a rule of their own.
\<close>

definition denied_fault :: "event list \<Rightarrow> conn \<Rightarrow> stmt \<Rightarrow> string option" where
  "denied_fault h c q =
     (if c = SourceDb \<and> q = SelectColumns ''u'' then Some ''permission denied for table u''
      else None)"

definition denied_env :: env where
  "denied_env = quiet_env\<lparr>fault := denied_fault\<rparr>"

definition plain_tasks :: "collection_task list" where
  "plain_tasks = [\<lparr>coll_name = ''t'', coll_rule = None\<rparr>,
                  \<lparr>coll_name = ''u'', coll_rule = None\<rparr>,
                  \<lparr>coll_name = ''v'', coll_rule = None\<rparr>]"





section \<open>Properties of the type preparer and of the catalog functions\<close>

text \<open>
  C9.  A column name is in the JSON list exactly when some column of that name has
  \<^verbatim>\<open>data_type\<close> or \<^verbatim>\<open>udt_name\<close> equal to \<^verbatim>\<open>json\<close> or \<^verbatim>\<open>jsonb\<close>, and in the ARRAY
  list exactly when some column of that name has \<^verbatim>\<open>data_type\<close> \<^verbatim>\<open>ARRAY\<close> or a
  \<^verbatim>\<open>udt_name\<close> whose first character is an underscore.
\<close>

theorem classify_columns_exact:
  "(n \<in> set (getJsonColumns cols) \<longleftrightarrow>
      (\<exists>c \<in> set cols. column_name c = n \<and>
         (data_type c = ''json'' \<or> data_type c = ''jsonb'' \<or>
          udt_name c = ''json'' \<or> udt_name c = ''jsonb'')))
   \<and> (n \<in> set (getArrayColumns cols) \<longleftrightarrow>
      (\<exists>c \<in> set cols. column_name c = n \<and>
         (data_type c = ''ARRAY'' \<or> (udt_name c \<noteq> [] \<and> hd (udt_name c) = CHR ''_''))))"
proof -
  have sw: "startsWith u ''_'' \<longleftrightarrow> (u \<noteq> [] \<and> hd u = CHR ''_'')" for u
    by (cases u) (simp_all add: startsWith_def)
  show ?thesis
    by (auto simp: getJsonColumns_def getArrayColumns_def sw)
qed

theorem classify_columns_exact_witness:
  "getJsonColumns example_columns = [''data''] \<and> getArrayColumns example_columns = [''tags'']
   \<and> ''data'' \<in> set (getJsonColumns example_columns)
   \<and> ''tags'' \<in> set (getArrayColumns example_columns)
   \<and> ''id'' \<notin> set (getArrayColumns example_columns)"
  using classify_columns_exact [of "''data''" example_columns]
        classify_columns_exact [of "''tags''" example_columns]
        classify_columns_exact [of "''id''" example_columns]
  by (simp add: example_columns_def getJsonColumns_def getArrayColumns_def startsWith_def)

text \<open>
  C7.  The type mapping reads \<^verbatim>\<open>numeric_scale || 2\<close>, and \<^verbatim>\<open>0\<close> is falsy: a column
  declared \<^verbatim>\<open>numeric(5,0)\<close>, whose catalog scale is present and equal to 0, is emitted
  as \<^verbatim>\<open>numeric(5,2)\<close>.
\<close>

theorem numeric_scale_zero_defaulted:
  "columnToSqlType \<lparr>column_name = ''qty'', data_type = ''numeric'', udt_name = ''numeric'',
      is_nullable = ''NO'', character_maximum_length = None, numeric_precision = Some 5,
      numeric_scale = Some 0, column_default = None\<rparr> = ''numeric(5,2)''"
  by (simp add: columnToSqlType_def num_or_def show_int_def show_nat.simps)

text \<open>
  C3, as stated: when serialization fails the prepared row carries null.  On a JSON
  column it carries the text \<^verbatim>\<open>{}\<close> instead.
\<close>

theorem json_column_failure_counterexample:
  "\<not> (json_stringify (JObj [(''a'', JBigInt 1)]) = None \<longrightarrow>
        fst (prepareRowForInsert parses_null_only [(''data'', JObj [(''a'', JBigInt 1)])]
               [''data''] []) = [(''data'', JNull)])"
  by (simp add: prepareRowForInsert_def prepareValue_def set_property_def)

lemma stringify_fails_not_date:
  "json_stringify v = None \<Longrightarrow> \<not> instanceofDate v \<and> v \<noteq> JNull \<and> v \<noteq> JUndefined"
  by (cases v) auto

lemma assign_fresh: "key \<notin> fst ` set obj \<Longrightarrow> assign key v obj = obj @ [(key, v)]"
  by (induction obj) auto

lemma foldl_set_property:
  "distinct (map fst acc @ map fst r) \<Longrightarrow> ''__proto__'' \<notin> fst ` set r \<Longrightarrow>
   foldl (\<lambda>prepared (key, v). set_property prepared key (f key v)) acc r
     = acc @ map (\<lambda>(key, v). (key, f key v)) r"
proof (induction r arbitrary: acc)
  case Nil
  show ?case by simp
next
  case (Cons kv r)
  obtain key v where kv: "kv = (key, v)" by (cases kv)
  have fresh: "key \<notin> fst ` set acc" and np: "key \<noteq> ''__proto__''"
    using Cons.prems kv by auto
  have step: "set_property acc key (f key v) = acc @ [(key, f key v)]"
    using np by (simp add: set_property_def assign_fresh [OF fresh])
  have "distinct (map fst (acc @ [(key, f key v)]) @ map fst r)"
    using Cons.prems(1) kv by auto
  moreover have "''__proto__'' \<notin> fst ` set r"
    using Cons.prems(2) by auto
  ultimately have "foldl (\<lambda>prepared (key, v). set_property prepared key (f key v))
                     (acc @ [(key, f key v)]) r
                   = (acc @ [(key, f key v)]) @ map (\<lambda>(key, v). (key, f key v)) r"
    by (rule Cons.IH)
  then show ?case by (simp add: kv step)
qed

lemma prepared_columns:
  assumes "distinct (map fst r)" and "''__proto__'' \<notin> fst ` set r"
  shows "fst (prepareRowForInsert parses r jc ac)
           = map (\<lambda>(key, v). (key, fst (prepareValue parses jc ac key v))) r"
  using foldl_set_property [of "[]" r "\<lambda>key v. fst (prepareValue parses jc ac key v)"] assms
  by (simp add: prepareRowForInsert_def)

text \<open>
  C3, amended.  Take a row with no column named \<^verbatim>\<open>__proto__\<close> (the keys of a row are
  distinct).  When \<^verbatim>\<open>JSON.stringify\<close> throws on the value of a column, the prepared
  row keeps every column of the row in place, holds the text \<^verbatim>\<open>{}\<close> for that column
  when it is a JSON column and null when it is neither a JSON nor an ARRAY column, and
  the failure is written to the logger.
\<close>

theorem serialization_failure_substitutes:
  assumes "distinct (map fst r)" and "''__proto__'' \<notin> fst ` set r"
    and "i < length r" and "r ! i = (k, v)"
    and "typeof v = ''object''" and "json_stringify v = None"
  shows "map fst (fst (prepareRowForInsert parses r jc ac)) = map fst r
     \<and> (k \<in> set jc \<longrightarrow>
          fst (prepareRowForInsert parses r jc ac) ! i = (k, JStr ''{}'')
          \<and> (Error, ''Failed to stringify JSON column '' @ k @ '':'')
              \<in> set (snd (prepareRowForInsert parses r jc ac)))
     \<and> (k \<notin> set jc \<and> k \<notin> set ac \<longrightarrow>
          fst (prepareRowForInsert parses r jc ac) ! i = (k, JNull)
          \<and> (Error, ''Failed to stringify object in column '' @ k @ '':'')
              \<in> set (snd (prepareRowForInsert parses r jc ac)))"
proof -
  note cols = prepared_columns [OF assms(1,2), of parses jc ac]
  have keys: "map fst (fst (prepareRowForInsert parses r jc ac)) = map fst r"
    by (simp add: cols case_prod_beta comp_def)
  have mem: "(k, v) \<in> set r"
    using assms(3,4) by (metis nth_mem)
  have nd: "\<not> instanceofDate v" "v \<noteq> JNull" "v \<noteq> JUndefined"
    using stringify_fails_not_date [OF assms(6)] by simp_all
  have at: "fst (prepareRowForInsert parses r jc ac) ! i = (k, fst (prepareValue parses jc ac k v))"
    using assms(3,4) by (simp add: cols)
  have logs: "set (snd (prepareValue parses jc ac k v))
                \<subseteq> set (snd (prepareRowForInsert parses r jc ac))"
    using mem by (force simp: prepareRowForInsert_def)
  have j: "k \<in> set jc \<Longrightarrow> prepareValue parses jc ac k v
             = (JStr ''{}'', [(Error, ''Failed to stringify JSON column '' @ k @ '':'')])"
    using assms(5,6) nd by (simp add: prepareValue_def)
  have o: "k \<notin> set jc \<Longrightarrow> k \<notin> set ac \<Longrightarrow> prepareValue parses jc ac k v
             = (JNull, [(Error, ''Failed to stringify object in column '' @ k @ '':'')])"
    using assms(5,6) nd by (simp add: prepareValue_def)
  show ?thesis
    using keys at logs j o by auto
qed

text \<open>
  An instance: a row with a JSON column and another column, both holding a value that
  \<^verbatim>\<open>JSON.stringify\<close> refuses.
\<close>

theorem serialization_failure_substitutes_witness:
  "distinct (map fst [(''data'', JObj [(''a'', JBigInt 1)]), (''extra'', JArr [JBigInt 2])])
   \<and> ''__proto__'' \<notin> fst ` set [(''data'', JObj [(''a'', JBigInt 1)]),
                                     (''extra'', JArr [JBigInt 2])]
   \<and> json_stringify (JObj [(''a'', JBigInt 1)]) = None
   \<and> json_stringify (JArr [JBigInt 2]) = None
   \<and> fst (prepareRowForInsert parses_null_only
          [(''data'', JObj [(''a'', JBigInt 1)]), (''extra'', JArr [JBigInt 2])] [''data''] [])
     = [(''data'', JStr ''{}''), (''extra'', JNull)]
   \<and> set (snd (prepareRowForInsert parses_null_only
          [(''data'', JObj [(''a'', JBigInt 1)]), (''extra'', JArr [JBigInt 2])] [''data''] []))
     = {(Error, ''Failed to stringify JSON column data:''),
        (Error, ''Failed to stringify object in column extra:'')}"
proof -
  let ?r = "[(''data'', JObj [(''a'', JBigInt 1)]), (''extra'', JArr [JBigInt 2])]"
  have d: "distinct (map fst ?r)" and p: "''__proto__'' \<notin> fst ` set ?r"
    and s0: "json_stringify (JObj [(''a'', JBigInt 1)]) = None"
    and s1: "json_stringify (JArr [JBigInt 2]) = None"
    by simp_all
  have a: "map fst (fst (prepareRowForInsert parses_null_only ?r [''data''] [])) = map fst ?r"
    and b: "fst (prepareRowForInsert parses_null_only ?r [''data''] []) ! 0
              = (''data'', JStr ''{}'')"
    using serialization_failure_substitutes [OF d p, of 0 "''data''" "JObj [(''a'', JBigInt 1)]"
            parses_null_only "[''data'']" "[]"] s0
    by simp_all
  have c: "fst (prepareRowForInsert parses_null_only ?r [''data''] []) ! 1 = (''extra'', JNull)"
    using serialization_failure_substitutes [OF d p, of 1 "''extra''" "JArr [JBigInt 2]"
            parses_null_only "[''data'']" "[]"] s1
    by simp
  have len: "length (fst (prepareRowForInsert parses_null_only ?r [''data''] [])) = 2"
    using arg_cong [OF a, of length] by simp
  have rows: "fst (prepareRowForInsert parses_null_only ?r [''data''] [])
                = [(''data'', JStr ''{}''), (''extra'', JNull)]"
  proof -
    obtain x y where xy: "fst (prepareRowForInsert parses_null_only ?r [''data''] []) = [x, y]"
      using len by (auto simp: length_Suc_conv numeral_2_eq_2)
    with b c show ?thesis by simp
  qed
  have logs: "set (snd (prepareRowForInsert parses_null_only ?r [''data''] []))
     = {(Error, ''Failed to stringify JSON column data:''),
        (Error, ''Failed to stringify object in column extra:'')}"
    by (simp add: prepareRowForInsert_def prepareValue_def insert_commute)
  show ?thesis
    by (intro conjI d p s0 s1 rows logs)
qed

text \<open>
  Array literals of text elements.  The element formatter escapes double quotes only.
  For elements without a backslash the emitted literal reads back as the elements.
\<close>

lemma quoteArrayElem_JStr:
  "quoteArrayElem (JStr s) =
     dquote # concat (map (\<lambda>c. if c = dquote then [bslash, dquote] else [c]) s) @ [dquote]"
  by (simp add: quoteArrayElem_def)

lemma pg_scan_quoted_body:
  "bslash \<notin> set s \<Longrightarrow>
   pg_scan Quoted acc out
     (concat (map (\<lambda>c. if c = dquote then [bslash, dquote] else [c]) s) @ dquote # rest)
   = pg_scan AfterElem [] (rev (rev s @ acc) # out) rest"
  by (induction s arbitrary: acc) auto

lemma pg_scan_elements:
  "xs \<noteq> [] \<Longrightarrow> \<forall>x \<in> set xs. bslash \<notin> set x \<Longrightarrow>
   pg_scan Start [] out (js_join '','' (map quoteArrayElem (map JStr xs)) @ ''}'')
   = Some (rev out @ xs)"
proof (induction xs arbitrary: out)
  case Nil
  then show ?case by simp
next
  case (Cons x xs)
  show ?case
  proof (cases xs)
    case Nil
    with Cons.prems show ?thesis
      by (simp add: quoteArrayElem_JStr pg_scan_quoted_body)
  next
    case (Cons y ys)
    with Cons.prems Cons.IH [of "x # out"] show ?thesis
      by (simp add: quoteArrayElem_JStr pg_scan_quoted_body)
  qed
qed

lemma array_roundtrip_without_backslash:
  assumes "\<forall>x \<in> set xs. bslash \<notin> set x"
  shows "parse_pg_array (formatArray (map JStr xs)) = Some xs"
proof (cases xs)
  case Nil
  then show ?thesis by (simp add: parse_pg_array_def formatArray_def)
next
  case (Cons y ys)
  then have ne: "xs \<noteq> []" by simp
  have hd: "js_join '','' (map quoteArrayElem (map JStr xs)) @ ''}'' \<noteq> ''}''"
    using Cons by (cases ys) (simp_all add: quoteArrayElem_JStr)
  show ?thesis
    using pg_scan_elements [OF ne assms, of "[]"] hd
    by (simp add: parse_pg_array_def formatArray_def)
qed

text \<open>
  C4.  An element with a backslash does not come back: \<^verbatim>\<open>a\b\<close> is emitted as
  \<^verbatim>\<open>{"a\b"}\<close>, which reads as the element \<^verbatim>\<open>ab\<close>, and the one-character element
  \<^verbatim>\<open>\\<close> is emitted as \<^verbatim>\<open>{"\"}\<close>, which is not a well-formed literal.
\<close>

theorem array_backslash_not_roundtrip:
  "fst (prepareRowForInsert parses_null_only
          [(''tags'', JArr [JStr [CHR ''a'', bslash, CHR ''b'']])] [] [''tags''])
     = [(''tags'', JStr [CHR ''{'', dquote, CHR ''a'', bslash, CHR ''b'', dquote, CHR ''}''])]
   \<and> parse_pg_array [CHR ''{'', dquote, CHR ''a'', bslash, CHR ''b'', dquote, CHR ''}'']
     = Some [''ab'']
   \<and> fst (prepareRowForInsert parses_null_only [(''tags'', JArr [JStr [bslash]])] [] [''tags''])
     = [(''tags'', JStr [CHR ''{'', dquote, bslash, dquote, CHR ''}''])]
   \<and> parse_pg_array [CHR ''{'', dquote, bslash, dquote, CHR ''}''] = None"
  by (simp add: prepareRowForInsert_def prepareValue_def set_property_def formatArray_def
        quoteArrayElem_def parse_pg_array_def)

section \<open>Rules for the assertions\<close>

lemma hoareE_Inl: "hoareE P m Q R \<Longrightarrow> P s \<Longrightarrow> m s = (Inl msg, s') \<Longrightarrow> R msg s'"
  unfolding hoareE_def by (drule spec [of _ s]) simp

lemma hoareE_Inr: "hoareE P m Q R \<Longrightarrow> P s \<Longrightarrow> m s = (Inr x, s') \<Longrightarrow> Q x s'"
  unfolding hoareE_def by (drule spec [of _ s]) simp

lemma hoareE_I:
  assumes "\<And>s msg s'. P s \<Longrightarrow> m s = (Inl msg, s') \<Longrightarrow> R msg s'"
    and "\<And>s x s'. P s \<Longrightarrow> m s = (Inr x, s') \<Longrightarrow> Q x s'"
  shows "hoareE P m Q R"
  unfolding hoareE_def
proof (intro allI impI)
  fix s assume p: "P s"
  obtain r s' where ms: "m s = (r, s')" by (cases "m s")
  show "case m s of (Inl msg, s') \<Rightarrow> R msg s' | (Inr x, s') \<Rightarrow> Q x s'"
    using assms(1) [OF p] assms(2) [OF p] ms by (cases r) simp_all
qed

lemma hoareE_weaken:
  assumes "hoareE P' m Q' R'" and "\<And>s. P s \<Longrightarrow> P' s" and "\<And>x s. Q' x s \<Longrightarrow> Q x s"
    and "\<And>e s. R' e s \<Longrightarrow> R e s"
  shows "hoareE P m Q R"
proof (rule hoareE_I)
  fix s msg s' assume "P s" "m s = (Inl msg, s')"
  then show "R msg s'" using hoareE_Inl [OF assms(1)] assms(2,4) by blast
next
  fix s x s' assume "P s" "m s = (Inr x, s')"
  then show "Q x s'" using hoareE_Inr [OF assms(1)] assms(2,3) by blast
qed

lemma hoareE_return: "(\<And>s. P s \<Longrightarrow> Q x s) \<Longrightarrow> hoareE P (returnE x) Q R"
  by (rule hoareE_I) (simp_all add: returnE_def)

lemma hoareE_throw: "(\<And>s. P s \<Longrightarrow> R msg s) \<Longrightarrow> hoareE P (throwE msg) Q R"
  by (rule hoareE_I) (simp_all add: throwE_def)

lemma bindE_Inl:
  "bindE m f s = (Inl msg, s') \<Longrightarrow>
     m s = (Inl msg, s') \<or> (\<exists>x s1. m s = (Inr x, s1) \<and> f x s1 = (Inl msg, s'))"
  by (cases "m s") (auto simp: bindE_def split: sum.splits)

lemma bindE_Inr:
  "bindE m f s = (Inr y, s') \<Longrightarrow> \<exists>x s1. m s = (Inr x, s1) \<and> f x s1 = (Inr y, s')"
  by (cases "m s") (auto simp: bindE_def split: sum.splits)

lemma hoareE_bind:
  assumes "hoareE P m Q' R" and "\<And>x. hoareE (Q' x) (f x) Q R"
  shows "hoareE P (bindE m f) Q R"
proof (rule hoareE_I)
  fix s msg s' assume p: "P s" and b: "bindE m f s = (Inl msg, s')"
  from bindE_Inl [OF b] show "R msg s'"
  proof
    assume "m s = (Inl msg, s')"
    then show ?thesis using hoareE_Inl [OF assms(1) p] by simp
  next
    assume "\<exists>x s1. m s = (Inr x, s1) \<and> f x s1 = (Inl msg, s')"
    then obtain x s1 where m: "m s = (Inr x, s1)" and f: "f x s1 = (Inl msg, s')" by blast
    from hoareE_Inr [OF assms(1) p m] have "Q' x s1" .
    from hoareE_Inl [OF assms(2) this f] show ?thesis .
  qed
next
  fix s y s' assume p: "P s" and b: "bindE m f s = (Inr y, s')"
  from bindE_Inr [OF b] obtain x s1 where m: "m s = (Inr x, s1)" and f: "f x s1 = (Inr y, s')"
    by blast
  from hoareE_Inr [OF assms(1) p m] have "Q' x s1" .
  from hoareE_Inr [OF assms(2) this f] show "Q y s'" .
qed

lemma hoareE_seq:
  "hoareE P m (\<lambda>x. Q') R \<Longrightarrow> hoareE Q' n Q R \<Longrightarrow> hoareE P (seqE m n) Q R"
  unfolding seqE_def by (rule hoareE_bind)

lemma catchE_Inl:
  "catchE m h s = (Inl msg, s') \<Longrightarrow> \<exists>e s1. m s = (Inl e, s1) \<and> h e s1 = (Inl msg, s')"
  by (cases "m s") (auto simp: catchE_def split: sum.splits)

lemma catchE_Inr:
  "catchE m h s = (Inr x, s') \<Longrightarrow>
     m s = (Inr x, s') \<or> (\<exists>e s1. m s = (Inl e, s1) \<and> h e s1 = (Inr x, s'))"
  by (cases "m s") (auto simp: catchE_def split: sum.splits)

lemma hoareE_catch:
  assumes "hoareE P m Q R'" and "\<And>msg. hoareE (R' msg) (h msg) Q R"
  shows "hoareE P (catchE m h) Q R"
proof (rule hoareE_I)
  fix s msg s' assume p: "P s" and b: "catchE m h s = (Inl msg, s')"
  from catchE_Inl [OF b] obtain e s1 where m: "m s = (Inl e, s1)" and h: "h e s1 = (Inl msg, s')"
    by blast
  from hoareE_Inl [OF assms(1) p m] have "R' e s1" .
  from hoareE_Inl [OF assms(2) this h] show "R msg s'" .
next
  fix s x s' assume p: "P s" and b: "catchE m h s = (Inr x, s')"
  from catchE_Inr [OF b] show "Q x s'"
  proof
    assume "m s = (Inr x, s')"
    then show ?thesis using hoareE_Inr [OF assms(1) p] by simp
  next
    assume "\<exists>e s1. m s = (Inl e, s1) \<and> h e s1 = (Inr x, s')"
    then obtain e s1 where m: "m s = (Inl e, s1)" and h: "h e s1 = (Inr x, s')" by blast
    from hoareE_Inl [OF assms(1) p m] have "R' e s1" .
    from hoareE_Inr [OF assms(2) this h] show ?thesis .
  qed
qed

lemma finallyE_cases:
  assumes "finallyE m fin s = (r, s')"
  obtains r1 s1 msg where "m s = (r1, s1)" "fin s1 = (Inl msg, s')" "r = Inl msg"
  | s1 where "m s = (r, s1)" "fin s1 = (Inr (), s')"
proof (cases "m s")
  case (Pair r1 s1)
  show ?thesis
  proof (cases "fin s1")
    case (Pair r2 s2)
    show ?thesis
    proof (cases r2)
      case (Inl msg)
      with assms \<open>m s = (r1, s1)\<close> \<open>fin s1 = (r2, s2)\<close> show ?thesis
        by (intro that(1) [of r1 s1 msg]) (simp_all add: finallyE_def)
    next
      case (Inr u)
      with assms \<open>m s = (r1, s1)\<close> \<open>fin s1 = (r2, s2)\<close> show ?thesis
        by (intro that(2) [of s1]) (simp_all add: finallyE_def)
    qed
  qed
qed

lemma hoareE_finally:
  assumes "hoareE P m Q' R'" and "\<And>x. hoareE (Q' x) fin (\<lambda>u. Q x) R"
    and "\<And>msg. hoareE (R' msg) fin (\<lambda>u. R msg) R"
  shows "hoareE P (finallyE m fin) Q R"
proof -
  have mid: "(case r1 of Inl e \<Rightarrow> R' e s1 | Inr x \<Rightarrow> Q' x s1)" if "P s" "m s = (r1, s1)" for s r1 s1
    using that hoareE_Inl [OF assms(1)] hoareE_Inr [OF assms(1)] by (cases r1) auto
  have out: "(case r of Inl e \<Rightarrow> R e s' | Inr x \<Rightarrow> Q x s')"
    if p: "P s" and f: "finallyE m fin s = (r, s')" for s r s'
    using f
  proof (cases rule: finallyE_cases)
    case (1 r1 s1 msg)
    from mid [OF p 1(1)] 1(2,3) show ?thesis
      using hoareE_Inl [OF assms(2)] hoareE_Inl [OF assms(3)] by (cases r1) auto
  next
    case (2 s1)
    from mid [OF p 2(1)] 2(2) show ?thesis
      using hoareE_Inr [OF assms(2)] hoareE_Inr [OF assms(3)] by (cases r) auto
  qed
  show ?thesis
    by (rule hoareE_I) (use out in force)+
qed

lemma hoareE_for:
  "(\<And>x acc. x \<in> set xs \<Longrightarrow> hoareE (I acc) (f x acc) I R)
   \<Longrightarrow> hoareE (I acc0) (forE xs f acc0) I R"
proof (induction xs arbitrary: acc0)
  case Nil
  show ?case by (simp add: hoareE_return)
next
  case (Cons x xs)
  have step: "hoareE (I acc0) (f x acc0) I R"
    by (rule Cons.prems) simp
  have rest: "hoareE (I acc) (forE xs f acc) I R" for acc
    by (rule Cons.IH) (simp add: Cons.prems)
  show ?case
    using hoareE_bind [of "I acc0" "f x acc0" I R "forE xs f" I, OF step rest] by simp
qed

lemma hoareE_state:
  assumes "\<And>s0. hoareE (\<lambda>s. P s \<and> s = s0) (f s0) Q R"
  shows "hoareE P (\<lambda>s. f s s) Q R"
proof (rule hoareE_I)
  fix s msg s' assume "P s" "f s s = (Inl msg, s')"
  then show "R msg s'" using hoareE_Inl [OF assms [of s], of s msg s'] by simp
next
  fix s x s' assume "P s" "f s s = (Inr x, s')"
  then show "Q x s'" using hoareE_Inr [OF assms [of s], of s x s'] by simp
qed

lemma hoareE_if:
  "(b \<Longrightarrow> hoareE P m Q R) \<Longrightarrow> (\<not> b \<Longrightarrow> hoareE P k Q R)
   \<Longrightarrow> hoareE P (if b then m else k) Q R"
  by simp

lemma keeps_return: "keeps I (returnE x)"
  unfolding keeps_def by (rule hoareE_return)

lemma keeps_throw: "keeps I (throwE msg)"
  unfolding keeps_def by (rule hoareE_throw)

lemma keeps_bind: "keeps I m \<Longrightarrow> (\<And>x. keeps I (f x)) \<Longrightarrow> keeps I (bindE m f)"
  unfolding keeps_def by (rule hoareE_bind)

lemma keeps_seq: "keeps I m \<Longrightarrow> keeps I n \<Longrightarrow> keeps I (seqE m n)"
  unfolding keeps_def by (rule hoareE_seq)

lemma keeps_catch: "keeps I m \<Longrightarrow> (\<And>msg. keeps I (h msg)) \<Longrightarrow> keeps I (catchE m h)"
  unfolding keeps_def by (rule hoareE_catch)

lemma keeps_finally: "keeps I m \<Longrightarrow> keeps I fin \<Longrightarrow> keeps I (finallyE m fin)"
  unfolding keeps_def by (rule hoareE_finally)

lemma keeps_for: "(\<And>x acc. keeps I (f x acc)) \<Longrightarrow> keeps I (forE xs f acc0)"
  unfolding keeps_def by (rule hoareE_for [where I = "\<lambda>acc. I"])

lemma keeps_if: "(b \<Longrightarrow> keeps I m) \<Longrightarrow> (\<not> b \<Longrightarrow> keeps I n) \<Longrightarrow> keeps I (if b then m else n)"
  by simp

lemma keeps_case_option:
  "keeps I m \<Longrightarrow> (\<And>x. keeps I (f x)) \<Longrightarrow> keeps I (case v of None \<Rightarrow> m | Some x \<Rightarrow> f x)"
  by (cases v) simp_all

lemma keeps_state: "(\<And>s0. keeps I (f s0)) \<Longrightarrow> keeps I (\<lambda>s. f s s)"
  unfolding keeps_def by (rule hoareE_state) (rule hoareE_weaken, assumption, simp_all)

lemma keeps_query: "keeps I (exec E c q) \<Longrightarrow> keeps I (query E c q answer)"
  unfolding query_def by (rule keeps_state) (intro keeps_bind keeps_return)

lemma keeps_unawaited: "keeps I m \<Longrightarrow> keeps I (unawaited m)"
  unfolding unawaited_def by (intro keeps_catch keeps_return)

lemmas keeps_intros =
  keeps_return keeps_throw keeps_bind keeps_seq keeps_catch keeps_finally keeps_for keeps_if
  keeps_case_option keeps_query keeps_unawaited

(* primitive facts about since *)

lemma keeps_D:
  assumes "keeps I m" and "I s" and "m s = (r, s')"
  shows "I s'"
proof (cases r)
  case (Inl msg)
  with hoareE_Inl [OF assms(1) [unfolded keeps_def] assms(2)] assms(3) show ?thesis by simp
next
  case (Inr x)
  with hoareE_Inr [OF assms(1) [unfolded keeps_def] assms(2)] assms(3) show ?thesis by simp
qed

lemma keeps_ex: "(\<And>k. keeps (I k) m) \<Longrightarrow> keeps (\<lambda>s. \<exists>k. I k s) m"
proof -
  assume a: "\<And>k. keeps (I k) m"
  have "\<exists>k. I k s'" if "\<exists>k. I k s" "m s = (r, s')" for s r s'
    using that keeps_D [OF a] by blast
  then show ?thesis
    unfolding keeps_def by (intro hoareE_I) blast+
qed

lemma hoareE_keeps: "keeps I m \<Longrightarrow> hoareE I m (\<lambda>x. I) (\<lambda>msg. I)"
  by (simp add: keeps_def)

lemma hoareE_never_throws_keeps:
  "hoareE I m (\<lambda>x. I) (\<lambda>msg s. False) \<Longrightarrow> keeps I m"
  unfolding keeps_def by (erule hoareE_weaken) simp_all

lemma never_throws_keeps: "never_throws I m \<Longrightarrow> keeps I m"
  unfolding never_throws_def by (rule hoareE_never_throws_keeps)

lemma never_throws_any: "never_throws I m \<Longrightarrow> hoareE I m (\<lambda>x. I) R"
  unfolding never_throws_def by (erule hoareE_weaken) simp_all

lemma never_throws_catch:
  "keeps I m \<Longrightarrow> (\<And>msg. never_throws I (h msg)) \<Longrightarrow> never_throws I (catchE m h)"
  unfolding never_throws_def keeps_def by (rule hoareE_catch)

lemma never_throws_unawaited: "keeps I m \<Longrightarrow> never_throws I (unawaited m)"
  unfolding unawaited_def
  by (rule never_throws_catch) (simp_all add: never_throws_def hoareE_return)

lemma yields_return: "P x \<Longrightarrow> yields P (returnE x)"
  by (simp add: yields_def returnE_def)

lemma yields_bind:
  assumes "yields P' m" and "\<And>x. P' x \<Longrightarrow> yields P (f x)"
  shows "yields P (bindE m f)"
  unfolding yields_def
proof (intro allI impI)
  fix s y s' assume "bindE m f s = (Inr y, s')"
  from bindE_Inr [OF this] obtain x s1 where "m s = (Inr x, s1)" "f x s1 = (Inr y, s')" by blast
  with assms show "P y" unfolding yields_def by blast
qed

lemma yields_seq: "yields P k \<Longrightarrow> yields P (seqE m k)"
  unfolding seqE_def by (rule yields_bind [where P' = "\<lambda>x. True"]) (simp_all add: yields_def)

lemma yields_catch:
  assumes "yields P m" and "\<And>msg. yields P (h msg)"
  shows "yields P (catchE m h)"
  unfolding yields_def
proof (intro allI impI)
  fix s y s' assume "catchE m h s = (Inr y, s')"
  from catchE_Inr [OF this] assms show "P y" unfolding yields_def by blast
qed

lemma yields_for:
  assumes "P acc0" and "\<And>x acc. P acc \<Longrightarrow> yields P (f x acc)"
  shows "yields P (forE xs f acc0)"
  using assms(1)
proof (induction xs arbitrary: acc0)
  case Nil
  then show ?case by (simp add: yields_return)
next
  case (Cons x xs)
  show ?case
    by (simp, rule yields_bind [where P' = P]) (auto intro: assms(2) Cons)
qed

lemma yields_if: "(b \<Longrightarrow> yields P m) \<Longrightarrow> (\<not> b \<Longrightarrow> yields P k) \<Longrightarrow> yields P (if b then m else k)"
  by simp

lemma yields_case_option:
  "yields P m \<Longrightarrow> (\<And>x. yields P (f x)) \<Longrightarrow> yields P (case v of None \<Rightarrow> m | Some x \<Rightarrow> f x)"
  by (cases v) simp_all

lemma hoareE_yields:
  assumes "hoareE P m Q R" and "yields F m"
  shows "hoareE P m (\<lambda>x s. Q x s \<and> F x) R"
proof (rule hoareE_I)
  fix s msg s' assume "P s" "m s = (Inl msg, s')"
  then show "R msg s'" by (rule hoareE_Inl [OF assms(1)])
next
  fix s x s' assume p: "P s" and ms: "m s = (Inr x, s')"
  from hoareE_Inr [OF assms(1) p ms] assms(2) ms show "Q x s' \<and> F x"
    unfolding yields_def by blast
qed

text \<open>
  Running actions step by step.
\<close>

lemma apply_effect_hist [simp]: "hist (apply_effect c q s) = hist s"
  by (simp add: apply_effect_def split: stmt.splits)

lemma apply_effect_role:
  "kind_of q \<noteq> KSetRole \<or> c \<noteq> TargetDb \<Longrightarrow> session_role (apply_effect c q s) = session_role s"
  by (cases q) (auto simp: apply_effect_def)

lemma seqE_Inr:
  "seqE m k s = (Inr y, s') \<Longrightarrow> \<exists>x s1. m s = (Inr x, s1) \<and> k s1 = (Inr y, s')"
  unfolding seqE_def by (rule bindE_Inr)

lemma bindE_run: "m s = (Inr x, s1) \<Longrightarrow> bindE m f s = f x s1"
  by (simp add: bindE_def)

lemma seqE_run: "m s = (Inr x, s1) \<Longrightarrow> seqE m k s = k s1"
  by (simp add: seqE_def bindE_def)

lemma catchE_ok: "m s = (Inr x, s1) \<Longrightarrow> catchE m h s = (Inr x, s1)"
  by (simp add: catchE_def)

lemma catchE_run: "m s = (Inl msg, s1) \<Longrightarrow> catchE m h s = h msg s1"
  by (simp add: catchE_def)

lemma exec_hist:
  "exec E c q s = (r, s') \<Longrightarrow>
     hist s' = \<lparr>ev_conn = c, ev_stmt = q, ev_role = session_role s, ev_ok = (fault E (hist s) c q = None)\<rparr> # hist s"
  by (cases "fault E (hist s) c q") (auto simp: exec_def)

lemma exec_ok:
  assumes "fault E (hist s) c q = None"
  shows "exec E c q s
     = (Inr (), apply_effect c q
          (s\<lparr>hist := \<lparr>ev_conn = c, ev_stmt = q, ev_role = session_role s,
                         ev_ok = True\<rparr> # hist s\<rparr>))"
  using assms by (simp add: exec_def)

lemma query_result:
  assumes "query E c q answer s = (Inr x, s')"
  shows "x = answer (hist s)"
proof -
  obtain r1 s1 where e: "exec E c q s = (r1, s1)" by (cases "exec E c q s")
  with assms show ?thesis
    by (cases r1) (simp_all add: query_def bindE_def returnE_def)
qed

lemma logger_write_run:
  "\<exists>s'. logger_write lvl msg s = (Inr (), s') \<and> hist s' = hist s
        \<and> session_role s' = session_role s"
  by (simp add: logger_write_def)

lemma logMigration_run:
  "\<exists>s'. logMigration E mid t lvl msg s = (Inr (), s')
     \<and> hist s' = \<lparr>ev_conn = AppDb, ev_stmt = InsertMigrationLog mid t lvl msg,
                   ev_role = session_role s,
                   ev_ok = (fault E (hist s) AppDb (InsertMigrationLog mid t lvl msg) = None)\<rparr>
                 # hist s"
proof (cases "fault E (hist s) AppDb (InsertMigrationLog mid t lvl msg)")
  case None
  then show ?thesis
    by (simp add: logMigration_def catchE_def exec_def)
next
  case (Some m)
  then show ?thesis
    by (simp add: logMigration_def catchE_def exec_def logger_write_def)
qed

lemma getTableColumns_run:
  assumes "fault E (hist s) db (SelectColumns t) = None"
  shows "\<exists>s'. getTableColumns E db t s = (Inr (db_columns E (hist s) db t), s')
     \<and> hist s' = \<lparr>ev_conn = db, ev_stmt = SelectColumns t,
                   ev_role = session_role s, ev_ok = True\<rparr> # hist s"
  using assms
  by (simp add: getTableColumns_def query_def bindE_def returnE_def exec_def)

lemma selectBatch_result:
  assumes "selectBatch E t lim off s = (Inr batch, s1)"
  shows "batch = take lim (drop off (source_rows E t))"
  using query_result [OF assms [unfolded selectBatch_def]] .

lemma selectBatch_ok:
  assumes "fault E (hist s) SourceDb (SelectBatch t lim off) = None"
  shows "\<exists>s1. selectBatch E t lim off s = (Inr (take lim (drop off (source_rows E t))), s1)
           \<and> session_role s1 = session_role s"
  using assms
  by (simp add: selectBatch_def query_def bindE_def returnE_def exec_def apply_effect_def)

lemma finallyE_snd:
  assumes "m s = (r, s1)" and "keeps I fin" and "I s1"
  shows "I (snd (finallyE m fin s))"
proof -
  obtain r2 s2 where f: "fin s1 = (r2, s2)" by (cases "fin s1")
  have "I s2" by (rule keeps_D [OF assms(2,3) f])
  moreover have "snd (finallyE m fin s) = s2"
    using assms(1) f by (cases r2) (simp_all add: finallyE_def)
  ultimately show ?thesis by simp
qed

section \<open>Which statements each function issues\<close>

text \<open>
  Outside the two blocks that set the replication role, every function of the engine
  leaves the role alone and issues statements of a few kinds only.
\<close>

lemma since_logger_write: "keeps (since h0 r S) (logger_write lvl msg)"
  unfolding keeps_def hoareE_def logger_write_def since_def by simp

lemma since_logger_writes: "keeps (since h0 r S) (logger_writes es)"
  unfolding keeps_def hoareE_def logger_writes_def since_def by simp

lemma since_exec:
  assumes "(c, kind_of q) \<in> S" and "(TargetDb, KSetRole) \<notin> S"
  shows "keeps (since h0 r S) (exec E c q)"
proof -
  from assms have nr: "kind_of q \<noteq> KSetRole \<or> c \<noteq> TargetDb" by auto
  show ?thesis
    unfolding keeps_def hoareE_def exec_def since_def
    using assms(1) apply_effect_role [OF nr]
    by (auto split: option.splits)
qed

lemma logMigration_since:
  assumes "(AppDb, KLog) \<in> S" and "(TargetDb, KSetRole) \<notin> S"
  shows "keeps (since h0 r S) (logMigration E m c l msg)"
  unfolding logMigration_def
  by (intro keeps_intros since_exec since_logger_write) (simp_all add: assms)

lemma getTableColumns_since:
  assumes "(db, KRead) \<in> S" and "(TargetDb, KSetRole) \<notin> S"
  shows "keeps (since h0 r S) (getTableColumns E db t)"
  unfolding getTableColumns_def
  by (intro keeps_intros since_exec) (simp_all add: assms)

lemma getTableColumnsDetailed_since:
  assumes "(db, KRead) \<in> S" and "(TargetDb, KSetRole) \<notin> S"
  shows "keeps (since h0 r S) (getTableColumnsDetailed E db t)"
  unfolding getTableColumnsDetailed_def
  by (intro keeps_intros since_exec) (simp_all add: assms)

lemma resetSequences_since:
  assumes "(db, KSeqQuery) \<in> S" and "(db, KSeqReset) \<in> S" and "(TargetDb, KSetRole) \<notin> S"
  shows "keeps (since h0 r S) (resetSequences E db t)"
  unfolding resetSequences_def Let_def
  by (intro keeps_intros since_exec since_logger_write) (simp_all add: assms)

lemma tableHasData_since:
  assumes "(db, KRead) \<in> S" and "(TargetDb, KSetRole) \<notin> S"
  shows "keeps (since h0 r S) (tableHasData E db t)"
  unfolding tableHasData_def
  by (intro keeps_intros since_exec) (simp_all add: assms)

lemma copyConstraints_since:
  assumes "(SourceDb, KRead) \<in> S" and "(TargetDb, KSchema) \<in> S" and "(TargetDb, KSetRole) \<notin> S"
  shows "keeps (since h0 r S) (copyConstraints E t)"
  unfolding copyConstraints_def
  by (intro keeps_intros since_exec since_logger_write) (simp_all add: assms)

lemma getTableSequences_since:
  assumes "(db, KRead) \<in> S" and "(TargetDb, KSetRole) \<notin> S"
  shows "keeps (since h0 r S) (getTableSequences E db t)"
  unfolding getTableSequences_def
  by (intro keeps_intros since_exec) (simp_all add: assms)

lemma createSequences_since:
  assumes "\<And>msg. keeps (since h0 r S) (log msg)"
    and "(SourceDb, KRead) \<in> S" and "(TargetDb, KRead) \<in> S" and "(TargetDb, KSchema) \<in> S"
    and "(TargetDb, KSetRole) \<notin> S"
  shows "keeps (since h0 r S) (createSequences E t log)"
  unfolding createSequences_def
  by (intro keeps_intros since_exec getTableSequences_since assms(1)) (simp_all add: assms)

lemma syncIndexes_since:
  assumes "\<And>msg. keeps (since h0 r S) (log msg)"
    and "(SourceDb, KRead) \<in> S" and "(TargetDb, KRead) \<in> S" and "(TargetDb, KSchema) \<in> S"
    and "(TargetDb, KSetRole) \<notin> S"
  shows "keeps (since h0 r S) (syncIndexes E t log)"
  unfolding syncIndexes_def
  by (intro keeps_intros since_exec assms(1)) (simp_all add: assms)

lemma configureSequence_since:
  assumes "\<And>msg. keeps (since h0 r S) (log msg)"
    and "(TargetDb, KSchema) \<in> S" and "(TargetDb, KSetRole) \<notin> S"
  shows "keeps (since h0 r S) (configureSequence E t log col ch)"
  unfolding configureSequence_def
  by (intro keeps_intros since_exec assms(1)) (simp_all add: assms)

lemma createPrimaryKey_since:
  assumes "\<And>msg. keeps (since h0 r S) (log msg)"
    and "(TargetDb, KSchema) \<in> S" and "(TargetDb, KSetRole) \<notin> S"
  shows "keeps (since h0 r S) (createPrimaryKey E t log cols)"
  unfolding createPrimaryKey_def Let_def
  by (intro keeps_intros since_exec assms(1)) (simp_all add: assms)

lemma createTargetTable_since:
  assumes "\<And>msg. keeps (since h0 r S) (log msg)"
    and "(SourceDb, KRead) \<in> S" and "(TargetDb, KRead) \<in> S" and "(TargetDb, KSchema) \<in> S"
    and "(TargetDb, KSetRole) \<notin> S"
  shows "keeps (since h0 r S) (createTargetTable E t log cols ch)"
  unfolding createTargetTable_def Let_def
  by (intro keeps_intros since_exec createSequences_since configureSequence_since
        createPrimaryKey_since assms(1)) (simp_all add: assms)

lemma addMissingColumn_since:
  assumes "\<And>msg. keeps (since h0 r S) (log msg)"
    and "(TargetDb, KRead) \<in> S" and "(TargetDb, KSchema) \<in> S" and "(TargetDb, KAddColumn) \<in> S"
    and "(TargetDb, KSetRole) \<notin> S"
  shows "keeps (since h0 r S) (addMissingColumn E t log col ch)"
  unfolding addMissingColumn_def
  by (intro keeps_intros since_exec assms(1)) (simp_all add: assms)

lemma addMissingColumns_since:
  assumes "\<And>msg. keeps (since h0 r S) (log msg)"
    and "(TargetDb, KRead) \<in> S" and "(TargetDb, KSchema) \<in> S" and "(TargetDb, KAddColumn) \<in> S"
    and "(TargetDb, KSetRole) \<notin> S"
  shows "keeps (since h0 r S) (addMissingColumns E t log cols ch)"
  unfolding addMissingColumns_def Let_def
  by (intro keeps_intros since_exec addMissingColumn_since getTableColumnsDetailed_since
        assms(1)) (simp_all add: assms)

lemma migrateSchema_since:
  assumes "\<And>msg. keeps (since h0 r S) (log msg)"
    and "(SourceDb, KRead) \<in> S" and "(TargetDb, KRead) \<in> S" and "(TargetDb, KSchema) \<in> S"
    and "(TargetDb, KAddColumn) \<in> S" and "(TargetDb, KSetRole) \<notin> S"
  shows "keeps (since h0 r S) (migrateSchema E t log)"
  unfolding migrateSchema_def
  by (intro keeps_intros since_exec createTargetTable_since addMissingColumns_since
        syncIndexes_since getTableColumnsDetailed_since assms(1)) (simp_all add: assms)

lemma schemaCase_since:
  assumes "(AppDb, KLog) \<in> S"
    and "(SourceDb, KRead) \<in> S" and "(TargetDb, KRead) \<in> S" and "(TargetDb, KSchema) \<in> S"
    and "(TargetDb, KAddColumn) \<in> S" and "(TargetDb, KSetRole) \<notin> S"
  shows "keeps (since h0 r S) (schemaCase E mid t)"
  unfolding schemaCase_def
  by (intro keeps_intros migrateSchema_since logMigration_since) (simp_all add: assms)

lemma upsertData_since:
  assumes "(SourceDb, KRead) \<in> S" and "(TargetDb, KUpsert) \<in> S" and "(TargetDb, KSetRole) \<notin> S"
  shows "keeps (since h0 r S) (upsertData E t jc ac)"
  unfolding upsertData_def Let_def
  by (intro keeps_intros since_exec since_logger_write since_logger_writes) (simp_all add: assms)

lemma insertIgnoreData_since:
  assumes "(SourceDb, KRead) \<in> S" and "(TargetDb, KRowInsert) \<in> S" and "(TargetDb, KSetRole) \<notin> S"
  shows "keeps (since h0 r S) (insertIgnoreData E t jc ac)"
  unfolding insertIgnoreData_def Let_def
  by (intro keeps_intros since_exec since_logger_write since_logger_writes) (simp_all add: assms)

lemma log_since:
  assumes "(AppDb, KLog) \<in> S" and "(TargetDb, KSetRole) \<notin> S"
  shows "keeps (since h1 r S) (unawaited (logMigration E mid t lvl msg))"
  by (intro keeps_unawaited logMigration_since assms)

section \<open>The replication role\<close>

lemma trace_logger_write: "keeps (trace h0 r G) (logger_write lvl msg)"
  unfolding keeps_def hoareE_def logger_write_def trace_def by simp

lemma trace_logger_writes: "keeps (trace h0 r G) (logger_writes es)"
  unfolding keeps_def hoareE_def logger_writes_def trace_def by simp

lemma trace_exec:
  assumes "\<And>ok. G \<lparr>ev_conn = c, ev_stmt = q, ev_role = r, ev_ok = ok\<rparr>"
    and nr: "kind_of q \<noteq> KSetRole \<or> c \<noteq> TargetDb"
  shows "keeps (trace h0 r G) (exec E c q)"
  unfolding keeps_def hoareE_def exec_def trace_def
  using assms(1) apply_effect_role [OF nr]
  by (auto split: option.splits)

lemma trace_set:
  assumes "G \<lparr>ev_conn = TargetDb, ev_stmt = SetSessionReplicationRole r', ev_role = r,
              ev_ok = True\<rparr>"
    and "no_set_fault E"
  shows "hoareE (trace h0 r G) (exec E TargetDb (SetSessionReplicationRole r'))
           (\<lambda>u. trace h0 r' G) (\<lambda>msg s. False)"
  unfolding hoareE_def exec_def trace_def
  using assms by (auto simp: no_set_fault_def apply_effect_def)

lemma trace_from_since:
  assumes m: "\<And>h1. keeps (since h1 r S) m"
    and g: "\<And>e. (ev_conn e, kind_of (ev_stmt e)) \<in> S \<Longrightarrow> ev_role e = r \<Longrightarrow> G e"
  shows "keeps (trace h0 r G) m"
  unfolding keeps_def
proof (rule hoareE_I)
  fix s msg s' assume t: "trace h0 r G s" and ms: "m s = (Inl msg, s')"
  have "since (hist s) r S s" using t by (simp add: since_def trace_def)
  from hoareE_Inl [OF m [unfolded keeps_def] this ms]
  show "trace h0 r G s'"
    using t g by (auto simp: since_def trace_def list_all_iff)
next
  fix s x s' assume t: "trace h0 r G s" and ms: "m s = (Inr x, s')"
  have "since (hist s) r S s" using t by (simp add: since_def trace_def)
  from hoareE_Inr [OF m [unfolded keeps_def] this ms]
  show "trace h0 r G s'"
    using t g by (auto simp: since_def trace_def list_all_iff)
qed

lemma trace_logger_write_any:
  "hoareE (trace h0 r G) (logger_write lvl msg) (\<lambda>u. trace h0 r G) R"
  unfolding hoareE_def logger_write_def trace_def by simp

lemma trace_logger_writes_any:
  "hoareE (trace h0 r G) (logger_writes es) (\<lambda>u. trace h0 r G) R"
  unfolding hoareE_def logger_writes_def trace_def by simp

lemma trace_set_any:
  assumes "G \<lparr>ev_conn = TargetDb, ev_stmt = SetSessionReplicationRole r', ev_role = r,
              ev_ok = True\<rparr>"
    and "no_set_fault E"
  shows "hoareE (trace h0 r G) (exec E TargetDb (SetSessionReplicationRole r'))
           (\<lambda>u. trace h0 r' G) R"
  by (rule hoareE_weaken [OF trace_set [where G = G and r = r and r' = r' and E = E, OF assms]])
     simp_all

lemma trace_exec_h:
  assumes "\<And>ok. G \<lparr>ev_conn = c, ev_stmt = q, ev_role = r, ev_ok = ok\<rparr>"
    and "kind_of q \<noteq> KSetRole \<or> c \<noteq> TargetDb"
  shows "hoareE (trace h0 r G) (exec E c q) (\<lambda>u. trace h0 r G) (\<lambda>msg. trace h0 r G)"
  using trace_exec [where G = G and c = c and q = q and r = r, OF assms]
  by (simp add: keeps_def)

lemma trace_role: "trace [] r (\<lambda>e. True) s = (session_role s = r)"
  by (simp add: trace_def list_all_iff)

lemma trace_openHandles: "keeps (trace h0 r G) openHandles"
  unfolding keeps_def hoareE_def openHandles_def trace_def by simp

text \<open>
  The truncate block.
\<close>

lemma truncateTarget_trace:
  assumes nf: "no_set_fault E"
    and g: "\<And>e. ev_conn e = AppDb \<or>
                 (ev_conn e = TargetDb \<and>
                   (kind_of (ev_stmt e) = KSetRole \<or>
                    (kind_of (ev_stmt e) \<in> {KTruncate, KSeqQuery, KSeqReset}
                       \<and> ev_role e = RoleReplica))) \<Longrightarrow> G e"
  shows "keeps (trace h0 RoleDefault G) (truncateTarget E mid t)"
proof -
  have body: "keeps (trace h0 RoleReplica G)
     (seqE (exec E TargetDb (TruncateCascade t))
        (seqE (logMigration E mid t ''info'' ''Table truncated'')
           (seqE (resetSequences E TargetDb t)
              (logMigration E mid t ''info'' ''Sequences reset''))))"
    by (intro keeps_intros trace_exec
          trace_from_since [where S = "{(AppDb, KLog)}", OF logMigration_since]
          trace_from_since [where S = "{(TargetDb, KSeqQuery), (TargetDb, KSeqReset)}",
                            OF resetSequences_since])
       (auto intro!: g)
  have enter: "hoareE (trace h0 RoleDefault G)
                 (exec E TargetDb (SetSessionReplicationRole RoleReplica))
                 (\<lambda>u. trace h0 RoleReplica G) (\<lambda>msg. trace h0 RoleDefault G)"
    by (rule hoareE_weaken [OF trace_set [OF _ nf]]) (auto intro!: g)
  have leave: "hoareE (trace h0 RoleReplica G)
                 (exec E TargetDb (SetSessionReplicationRole RoleDefault))
                 (\<lambda>u. trace h0 RoleDefault G) (\<lambda>msg. trace h0 RoleDefault G)"
    by (rule hoareE_weaken [OF trace_set [OF _ nf]]) (auto intro!: g)
  show ?thesis
    unfolding truncateTarget_def keeps_def
    by (rule hoareE_seq [OF enter])
       (rule hoareE_finally [OF hoareE_keeps [OF body] leave leave])
qed

text \<open>
  One batch of the copy.  When setting the role does not fail and the rows can be
  serialized, the batch ends normally whatever the inserts do.
\<close>

lemma logRowError_trace:
  assumes "json_stringify (JObj r0) \<noteq> None"
  shows "hoareE (trace h0 r G) (logRowError t msg r0) (\<lambda>u. trace h0 r G) R"
  using assms unfolding logRowError_def
  by (auto intro: trace_logger_write_any)

lemma migrateBatch_trace:
  assumes nf: "no_set_fault E"
    and ser: "\<forall>r \<in> set batch.
                json_stringify (JObj (fst (prepareRowForInsert (json_parses E) r jc ac))) \<noteq> None"
    and g: "\<And>e. ev_conn e = TargetDb \<and>
                   (kind_of (ev_stmt e) = KSetRole \<or>
                    (kind_of (ev_stmt e) \<in> {KBatchInsert, KRowInsert}
                       \<and> ev_role e = RoleReplica)) \<Longrightarrow> G e"
  shows "hoareE (trace h0 RoleDefault G) (migrateBatch E t jc ac totalRows batch tot)
           (\<lambda>x. trace h0 RoleDefault G) (\<lambda>msg s. False)"
proof -
  let ?D = "trace h0 RoleDefault G" and ?R = "trace h0 RoleReplica G"
  have set_rep: "hoareE (trace h0 r G) (exec E TargetDb (SetSessionReplicationRole RoleReplica))
                   (\<lambda>u. ?R) R" for r R
    by (rule trace_set_any [OF _ nf]) (simp add: g)
  have set_def: "hoareE (trace h0 r G) (exec E TargetDb (SetSessionReplicationRole RoleDefault))
                   (\<lambda>u. ?D) R" for r R
    by (rule trace_set_any [OF _ nf]) (simp add: g)
  have ins_batch: "hoareE ?R (exec E TargetDb (InsertBatch t rs)) (\<lambda>u. ?R) (\<lambda>msg. ?R)" for rs
    by (rule trace_exec_h) (simp_all add: g)
  have ins_row: "hoareE ?R (exec E TargetDb (InsertRow t r0)) (\<lambda>u. ?R) (\<lambda>msg. ?R)" for r0
    by (rule trace_exec_h) (simp_all add: g)
  have try_part: "hoareE ?D
      (seqE (exec E TargetDb (SetSessionReplicationRole RoleReplica))
         (seqE (exec E TargetDb (InsertBatch t rs))
            (seqE (exec E TargetDb (SetSessionReplicationRole RoleDefault))
               (seqE (logger_write Info msg) (returnE n)))))
      (\<lambda>x. ?D) (\<lambda>msg. ?R)" for rs msg and n :: nat
    apply (rule hoareE_seq [OF set_rep])
    apply (rule hoareE_seq [OF ins_batch])
    apply (rule hoareE_seq [OF set_def])
    apply (rule hoareE_seq [OF trace_logger_write_any])
    apply (rule hoareE_return)
    apply assumption
    done
  have row_turn: "hoareE ?R
      (catchE (seqE (exec E TargetDb (InsertRow t r0)) (returnE (n + 1)))
         (\<lambda>rowError. seqE (logRowError t rowError r0) (returnE n)))
      (\<lambda>x. ?R) (\<lambda>msg s. False)"
    if "json_stringify (JObj r0) \<noteq> None" for r0 and n :: nat
    apply (rule hoareE_catch [where R' = "\<lambda>msg. ?R"])
     apply (rule hoareE_seq [OF ins_row])
     apply (rule hoareE_return)
     apply assumption
    apply (rule hoareE_seq [OF logRowError_trace [OF that]])
    apply (rule hoareE_return)
    apply assumption
    done
  have rows: "hoareE ?R
      (forE (map fst (map (\<lambda>r. prepareRowForInsert (json_parses E) r jc ac) batch))
         (\<lambda>r0 n. catchE (seqE (exec E TargetDb (InsertRow t r0)) (returnE (n + 1)))
                    (\<lambda>rowError. seqE (logRowError t rowError r0) (returnE n)))
         tot)
      (\<lambda>x. ?R) (\<lambda>msg s. False)"
    apply (rule hoareE_for [where I = "\<lambda>acc. ?R"])
    apply (rule row_turn)
    using ser apply auto
    done
  have handler: "hoareE ?R
      (seqE (logger_write Warning msg)
         (seqE (exec E TargetDb (SetSessionReplicationRole RoleReplica))
            (bindE
               (forE (map fst (map (\<lambda>r. prepareRowForInsert (json_parses E) r jc ac) batch))
                  (\<lambda>r0 n. catchE (seqE (exec E TargetDb (InsertRow t r0)) (returnE (n + 1)))
                             (\<lambda>rowError. seqE (logRowError t rowError r0) (returnE n)))
                  tot)
               (\<lambda>n. seqE (exec E TargetDb (SetSessionReplicationRole RoleDefault))
                       (returnE n)))))
      (\<lambda>x. ?D) (\<lambda>msg s. False)" for msg
    apply (rule hoareE_seq [OF trace_logger_write_any])
    apply (rule hoareE_seq [OF set_rep])
    apply (rule hoareE_bind [OF rows])
    apply (rule hoareE_seq [OF set_def])
    apply (rule hoareE_return)
    apply assumption
    done
  show ?thesis
    unfolding migrateBatch_def Let_def
    apply (rule hoareE_seq [OF trace_logger_writes_any])
    apply (rule hoareE_catch [where R' = "\<lambda>msg. ?R"])
     apply (rule try_part)
    apply (rule handler)
    done
qed

text \<open>
  The loop of the copy, and the copy.
\<close>

lemma selectBatch_trace:
  assumes "\<And>e. ev_conn e \<noteq> TargetDb \<Longrightarrow> G e"
  shows "keeps (trace h0 r G) (selectBatch E t lim off)"
  unfolding selectBatch_def
  by (intro keeps_intros trace_exec) (simp_all add: assms)

lemma migrateData_loop_trace:
  assumes g: "\<And>e. ev_conn e = TargetDb \<and>
                   (kind_of (ev_stmt e) = KSetRole \<or>
                    (kind_of (ev_stmt e) \<in> {KBatchInsert, KRowInsert}
                       \<and> ev_role e = RoleReplica)) \<Longrightarrow> G e"
    and gs: "\<And>e. ev_conn e \<noteq> TargetDb \<Longrightarrow> G e"
  shows "no_set_fault E \<Longrightarrow>
         \<forall>r \<in> set (source_rows E t).
            json_stringify (JObj (fst (prepareRowForInsert (json_parses E) r jc ac))) \<noteq> None \<Longrightarrow>
         trace h0 RoleDefault G s \<Longrightarrow>
         migrateData_loop E t jc ac totalRows off tot s = (r, s') \<Longrightarrow>
         trace h0 RoleDefault G s'"
proof (induction E t jc ac totalRows off tot s arbitrary: r s' rule: migrateData_loop.induct)
  case (1 E t jc ac totalRows off tot s)
  have run: "(case selectBatch E t batchSize off s of
        (Inl msg, s1) \<Rightarrow> (Inl msg, s1)
      | (Inr batch, s1) \<Rightarrow>
          if length batch = 0 then (Inr tot, s1)
          else
            (case migrateBatch E t jc ac totalRows batch tot s1 of
               (Inl msg, s2) \<Rightarrow> (Inl msg, s2)
             | (Inr n, s2) \<Rightarrow>
                 if length batch < batchSize then (Inr n, s2)
                 else migrateData_loop E t jc ac totalRows (off + batchSize) n s2)) = (r, s')"
    using "1.prems"(4) by (subst (asm) migrateData_loop.simps)
  obtain x1 s1 where sel: "selectBatch E t batchSize off s = (x1, s1)"
    by (cases "selectBatch E t batchSize off s")
  have t1: "trace h0 RoleDefault G s1"
    using keeps_D [OF selectBatch_trace [of G h0 RoleDefault E t batchSize off] "1.prems"(3) sel] gs
    by blast
  show ?case
  proof (cases x1)
    case (Inl msg)
    with run sel t1 show ?thesis
      by simp
  next
    case (Inr batch)
    have sub: "set batch \<subseteq> set (source_rows E t)"
      using selectBatch_result [OF sel [unfolded Inr]]
      by (metis set_take_subset set_drop_subset subset_trans)
    show ?thesis
    proof (cases "length batch = 0")
      case True
      with run sel Inr t1 show ?thesis
        by simp
    next
      case False
      obtain x2 s2 where mb: "migrateBatch E t jc ac totalRows batch tot s1 = (x2, s2)"
        by (cases "migrateBatch E t jc ac totalRows batch tot s1")
      have serb: "\<forall>r \<in> set batch.
                json_stringify (JObj (fst (prepareRowForInsert (json_parses E) r jc ac))) \<noteq> None"
        using sub "1.prems"(2) by blast
      note mbt = migrateBatch_trace [of E batch jc ac G h0 t totalRows tot, OF "1.prems"(1) serb g]
      show ?thesis
      proof (cases x2)
        case (Inl msg)
        with hoareE_Inl [OF mbt t1 mb [unfolded Inl]] show ?thesis by simp
      next
        case (Inr tot')
        have t2: "trace h0 RoleDefault G s2"
          using hoareE_Inr [OF mbt t1 mb [unfolded Inr]] .
        show ?thesis
        proof (cases "length batch < batchSize")
          case True
          with run sel \<open>x1 = Inr batch\<close> False mb Inr t2 show ?thesis
            by simp
        next
          case full: False
          have rec: "migrateData_loop E t jc ac totalRows (off + batchSize) tot' s2 = (r, s')"
            using run sel \<open>x1 = Inr batch\<close> False mb Inr full
            by simp
          show ?thesis
            by (rule "1.IH" [OF sel [symmetric] \<open>x1 = Inr batch\<close> False mb [symmetric] Inr full
                  "1.prems"(1,2) t2 rec])
        qed
      qed
    qed
  qed
qed

lemma default_kinds_scoped:
  "(ev_conn e, kind_of (ev_stmt e)) \<in> default_kinds \<Longrightarrow> ev_role e = RoleDefault
   \<Longrightarrow> replica_scoped e"
  by (auto simp: default_kinds_def replica_scoped_def)

lemma migrateData_trace:
  assumes nf: "no_set_fault E"
    and ser: "\<forall>r \<in> set (source_rows E t).
                json_stringify (JObj (fst (prepareRowForInsert (json_parses E) r jc ac))) \<noteq> None"
    and g: "\<And>e. ev_conn e = TargetDb \<and>
                   (kind_of (ev_stmt e) = KSetRole \<or>
                    (kind_of (ev_stmt e) \<in> {KBatchInsert, KRowInsert}
                       \<and> ev_role e = RoleReplica)) \<Longrightarrow> G e"
    and gs: "\<And>e. ev_conn e \<noteq> TargetDb \<Longrightarrow> G e"
  shows "keeps (trace h0 RoleDefault G) (migrateData E t jc ac)"
proof -
  have L: "trace h0 RoleDefault G s \<Longrightarrow> migrateData_loop E t jc ac totalRows 0 0 s = (r, s')
             \<Longrightarrow> trace h0 RoleDefault G s'" for s r s' totalRows
    using migrateData_loop_trace [where G = G and E = E and t = t and jc = jc and ac = ac,
            OF g gs nf ser] by this
  have loop: "keeps (trace h0 RoleDefault G) (migrateData_loop E t jc ac totalRows 0 0)"
    for totalRows
    unfolding keeps_def by (rule hoareE_I) (erule (1) L)+
  show ?thesis
    unfolding migrateData_def
    by (intro keeps_intros trace_exec trace_logger_write loop) (simp_all add: gs)
qed

lemmas scoped_since = trace_from_since [where S = default_kinds and G = replica_scoped
                                         and r = RoleDefault, OF _ default_kinds_scoped]

text \<open>
  The tasks and the job.
\<close>

lemma overwriteCase_scoped:
  assumes nf: "no_set_fault E" and ser: "rows_serializable E"
  shows "keeps (trace h0 RoleDefault replica_scoped) (overwriteCase E mid t jc ac)"
  unfolding overwriteCase_def
  apply (intro keeps_intros trace_exec
      truncateTarget_trace [OF nf] migrateData_trace [OF nf]
      scoped_since [OF logMigration_since] scoped_since [OF migrateSchema_since]
      scoped_since [OF tableHasData_since] scoped_since [OF resetSequences_since]
      scoped_since [OF copyConstraints_since] keeps_unawaited logMigration_since)
  using ser
                      apply (auto simp: rows_serializable_def default_kinds_def replica_scoped_def)
  done

lemma dispatchRule_scoped:
  assumes nf: "no_set_fault E" and ser: "rows_serializable E"
  shows "keeps (trace h0 RoleDefault replica_scoped) (dispatchRule E mid t r jc ac)"
  unfolding dispatchRule_def
  by (intro keeps_intros overwriteCase_scoped [OF nf ser]
        scoped_since [OF schemaCase_since] scoped_since [OF upsertData_since]
        scoped_since [OF insertIgnoreData_since] scoped_since [OF logMigration_since])
     (simp_all add: default_kinds_def)

lemma migrateCollectionBody_scoped:
  assumes nf: "no_set_fault E" and ser: "rows_serializable E"
  shows "keeps (trace h0 RoleDefault replica_scoped) (migrateCollectionBody E mid t r)"
  unfolding migrateCollectionBody_def Let_def
  by (intro keeps_intros dispatchRule_scoped [OF nf ser] trace_logger_write
        scoped_since [OF getTableColumns_since] scoped_since [OF logMigration_since])
     (simp_all add: default_kinds_def)

lemma migrateCollection_scoped:
  assumes nf: "no_set_fault E" and ser: "rows_serializable E"
  shows "keeps (trace h0 RoleDefault replica_scoped) (migrateCollection E mid g c results)"
  unfolding migrateCollection_def Let_def
  by (intro keeps_intros migrateCollectionBody_scoped [OF nf ser] trace_logger_write
        scoped_since [OF logMigration_since])
     (simp_all add: default_kinds_def)

lemma destroyHandles_scoped: "keeps (trace h0 RoleDefault replica_scoped) (destroyHandles E)"
  unfolding destroyHandles_def
  by (rule keeps_state) (intro keeps_intros trace_exec, simp_all add: replica_scoped_def)

lemma executeMigration_scoped:
  assumes nf: "no_set_fault E" and ser: "rows_serializable E"
  shows "keeps (trace h0 RoleDefault replica_scoped) (executeMigration E mid sid tid g cs)"
  unfolding executeMigration_def
  by (intro keeps_intros migrateCollection_scoped [OF nf ser] trace_logger_write
        trace_openHandles destroyHandles_scoped trace_exec)
     (simp_all add: replica_scoped_def)

lemma keeps_trace_run:
  assumes k: "keeps (trace (hist s) r G) m" and r: "session_role s = r"
  shows "session_role (snd (m s)) = r \<and> list_all G (events_during m s)"
proof -
  have t0: "trace (hist s) r G s" using r by (simp add: trace_def)
  have "trace (hist s) r G (snd (m s))"
    by (rule keeps_D [OF k t0]) (rule surjective_pairing)
  then show ?thesis by (auto simp: trace_def events_during_def)
qed

lemma truncateTarget_block:
  assumes "no_set_fault E"
  shows "keeps (trace h0 RoleDefault truncate_block_event) (truncateTarget E mid t)"
  by (rule truncateTarget_trace [OF assms]) (simp add: truncate_block_event_def)

lemma migrateData_block:
  assumes "no_set_fault E"
    and "\<forall>r \<in> set (source_rows E t).
           json_stringify (JObj (fst (prepareRowForInsert (json_parses E) r jc ac))) \<noteq> None"
  shows "keeps (trace h0 RoleDefault data_block_event) (migrateData E t jc ac)"
proof (rule migrateData_trace [OF assms])
  fix e :: event assume "ev_conn e = TargetDb \<and>
                   (kind_of (ev_stmt e) = KSetRole \<or>
                    (kind_of (ev_stmt e) \<in> {KBatchInsert, KRowInsert}
                       \<and> ev_role e = RoleReplica))"
  then show "data_block_event e" by (simp add: data_block_event_def)
next
  fix e :: event assume "ev_conn e \<noteq> TargetDb"
  then show "data_block_event e" by (cases "ev_conn e") (simp_all add: data_block_event_def)
qed

text \<open>
  The paths on which the role is set back.  Take an environment in which the statements
  that set the replication role do
  not themselves fail and in which \<^verbatim>\<open>JSON.stringify\<close> accepts every prepared row.
  Started with the target session in the default role, the truncate block, the copy of
  the overwrite rule and a whole job each end with the session in the default role,
  whether they return or throw.  During the truncate block the target receives, besides
  the two \<^verbatim>\<open>SET\<close> statements, only the truncate and the statements of the sequence
  reset, all under \<^verbatim>\<open>replica\<close>; during the copy it receives, besides the \<^verbatim>\<open>SET\<close>
  statements, only batch inserts and the row inserts of the fallback, all under
  \<^verbatim>\<open>replica\<close>; and over a whole job every statement the target receives under
  \<^verbatim>\<open>replica\<close> is one of these, while no truncate or batch insert is made under the
  default role.
\<close>

lemma role_restored_when_set_and_log_succeed:
  assumes nf: "no_set_fault E" and ser: "rows_serializable E"
    and r: "session_role s = RoleDefault"
  shows "session_role (snd (truncateTarget E mid t s)) = RoleDefault
       \<and> list_all truncate_block_event (events_during (truncateTarget E mid t) s)
       \<and> session_role (snd (migrateData E t jc ac s)) = RoleDefault
       \<and> list_all data_block_event (events_during (migrateData E t jc ac) s)
       \<and> session_role (snd (executeMigration E mid sid tid g cs s)) = RoleDefault
       \<and> list_all replica_scoped (events_during (executeMigration E mid sid tid g cs) s)"
proof -
  have ser': "\<forall>r \<in> set (source_rows E t).
           json_stringify (JObj (fst (prepareRowForInsert (json_parses E) r jc ac))) \<noteq> None"
    using ser by (simp add: rows_serializable_def)
  note a = keeps_trace_run [OF truncateTarget_block [OF nf] r]
    and b = keeps_trace_run [OF migrateData_block [OF nf ser'] r]
    and c = keeps_trace_run [OF executeMigration_scoped [OF nf ser] r]
  show ?thesis
    by (intro conjI a [THEN conjunct1] a [THEN conjunct2] b [THEN conjunct1] b [THEN conjunct2]
          c [THEN conjunct1] c [THEN conjunct2])
qed

lemma rejecting_no_set_fault: "no_set_fault rejecting_env"
  by (simp add: no_set_fault_def rejecting_env_def rejecting_fault_def)

lemma number_row_serializable:
  "\<exists>y. json_stringify (JObj (fst (prepareRowForInsert parses [(k, JNum n)] jc ac))) = Some y"
  by (simp add: prepareRowForInsert_def prepareValue_def set_property_def)

lemma rejecting_rows_serializable: "rows_serializable rejecting_env"
  by (auto simp add: rows_serializable_def rejecting_env_def quiet_env_def
        number_row_serializable simp del: json_stringify.simps)

text \<open>
  An instance: a job of three tasks on a target that rejects the batch insert and the
  second row of the fallback.
\<close>

lemma role_restored_instance:
  "no_set_fault rejecting_env \<and> rows_serializable rejecting_env
   \<and> session_role initial_state = RoleDefault
   \<and> session_role (snd (truncateTarget rejecting_env ''m1'' ''t'' initial_state)) = RoleDefault
   \<and> list_all truncate_block_event
        (events_during (truncateTarget rejecting_env ''m1'' ''t'') initial_state)
   \<and> session_role (snd (migrateData rejecting_env ''t'' [] [] initial_state)) = RoleDefault
   \<and> list_all data_block_event
        (events_during (migrateData rejecting_env ''t'' [] []) initial_state)
   \<and> session_role (snd (executeMigration rejecting_env ''m1'' ''src'' ''tgt''
                           (Some ''overwrite'') example_tasks initial_state)) = RoleDefault
   \<and> list_all replica_scoped
        (events_during (executeMigration rejecting_env ''m1'' ''src'' ''tgt''
                          (Some ''overwrite'') example_tasks) initial_state)"
proof -
  have r: "session_role initial_state = RoleDefault" by (simp add: initial_state_def)
  note t = role_restored_when_set_and_log_succeed
             [OF rejecting_no_set_fault rejecting_rows_serializable r,
              of "''m1''" "''t''" "[]" "[]" "''src''" "''tgt''" "Some ''overwrite''" example_tasks]
  show ?thesis
    by (intro conjI rejecting_no_set_fault rejecting_rows_serializable r
          t [THEN conjunct1] t [THEN conjunct2, THEN conjunct1]
          t [THEN conjunct2, THEN conjunct2, THEN conjunct1]
          t [THEN conjunct2, THEN conjunct2, THEN conjunct2, THEN conjunct1]
          t [THEN conjunct2, THEN conjunct2, THEN conjunct2, THEN conjunct2, THEN conjunct1]
          t [THEN conjunct2, THEN conjunct2, THEN conjunct2, THEN conjunct2, THEN conjunct2])
qed


section \<open>The reads of the overwrite copy\<close>

lemma fetched_logger_write: "keeps (fetched h0 F) (logger_write lvl msg)"
  unfolding keeps_def hoareE_def logger_write_def fetched_def by simp

lemma fetched_logger_writes: "keeps (fetched h0 F) (logger_writes es)"
  unfolding keeps_def hoareE_def logger_writes_def fetched_def by simp

lemma fetched_exec:
  assumes "c \<noteq> SourceDb \<or> fetch_of q = []"
  shows "keeps (fetched h0 F) (exec E c q)"
proof -
  have "fetched h0 F s'" if "fetched h0 F s" "exec E c q s = (r, s')" for s r s'
  proof -
    from that(1) obtain new where n: "hist s = new @ h0" "fetches new = F"
      by (auto simp: fetched_def)
    have "hist s' = (\<lparr>ev_conn = c, ev_stmt = q, ev_role = session_role s,
                       ev_ok = (fault E (hist s) c q = None)\<rparr> # new) @ h0"
      using exec_hist [OF that(2)] n(1) by simp
    moreover have "fetches (\<lparr>ev_conn = c, ev_stmt = q, ev_role = session_role s,
                       ev_ok = (fault E (hist s) c q = None)\<rparr> # new) = F"
      using assms n(2) by (auto simp: fetches_def)
    ultimately show ?thesis unfolding fetched_def by blast
  qed
  then show ?thesis
    unfolding keeps_def by (intro hoareE_I) blast+
qed

lemma fetched_selectBatch:
  assumes "fetched h0 F s" and "selectBatch E t lim off s = (r, s')"
  shows "fetched h0 (F @ [(t, lim, off)]) s'"
proof -
  obtain r1 s1 where e: "exec E SourceDb (SelectBatch t lim off) s = (r1, s1)"
    by (cases "exec E SourceDb (SelectBatch t lim off) s")
  have s1: "s' = s1"
    using assms(2) e by (cases r1) (simp_all add: selectBatch_def query_def bindE_def returnE_def)
  from assms(1) obtain new where n: "hist s = new @ h0" "fetches new = F"
    by (auto simp: fetched_def)
  have "hist s' = (\<lparr>ev_conn = SourceDb, ev_stmt = SelectBatch t lim off,
                     ev_role = session_role s,
                     ev_ok = (fault E (hist s) SourceDb (SelectBatch t lim off) = None)\<rparr> # new) @ h0"
    using exec_hist [OF e] n(1) s1 by simp
  moreover have "fetches (\<lparr>ev_conn = SourceDb, ev_stmt = SelectBatch t lim off,
                     ev_role = session_role s,
                     ev_ok = (fault E (hist s) SourceDb (SelectBatch t lim off) = None)\<rparr> # new)
                 = F @ [(t, lim, off)]"
    using n(2) by (simp add: fetches_def)
  ultimately show ?thesis unfolding fetched_def by blast
qed

lemma fetched_logRowError: "keeps (fetched h0 F) (logRowError t msg r0)"
  unfolding logRowError_def
  by (intro keeps_intros fetched_logger_write)

lemma migrateBatch_fetched: "keeps (fetched h0 F) (migrateBatch E t jc ac totalRows batch tot)"
  unfolding migrateBatch_def Let_def
  by (intro keeps_intros fetched_exec fetched_logger_write fetched_logger_writes
        fetched_logRowError) simp_all

lemma offsets_step:
  assumes "off + 500 \<le> N"
  shows "(t, 500, off) # map (\<lambda>i. (t, 500, off + 500 + 500 * i)) [0..<Suc ((N - (off + 500)) div 500)]
         = map (\<lambda>i. (t, 500::nat, off + 500 * i)) [0..<Suc ((N - off) div 500)]"
proof -
  have d: "(N - off) div 500 = Suc ((N - (off + 500)) div 500)"
    using assms le_div_geq [of 500 "N - off"] by simp
  have "map (\<lambda>i. (t, 500::nat, off + 500 * i)) [0..<Suc (Suc k)]
        = (t, 500, off) # map (\<lambda>i. (t, 500, off + 500 + 500 * i)) [0..<Suc k]" for k
    by (simp only: map_upt_Suc [of _ "Suc k"]) (simp add: add.assoc)
  with d show ?thesis by simp
qed

lemma migrateData_loop_fetched:
  "fetched h0 F s \<Longrightarrow>
   migrateData_loop E t jc ac totalRows off tot s = (Inr n, s') \<Longrightarrow>
   fetched h0 (F @ map (\<lambda>i. (t, 500, off + 500 * i))
                     [0..<Suc ((length (source_rows E t) - off) div 500)]) s'"
proof (induction E t jc ac totalRows off tot s arbitrary: F n s' rule: migrateData_loop.induct)
  case (1 E t jc ac totalRows off tot s)
  have run: "(case selectBatch E t batchSize off s of
        (Inl msg, s1) \<Rightarrow> (Inl msg, s1)
      | (Inr batch, s1) \<Rightarrow>
          if length batch = 0 then (Inr tot, s1)
          else
            (case migrateBatch E t jc ac totalRows batch tot s1 of
               (Inl msg, s2) \<Rightarrow> (Inl msg, s2)
             | (Inr k, s2) \<Rightarrow>
                 if length batch < batchSize then (Inr k, s2)
                 else migrateData_loop E t jc ac totalRows (off + batchSize) k s2)) = (Inr n, s')"
    using "1.prems"(2) by (subst (asm) migrateData_loop.simps)
  obtain x1 s1 where sel: "selectBatch E t batchSize off s = (x1, s1)"
    by (cases "selectBatch E t batchSize off s")
  have f1: "fetched h0 (F @ [(t, 500, off)]) s1"
    using fetched_selectBatch [OF "1.prems"(1) sel] by (simp add: batchSize_def)
  show ?case
  proof (cases x1)
    case (Inl msg)
    with run sel show ?thesis by simp
  next
    case (Inr batch)
    have len: "length batch = min 500 (length (source_rows E t) - off)"
      using selectBatch_result [OF sel [unfolded Inr]] by (simp add: batchSize_def)
    show ?thesis
    proof (cases "length batch = 0")
      case True
      then have "(length (source_rows E t) - off) div 500 = 0" using len by simp
      with run sel Inr True f1 show ?thesis by simp
    next
      case False
      obtain x2 s2 where mb: "migrateBatch E t jc ac totalRows batch tot s1 = (x2, s2)"
        by (cases "migrateBatch E t jc ac totalRows batch tot s1")
      have f2: "fetched h0 (F @ [(t, 500, off)]) s2"
        using keeps_D [OF migrateBatch_fetched f1 mb] .
      show ?thesis
      proof (cases x2)
        case (Inl msg)
        with run sel \<open>x1 = Inr batch\<close> False mb show ?thesis by simp
      next
        case (Inr k)
        show ?thesis
        proof (cases "length batch < batchSize")
          case True
          then have "(length (source_rows E t) - off) div 500 = 0"
            using len by (simp add: batchSize_def)
          with run sel \<open>x1 = Inr batch\<close> False mb Inr True f2 show ?thesis by simp
        next
          case full: False
          have rec: "migrateData_loop E t jc ac totalRows (off + batchSize) k s2 = (Inr n, s')"
            using run sel \<open>x1 = Inr batch\<close> False mb Inr full by simp
          have ge: "off + 500 \<le> length (source_rows E t)"
            using full len by (simp add: batchSize_def)
          have "fetched h0 ((F @ [(t, 500, off)]) @ map (\<lambda>i. (t, 500, off + batchSize + 500 * i))
                     [0..<Suc ((length (source_rows E t) - (off + batchSize)) div 500)]) s'"
            by (rule "1.IH" [OF sel [symmetric] \<open>x1 = Inr batch\<close> False mb [symmetric] Inr full
                  f2 rec])
          then have "fetched h0 (F @ ((t, 500, off) # map (\<lambda>i. (t, 500, off + 500 + 500 * i))
                     [0..<Suc ((length (source_rows E t) - (off + 500)) div 500)])) s'"
            by (simp only: batchSize_def append_assoc append_Cons append_Nil)
          then show ?thesis
            by (simp only: offsets_step [OF ge])
        qed
      qed
    qed
  qed
qed

lemma migrateData_fetched:
  assumes "migrateData E t jc ac s = (Inr n, s')"
  shows "fetched (hist s) (map (\<lambda>i. (t, 500, 500 * i))
                    [0..<Suc (length (source_rows E t) div 500)]) s'"
proof -
  let ?count = "query E SourceDb (CountRows t) (\<lambda>h. db_row_count E h SourceDb t)"
  from bindE_Inr [OF assms [unfolded migrateData_def]]
  obtain totalRows s1 where c: "?count s = (Inr totalRows, s1)"
    and rest: "seqE (logger_write Info
                  (''Starting data migration for '' @ t @ '': '' @ show_int totalRows @ '' rows''))
            (bindE (migrateData_loop E t jc ac totalRows 0 0)
               (\<lambda>totalMigrated.
                  seqE (logger_write Info
                          (''Completed data migration for '' @ t @ '': ''
                             @ show_nat totalMigrated @ ''/'' @ show_int totalRows @ '' rows''))
                    (returnE totalMigrated))) s1 = (Inr n, s')"
    by blast
  have f0: "fetched (hist s) [] s" by (simp add: fetched_def fetches_def)
  have k1: "keeps (fetched (hist s) []) ?count"
    by (intro keeps_intros fetched_exec) simp
  have f1: "fetched (hist s) [] s1"
    by (rule keeps_D [OF k1 f0 c])
  from seqE_Inr [OF rest]
  obtain u s2 where l: "logger_write Info
                  (''Starting data migration for '' @ t @ '': '' @ show_int totalRows @ '' rows'') s1
                  = (Inr u, s2)"
    and rest2: "bindE (migrateData_loop E t jc ac totalRows 0 0)
               (\<lambda>totalMigrated.
                  seqE (logger_write Info
                          (''Completed data migration for '' @ t @ '': ''
                             @ show_nat totalMigrated @ ''/'' @ show_int totalRows @ '' rows''))
                    (returnE totalMigrated)) s2 = (Inr n, s')"
    by blast
  have f2: "fetched (hist s) [] s2"
    by (rule keeps_D [OF fetched_logger_write f1 l])
  from bindE_Inr [OF rest2]
  obtain k s3 where lp: "migrateData_loop E t jc ac totalRows 0 0 s2 = (Inr k, s3)"
    and rest3: "seqE (logger_write Info
                          (''Completed data migration for '' @ t @ '': ''
                             @ show_nat k @ ''/'' @ show_int totalRows @ '' rows''))
                    (returnE k) s3 = (Inr n, s')"
    by blast
  have f3: "fetched (hist s) (map (\<lambda>i. (t, 500, 500 * i))
                    [0..<Suc (length (source_rows E t) div 500)]) s3"
    using migrateData_loop_fetched [OF f2 lp] by simp
  have k3: "keeps (fetched (hist s) (map (\<lambda>i. (t, 500, 500 * i))
                    [0..<Suc (length (source_rows E t) div 500)]))
              (seqE (logger_write Info
                          (''Completed data migration for '' @ t @ '': ''
                             @ show_nat k @ ''/'' @ show_int totalRows @ '' rows''))
                    (returnE k))"
    by (intro keeps_intros fetched_logger_write)
  show ?thesis
    by (rule keeps_D [OF k3 f3 rest3])
qed

lemma fetched_events_during:
  assumes "fetched (hist s) F (snd (m s))"
  shows "fetches (events_during m s) = F"
  using assms by (auto simp: fetched_def events_during_def)

text \<open>
  C6.  When the copy of the overwrite rule returns, its reads of the source are exactly
  \<^verbatim>\<open>LIMIT 500 OFFSET 500 * i\<close> for \<open>i\<close> from 0 to \<open>n div 500\<close>, in this order, where
  \<open>n\<close> is the number of rows of the table.  Every read but the last returns 500 rows,
  and the last one, after which the loop ends, returns fewer than 500.
\<close>

theorem overwrite_reads_in_batches_of_500:
  assumes "migrateData E t jc ac s = (Inr n, s')"
  shows "fetches (events_during (migrateData E t jc ac) s)
           = map (\<lambda>i. (t, 500, 500 * i)) [0..<Suc (length (source_rows E t) div 500)]
       \<and> (\<forall>i < length (source_rows E t) div 500.
             length (take 500 (drop (500 * i) (source_rows E t))) = 500)
       \<and> length (take 500 (drop (500 * (length (source_rows E t) div 500)) (source_rows E t)))
           < 500"
proof -
  have a: "fetches (events_during (migrateData E t jc ac) s)
           = map (\<lambda>i. (t, 500, 500 * i)) [0..<Suc (length (source_rows E t) div 500)]"
    using migrateData_fetched [OF assms] assms
    by (intro fetched_events_during) simp
  have b: "length (take 500 (drop (500 * i) (source_rows E t))) = 500"
    if "i < length (source_rows E t) div 500" for i
  proof -
    have "Suc i \<le> length (source_rows E t) div 500" using that by simp
    then have "500 * Suc i \<le> 500 * (length (source_rows E t) div 500)" by simp
    also have "\<dots> \<le> length (source_rows E t)" by simp
    finally have "500 * Suc i \<le> length (source_rows E t)" .
    then show ?thesis by simp
  qed
  have c: "length (take 500 (drop (500 * (length (source_rows E t) div 500)) (source_rows E t)))
           < 500"
    by (simp add: minus_mult_div_eq_mod)
  from a b c show ?thesis by blast
qed

text \<open>
  Without failures of the reads of the source, the copy returns.
\<close>

lemma migrateData_loop_returns:
  "no_set_fault E \<Longrightarrow>
   \<forall>r \<in> set (source_rows E t).
      json_stringify (JObj (fst (prepareRowForInsert (json_parses E) r jc ac))) \<noteq> None \<Longrightarrow>
   \<forall>h q. fault E h SourceDb q = None \<Longrightarrow>
   session_role s = RoleDefault \<Longrightarrow>
   \<exists>n s'. migrateData_loop E t jc ac totalRows off tot s = (Inr n, s')"
proof (induction E t jc ac totalRows off tot s rule: migrateData_loop.induct)
  case (1 E t jc ac totalRows off tot s)
  let ?batch = "take batchSize (drop off (source_rows E t))"
  from selectBatch_ok [of E s t batchSize off] "1.prems"(3,4)
  obtain s1 where sel: "selectBatch E t batchSize off s = (Inr ?batch, s1)"
    and r1: "session_role s1 = RoleDefault"
    by auto
  have unfold: "migrateData_loop E t jc ac totalRows off tot s =
      (if length ?batch = 0 then (Inr tot, s1)
       else
         (case migrateBatch E t jc ac totalRows ?batch tot s1 of
            (Inl msg, s2) \<Rightarrow> (Inl msg, s2)
          | (Inr n, s2) \<Rightarrow>
              if length ?batch < batchSize then (Inr n, s2)
              else migrateData_loop E t jc ac totalRows (off + batchSize) n s2))"
    by (subst migrateData_loop.simps) (simp only: sel prod.case sum.case)
  show ?case
  proof (cases "length ?batch = 0")
    case True
    have "migrateData_loop E t jc ac totalRows off tot s = (Inr tot, s1)"
      by (simp only: unfold True if_True simp_thms)
    then show ?thesis by blast
  next
    case False
    obtain x2 s2 where mb: "migrateBatch E t jc ac totalRows ?batch tot s1 = (x2, s2)"
      by (cases "migrateBatch E t jc ac totalRows ?batch tot s1")
    have sub: "set ?batch \<subseteq> set (source_rows E t)"
      by (metis set_take_subset set_drop_subset subset_trans)
    have serb: "\<forall>r \<in> set ?batch.
              json_stringify (JObj (fst (prepareRowForInsert (json_parses E) r jc ac))) \<noteq> None"
      using sub "1.prems"(2) by blast
    have t1: "trace [] RoleDefault (\<lambda>e. True) s1" using r1 by (simp add: trace_role)
    note mbt = migrateBatch_trace [of E ?batch jc ac "\<lambda>e. True" "[]" t totalRows tot,
                 OF "1.prems"(1) serb TrueI]
    show ?thesis
    proof (cases x2)
      case (Inl msg)
      with hoareE_Inl [OF mbt t1 mb [unfolded Inl]] show ?thesis by simp
    next
      case (Inr tot')
      have r2: "session_role s2 = RoleDefault"
        using hoareE_Inr [OF mbt t1 mb [unfolded Inr]] by (simp add: trace_role)
      show ?thesis
      proof (cases "length ?batch < batchSize")
        case True
        have "migrateData_loop E t jc ac totalRows off tot s = (Inr tot', s2)"
          by (simp only: unfold False mb Inr True if_True if_False prod.case sum.case)
        then show ?thesis by blast
      next
        case full: False
        have rec: "\<exists>n s'. migrateData_loop E t jc ac totalRows (off + batchSize) tot' s2 = (Inr n, s')"
          by (rule "1.IH" [OF sel [symmetric] refl False mb [symmetric] Inr full
                "1.prems"(1,2,3) r2])
        have "migrateData_loop E t jc ac totalRows off tot s
                = migrateData_loop E t jc ac totalRows (off + batchSize) tot' s2"
          by (simp only: unfold False mb Inr full if_True if_False prod.case sum.case)
        with rec show ?thesis by simp
      qed
    qed
  qed
qed

lemma migrateData_returns:
  assumes nf: "no_set_fault E"
    and ser: "\<forall>r \<in> set (source_rows E t).
      json_stringify (JObj (fst (prepareRowForInsert (json_parses E) r jc ac))) \<noteq> None"
    and src: "\<forall>h q. fault E h SourceDb q = None"
    and r: "session_role s = RoleDefault"
  shows "\<exists>n s'. migrateData E t jc ac s = (Inr n, s')"
proof -
  let ?n = "db_row_count E (hist s) SourceDb t"
  obtain s1 where c: "query E SourceDb (CountRows t) (\<lambda>h. db_row_count E h SourceDb t) s
                        = (Inr ?n, s1)" and r1: "session_role s1 = RoleDefault"
    using src r by (simp add: query_def bindE_def returnE_def exec_def apply_effect_def)
  obtain s2 where w: "logger_write Info (''Starting data migration for '' @ t @ '': ''
                         @ show_int ?n @ '' rows'') s1 = (Inr (), s2)"
    and r2: "session_role s2 = RoleDefault"
    using r1 by (simp add: logger_write_def)
  from migrateData_loop_returns [OF nf ser src r2]
  obtain n s3 where l: "migrateData_loop E t jc ac ?n 0 0 s2 = (Inr n, s3)"
    by blast
  obtain s4 where w4: "logger_write Info (''Completed data migration for '' @ t @ '': ''
                         @ show_nat n @ ''/'' @ show_int ?n @ '' rows'') s3 = (Inr (), s4)"
    by (simp add: logger_write_def)
  have "migrateData E t jc ac s = (Inr n, s4)"
    unfolding migrateData_def
    by (simp only: seqE_def bindE_def returnE_def c w l w4 prod.case sum.case)
  then show ?thesis by blast
qed

lemma big_rows_serializable:
  "\<forall>r \<in> set (source_rows big_env ''t'').
      json_stringify (JObj (fst (prepareRowForInsert (json_parses big_env) r [] []))) \<noteq> None"
  by (auto simp add: big_env_def rows_501_def number_row_serializable
        simp del: json_stringify.simps)

text \<open>
  An instance: a table of 501 rows is read twice, at the offsets 0 and 500.
\<close>

theorem overwrite_reads_in_batches_of_500_witness:
  "(\<exists>n s'. migrateData big_env ''t'' [] [] initial_state = (Inr n, s'))
   \<and> length (source_rows big_env ''t'') = 501
   \<and> fetches (events_during (migrateData big_env ''t'' [] []) initial_state)
       = [(''t'', 500, 0), (''t'', 500, 500)]"
proof -
  have nf: "no_set_fault big_env"
    by (simp add: no_set_fault_def big_env_def quiet_env_def)
  have src: "\<forall>h q. fault big_env h SourceDb q = None"
    by (simp add: big_env_def quiet_env_def)
  have r: "session_role initial_state = RoleDefault" by (simp add: initial_state_def)
  from migrateData_returns [OF nf big_rows_serializable src r]
  obtain n s' where h: "migrateData big_env ''t'' [] [] initial_state = (Inr n, s')"
    by blast
  have l: "length (source_rows big_env ''t'') = 501"
    by (simp add: big_env_def rows_501_def)
  have "fetches (events_during (migrateData big_env ''t'' [] []) initial_state)
       = [(''t'', 500, 0), (''t'', 500, 500)]"
    using overwrite_reads_in_batches_of_500 [OF h] by (simp add: l upt_rec)
  with h l show ?thesis by blast
qed

section \<open>The schema rule\<close>

lemma added_exec:
  assumes "kind_of q \<notin> {KTruncate, KBatchInsert, KRowInsert, KUpsert}"
    and "c \<noteq> TargetDb \<or> kind_of q \<noteq> KAddColumn"
  shows "keeps (added h0 n) (exec E c q)"
proof -
  have "added h0 n s'" if "added h0 n s" "exec E c q s = (r, s')" for s r s'
  proof -
    from that(1) obtain new where n: "hist s = new @ h0" "length (filter column_added new) = n"
      "list_all (\<lambda>e. \<not> moves_rows e) new"
      by (auto simp: added_def)
    let ?e = "\<lparr>ev_conn = c, ev_stmt = q, ev_role = session_role s,
                ev_ok = (fault E (hist s) c q = None)\<rparr>"
    have "hist s' = (?e # new) @ h0"
      using exec_hist [OF that(2)] n(1) by simp
    moreover have "length (filter column_added (?e # new)) = n"
      using assms(2) n(2) by (auto simp: column_added_def)
    moreover have "list_all (\<lambda>e. \<not> moves_rows e) (?e # new)"
      using assms(1) n(3) by (simp add: moves_rows_def)
    ultimately show ?thesis unfolding added_def by blast
  qed
  then show ?thesis
    unfolding keeps_def by (intro hoareE_I) blast+
qed

lemma added_exec_add:
  "hoareE (added h0 n) (exec E TargetDb (AddColumn t c sql))
     (\<lambda>u. added h0 (Suc n)) (\<lambda>msg. added h0 n)"
proof (rule hoareE_I)
  fix s msg s'
  assume a: "added h0 n s" and e: "exec E TargetDb (AddColumn t c sql) s = (Inl msg, s')"
  from a obtain new where n: "hist s = new @ h0" "length (filter column_added new) = n"
      "list_all (\<lambda>e. \<not> moves_rows e) new"
    by (auto simp: added_def)
  have f: "fault E (hist s) TargetDb (AddColumn t c sql) \<noteq> None"
    using e by (auto simp: exec_def split: option.splits)
  let ?e = "\<lparr>ev_conn = TargetDb, ev_stmt = AddColumn t c sql, ev_role = session_role s,
              ev_ok = False\<rparr>"
  have "hist s' = (?e # new) @ h0"
    using exec_hist [OF e] n(1) f by simp
  moreover have "length (filter column_added (?e # new)) = n"
    using n(2) by (simp add: column_added_def)
  moreover have "list_all (\<lambda>e. \<not> moves_rows e) (?e # new)"
    using n(3) by (simp add: moves_rows_def)
  ultimately show "added h0 n s'" unfolding added_def by blast
next
  fix s x s'
  assume a: "added h0 n s" and e: "exec E TargetDb (AddColumn t c sql) s = (Inr x, s')"
  from a obtain new where n: "hist s = new @ h0" "length (filter column_added new) = n"
      "list_all (\<lambda>e. \<not> moves_rows e) new"
    by (auto simp: added_def)
  have f: "fault E (hist s) TargetDb (AddColumn t c sql) = None"
    using e by (auto simp: exec_def split: option.splits)
  let ?e = "\<lparr>ev_conn = TargetDb, ev_stmt = AddColumn t c sql, ev_role = session_role s,
              ev_ok = True\<rparr>"
  have "hist s' = (?e # new) @ h0"
    using exec_hist [OF e] n(1) f by simp
  moreover have "length (filter column_added (?e # new)) = Suc n"
    using n(2) by (simp add: column_added_def)
  moreover have "list_all (\<lambda>e. \<not> moves_rows e) (?e # new)"
    using n(3) by (simp add: moves_rows_def)
  ultimately show "added h0 (Suc n) s'" unfolding added_def by blast
qed

lemma added_logger_write: "keeps (added h0 n) (logger_write lvl msg)"
  unfolding keeps_def hoareE_def logger_write_def added_def by simp

lemma added_from_since:
  assumes m: "\<And>h1 r. keeps (since h1 r schema_kinds) m"
  shows "keeps (added h0 n) m"
proof -
  have "added h0 n s'" if a: "added h0 n s" and ms: "m s = (r, s')" for s r s'
  proof -
    have "since (hist s) (session_role s) schema_kinds s" by (simp add: since_def)
    from keeps_D [OF m this ms]
    obtain new where new: "hist s' = new @ hist s"
      "list_all (\<lambda>e. (ev_conn e, kind_of (ev_stmt e)) \<in> schema_kinds
                   \<and> ev_role e = session_role s) new"
      by (auto simp: since_def)
    from a obtain old where old: "hist s = old @ h0" "length (filter column_added old) = n"
      "list_all (\<lambda>e. \<not> moves_rows e) old"
      by (auto simp: added_def)
    have quiet: "\<not> column_added e \<and> \<not> moves_rows e"
      if "(ev_conn e, kind_of (ev_stmt e)) \<in> schema_kinds" for e
      using that by (auto simp: schema_kinds_def column_added_def moves_rows_def)
    have "filter column_added new = []" "list_all (\<lambda>e. \<not> moves_rows e) new"
      using new(2) quiet by (auto simp: list_all_iff filter_empty_conv)
    then have "length (filter column_added (new @ old)) = n"
      "list_all (\<lambda>e. \<not> moves_rows e) (new @ old)"
      using old(2,3) by simp_all
    moreover have "hist s' = (new @ old) @ h0" using new(1) old(1) by simp
    ultimately show ?thesis unfolding added_def by blast
  qed
  then show ?thesis
    unfolding keeps_def by (intro hoareE_I) blast+
qed

lemma log_added: "never_throws (added h0 n) (unawaited (logMigration E mid t lvl msg))"
  by (intro never_throws_unawaited added_from_since logMigration_since)
     (simp_all add: schema_kinds_def)

lemma logMigration_added: "keeps (added h0 n) (logMigration E mid t lvl msg)"
  by (intro added_from_since logMigration_since) (simp_all add: schema_kinds_def)

lemma addMissingColumn_added:
  assumes lg: "\<And>n msg. never_throws (added h0 n) (log msg)"
  shows "hoareE (added h0 (length (columnsAdded ch))) (addMissingColumn E t log col ch)
           (\<lambda>ch' s. added h0 (length (columnsAdded ch')) s) (\<lambda>msg s. False)"
proof -
  let ?n = "length (columnsAdded ch)"
  have pre: "keeps (added h0 ?n)
     (if default_is_nextval col then
        (case nextvalSequenceName (the (column_default col)) of
           Some seqName \<Rightarrow>
             bindE (query E TargetDb (SequenceExists seqName)
                      (\<lambda>h. db_sequence_exists E h TargetDb seqName))
               (\<lambda>seqExists.
                  if \<not> seqExists then
                    seqE (exec E TargetDb (CreateSequence seqName))
                      (log (''Sequence '' @ seqName @ '' created''))
                  else returnE ())
         | None \<Rightarrow> returnE ())
      else returnE ())"
    by (intro keeps_intros added_exec never_throws_keeps lg) simp_all
  have post: "hoareE (added h0 (Suc ?n))
      (seqE (log (''Column '' @ column_name col @ '' added''))
         (returnE (ch\<lparr>columnsAdded := columnsAdded ch @ [column_name col]\<rparr>)))
      (\<lambda>ch' s. added h0 (length (columnsAdded ch')) s) (\<lambda>msg. added h0 ?n)"
    by (rule hoareE_seq [OF never_throws_any [OF lg]]) (rule hoareE_return, simp)
  show ?thesis
    unfolding addMissingColumn_def
    apply (rule hoareE_catch [where R' = "\<lambda>msg. added h0 ?n"])
     apply (rule hoareE_seq [OF hoareE_keeps [OF pre]])
     apply (rule hoareE_seq [OF never_throws_any [OF lg]])
     apply (rule hoareE_seq [OF added_exec_add])
     apply (rule post)
    apply (rule hoareE_seq [OF never_throws_any [OF lg]])
    apply (rule hoareE_return)
    apply simp
    done
qed

lemma addMissingColumns_added:
  assumes lg: "\<And>n msg. never_throws (added h0 n) (log msg)"
  shows "hoareE (added h0 (length (columnsAdded ch))) (addMissingColumns E t log cols ch)
           (\<lambda>ch' s. added h0 (length (columnsAdded ch')) s)
           (\<lambda>msg. added h0 (length (columnsAdded ch)))"
proof -
  let ?n = "length (columnsAdded ch)"
  have cols: "hoareE (added h0 ?n) (getTableColumnsDetailed E TargetDb t)
                (\<lambda>x. added h0 ?n) (\<lambda>msg. added h0 ?n)"
    by (rule hoareE_keeps) (intro added_from_since getTableColumnsDetailed_since,
        simp_all add: schema_kinds_def)
  have loop: "hoareE (added h0 ?n) (forE ms (addMissingColumn E t log) ch)
                (\<lambda>ch' s. added h0 (length (columnsAdded ch')) s)
                (\<lambda>msg. added h0 ?n)" for ms
    by (rule hoareE_weaken [OF hoareE_for [where I = "\<lambda>acc. added h0 (length (columnsAdded acc))"
              and R = "\<lambda>msg s. False"]])
       (rule addMissingColumn_added [OF lg], simp_all)
  show ?thesis
    unfolding addMissingColumns_def Let_def
    apply (rule hoareE_seq [OF never_throws_any [OF lg]])
    apply (rule hoareE_bind [OF cols])
    apply (rule hoareE_if)
     apply (rule hoareE_seq [OF never_throws_any [OF lg]])
     apply (rule hoareE_return, simp)
    apply (rule hoareE_seq [OF never_throws_any [OF lg]])
    apply (rule loop)
    done
qed

lemma configureSequence_yields:
  assumes "columnsAdded ch = cs"
  shows "yields (\<lambda>ch'. columnsAdded ch' = cs) (configureSequence E t log col ch)"
  unfolding configureSequence_def
  by (intro yields_if yields_catch yields_case_option yields_seq yields_return)
     (simp_all add: assms)

lemma createTargetTable_yields:
  "yields (\<lambda>r. columnsAdded (fst r) = columnsAdded ch) (createTargetTable E t log cols ch)"
  unfolding createTargetTable_def Let_def
  apply (intro yields_seq)
  apply (rule yields_bind [where P' = "\<lambda>r. columnsAdded (fst r) = columnsAdded ch"])
   apply (intro yields_catch yields_seq yields_return)
    apply simp
   apply simp
  apply (rule yields_if)
   apply (rule yields_return, simp)
  apply (rule yields_bind [where P' = "\<lambda>c. columnsAdded c = columnsAdded ch"])
   apply (rule yields_for)
    apply simp
   apply (erule configureSequence_yields)
  apply (intro yields_seq yields_return)
  apply simp
  done

lemma syncIndexes_never_throws:
  assumes lg: "\<And>n msg. never_throws (added h0 n) (log msg)"
  shows "never_throws (added h0 n) (syncIndexes E t log)"
  unfolding syncIndexes_def
  by (rule never_throws_catch)
     (intro keeps_intros added_exec never_throws_keeps lg, simp_all add: lg)

lemma no_changes_added [simp]: "columnsAdded no_changes = []"
  by (simp add: no_changes_def)

lemma migrateSchema_added:
  assumes lg: "\<And>n msg. never_throws (added h0 n) (log msg)"
    and lg2: "\<And>h1 r msg. keeps (since h1 r schema_kinds) (log msg)"
  shows "hoareE (added h0 0) (migrateSchema E t log)
           (\<lambda>ch s. added h0 (length (columnsAdded ch)) s) (\<lambda>msg s. False)"
proof -
  let ?Q = "\<lambda>ch s. added h0 (length (columnsAdded ch)) s"
  have src: "hoareE (added h0 0) (getTableColumnsDetailed E SourceDb t)
               (\<lambda>x. added h0 0) (\<lambda>msg. added h0 0)"
    by (rule hoareE_keeps) (intro added_from_since getTableColumnsDetailed_since,
        simp_all add: schema_kinds_def)
  have ex: "hoareE (added h0 0)
              (query E TargetDb (TableExists t) (\<lambda>h. db_has_table E h TargetDb t))
              (\<lambda>x. added h0 0) (\<lambda>msg. added h0 0)"
    by (rule hoareE_keeps) (intro keeps_intros added_exec, simp_all)
  have ctt: "hoareE (added h0 0) (createTargetTable E t log cols no_changes)
               (\<lambda>r s. added h0 (length (columnsAdded (fst r))) s) (\<lambda>msg. added h0 0)" for cols
  proof -
    have k: "keeps (added h0 0) (createTargetTable E t log cols no_changes)"
      by (intro added_from_since createTargetTable_since lg2) (simp_all add: schema_kinds_def)
    show ?thesis
      by (rule hoareE_weaken [OF hoareE_yields [OF hoareE_keeps [OF k] createTargetTable_yields]])
         simp_all
  qed
  have amc: "hoareE (added h0 0)
               (bindE (addMissingColumns E t log cols no_changes) (\<lambda>changes. returnE (changes, False)))
               (\<lambda>r s. added h0 (length (columnsAdded (fst r))) s) (\<lambda>msg. added h0 0)" for cols
    apply (rule hoareE_bind [where Q' = ?Q])
     apply (rule hoareE_weaken [OF addMissingColumns_added [OF lg, of no_changes]])
       apply simp_all
    apply (rule hoareE_return)
    apply simp
    done
  have fin: "hoareE (added h0 (length (columnsAdded (fst branch))))
               (if snd branch then returnE (fst branch)
                else seqE (syncIndexes E t log) (returnE (fst branch)))
               ?Q (\<lambda>msg. added h0 0)" for branch :: "schema_changes \<times> bool"
    apply (rule hoareE_if)
     apply (rule hoareE_return, simp)
    apply (rule hoareE_seq [OF never_throws_any [OF syncIndexes_never_throws [OF lg]]])
    apply (rule hoareE_return, simp)
    done
  show ?thesis
    unfolding migrateSchema_def
    apply (rule hoareE_catch [where R' = "\<lambda>msg. added h0 0"])
     apply (rule hoareE_bind [OF src])
     apply (rule hoareE_if)
      apply (rule hoareE_seq [OF never_throws_any [OF lg]])
      apply (rule hoareE_return, simp)
     apply (rule hoareE_bind [OF ex])
     apply (rule hoareE_bind [where Q' = "\<lambda>r s. added h0 (length (columnsAdded (fst r))) s"])
      apply (rule hoareE_if)
       apply (rule ctt)
      apply (rule amc)
     apply (rule fin)
    apply (rule hoareE_seq [OF never_throws_any [OF lg]])
    apply (rule hoareE_return, simp)
    done
qed

lemma schemaCase_added:
  "hoareE (added h0 0) (schemaCase E mid t) (\<lambda>n s. added h0 n s) (\<lambda>msg s. \<exists>k. added h0 k s)"
proof -
  have lm: "hoareE (added h0 n) (if b then logMigration E mid t lvl msg else returnE ())
              (\<lambda>u. added h0 n) (\<lambda>msg s. \<exists>k. added h0 k s)" for n b lvl msg
    by (rule hoareE_weaken [where P' = "added h0 n" and Q' = "\<lambda>u. added h0 n"
              and R' = "\<lambda>msg. added h0 n"])
       (rule hoareE_keeps, intro keeps_intros logMigration_added, auto)
  show ?thesis
    unfolding schemaCase_def
    apply (rule hoareE_bind [where Q' = "\<lambda>ch s. added h0 (length (columnsAdded ch)) s"])
     apply (rule hoareE_weaken [OF migrateSchema_added])
         apply (rule log_added)
        apply (rule log_since)
         apply (simp_all add: schema_kinds_def) [5]
    apply (rule hoareE_seq [OF lm])
    apply (rule hoareE_seq [OF lm])
    apply (rule hoareE_seq [OF lm])
    apply (rule hoareE_return)
    apply assumption
    done
qed

lemma migrateCollectionBody_schema_added:
  "hoareE (added h0 0) (migrateCollectionBody E mid t (Some ''schema''))
     (\<lambda>n s. added h0 n s) (\<lambda>msg s. \<exists>k. added h0 k s)"
proof -
  have k0: "hoareE (added h0 0) m (\<lambda>u. added h0 0) (\<lambda>msg s. \<exists>k. added h0 k s)"
    if "keeps (added h0 0) m" for m :: "'a action"
    by (rule hoareE_weaken [OF hoareE_keeps [OF that]]) auto
  have cols: "keeps (added h0 0) (getTableColumns E SourceDb t)"
    by (intro added_from_since getTableColumns_since) (simp_all add: schema_kinds_def)
  show ?thesis
    unfolding migrateCollectionBody_def Let_def
    apply (rule hoareE_seq [OF k0 [OF logMigration_added]])
    apply (rule hoareE_bind [OF k0 [OF cols]])
    apply (rule hoareE_seq [OF k0 [OF added_logger_write]])
    apply (rule hoareE_seq [OF k0 [OF added_logger_write]])
    apply (simp add: dispatchRule_def)
    apply (rule schemaCase_added)
    done
qed

lemma migrateCollection_schema_added:
  assumes "rule_or (coll_rule c) g = Some ''schema''"
  shows "hoareE (added h0 0) (migrateCollection E mid g c results)
     (\<lambda>res s. \<exists>entry k. res = results @ [entry] \<and> collection entry = coll_name c
                 \<and> rule entry = Some ''schema''
                 \<and> (status entry = ''success'' \<and> rowsMigrated entry = Some k
                      \<or> status entry = ''failed'' \<and> rowsMigrated entry = None)
                 \<and> added h0 k s)
     (\<lambda>msg s. False)"
proof -
  let ?X = "\<lambda>s. \<exists>k. added h0 k s"
  have lw: "hoareE ?X (logger_write lvl msg) (\<lambda>u. ?X) R" for lvl msg R
    unfolding hoareE_def logger_write_def added_def by simp
  have lm: "hoareE ?X (logMigration E mid t lvl msg) (\<lambda>u. ?X) (\<lambda>msg. ?X)" for t lvl msg
    by (rule hoareE_keeps) (intro keeps_ex logMigration_added)
  have lm_nt: "hoareE ?X (logMigration E mid t lvl msg) (\<lambda>u. ?X) (\<lambda>msg s. False)" for t lvl msg
    unfolding logMigration_def
    by (rule hoareE_catch [where R' = "\<lambda>msg. ?X"])
       (rule hoareE_keeps, intro keeps_ex added_exec, simp_all add: lw)
  have lw0: "hoareE (added h0 0) (logger_write lvl msg) (\<lambda>u. added h0 0) R" for lvl msg R
    unfolding hoareE_def logger_write_def added_def by simp
  show ?thesis
    unfolding migrateCollection_def Let_def assms
    apply (rule hoareE_seq [OF lw0])
    apply (rule hoareE_catch [where R' = "\<lambda>msg. ?X"])
     apply (rule hoareE_bind [OF migrateCollectionBody_schema_added])
     apply (rule hoareE_return)
     apply simp
    apply (rule hoareE_seq [OF lw])
    apply (rule hoareE_seq [OF lm_nt])
    apply (rule hoareE_return)
    apply auto
    done
qed

lemma added_events_during:
  assumes "added (hist s) k (snd (m s))"
  shows "length (filter column_added (events_during m s)) = k
         \<and> list_all (\<lambda>e. \<not> moves_rows e) (events_during m s)"
  using assms by (auto simp: added_def events_during_def)

text \<open>
  C8.  A task whose effective rule is \<^verbatim>\<open>schema\<close> appends one entry for its table.
  When the entry reports success, its \<^verbatim>\<open>rowsMigrated\<close> is the number of
  \<^verbatim>\<open>ADD COLUMN\<close> statements that succeeded on the target during the task; when it
  reports failure, it has no count.  In both cases the task issues no truncate, batch
  insert, row insert or upsert.
\<close>

theorem schema_rule_reports_columns_added:
  assumes "rule_or (coll_rule c) g = Some ''schema''"
  shows "\<exists>entry. fst (migrateCollection E mid g c results s) = Inr (results @ [entry])
      \<and> collection entry = coll_name c \<and> rule entry = Some ''schema''
      \<and> (status entry = ''success''
            \<and> rowsMigrated entry
                = Some (length (filter column_added
                                  (events_during (migrateCollection E mid g c results) s)))
          \<or> status entry = ''failed'' \<and> rowsMigrated entry = None)
      \<and> list_all (\<lambda>e. \<not> moves_rows e) (events_during (migrateCollection E mid g c results) s)"
proof -
  obtain res s' where run: "migrateCollection E mid g c results s = (res, s')"
    by (cases "migrateCollection E mid g c results s")
  have a0: "added (hist s) 0 s" by (simp add: added_def)
  note h = migrateCollection_schema_added [OF assms, of "hist s" E mid results]
  show ?thesis
  proof (cases res)
    case (Inl msg)
    with hoareE_Inl [OF h a0 run [unfolded Inl]] show ?thesis by simp
  next
    case (Inr rs)
    from hoareE_Inr [OF h a0 run [unfolded Inr]]
    obtain entry k where e: "rs = results @ [entry]" "collection entry = coll_name c"
      "rule entry = Some ''schema''"
      "status entry = ''success'' \<and> rowsMigrated entry = Some k
         \<or> status entry = ''failed'' \<and> rowsMigrated entry = None"
      "added (hist s) k s'"
      by blast
    have "added (hist s) k (snd (migrateCollection E mid g c results s))"
      using e(5) run by simp
    from added_events_during [where m = "migrateCollection E mid g c results", OF this]
      e(1-4) run Inr show ?thesis
      by auto
  qed
qed

text \<open>
  An instance: the rule \<^verbatim>\<open>schema\<close> given on the task itself.
\<close>

theorem schema_rule_reports_columns_added_witness:
  "rule_or (coll_rule \<lparr>coll_name = ''v'', coll_rule = Some ''schema''\<rparr>) (Some ''overwrite'')
     = Some ''schema''
   \<and> (\<exists>entry. fst (migrateCollection quiet_env ''m1'' (Some ''overwrite'')
                     \<lparr>coll_name = ''v'', coll_rule = Some ''schema''\<rparr> [] initial_state)
                = Inr [entry]
        \<and> collection entry = ''v'' \<and> rule entry = Some ''schema''
        \<and> (status entry = ''success''
              \<and> rowsMigrated entry
                  = Some (length (filter column_added
                       (events_during (migrateCollection quiet_env ''m1'' (Some ''overwrite'')
                          \<lparr>coll_name = ''v'', coll_rule = Some ''schema''\<rparr> []) initial_state)))
            \<or> status entry = ''failed'' \<and> rowsMigrated entry = None)
        \<and> list_all (\<lambda>e. \<not> moves_rows e)
             (events_during (migrateCollection quiet_env ''m1'' (Some ''overwrite'')
                \<lparr>coll_name = ''v'', coll_rule = Some ''schema''\<rparr> []) initial_state))"
proof -
  have h: "rule_or (coll_rule \<lparr>coll_name = ''v'', coll_rule = Some ''schema''\<rparr>)
             (Some ''overwrite'') = Some ''schema''"
    by (simp add: rule_or_def)
  from schema_rule_reports_columns_added [OF h, of quiet_env "''m1''" "[]" initial_state] h
  show ?thesis by simp
qed

section \<open>A rule that no case matches\<close>

lemma dispatchRule_unknown:
  assumes "r \<notin> {Some ''schema'', Some ''overwrite'', Some ''upsert'', Some ''ignore''}"
  shows "dispatchRule E mid t r jc ac = returnE 0"
  using assms by (simp add: dispatchRule_def)

lemma migrateCollectionBody_unknown:
  assumes r: "r \<notin> {Some ''schema'', Some ''overwrite'', Some ''upsert'', Some ''ignore''}"
    and nf: "\<forall>h. fault E h SourceDb (SelectColumns t) = None"
  shows "\<exists>s'. migrateCollectionBody E mid t r s = (Inr 0, s')
     \<and> map (\<lambda>e. (ev_conn e, ev_stmt e)) (take (length (hist s') - length (hist s)) (hist s'))
         = [(SourceDb, SelectColumns t),
            (AppDb, InsertMigrationLog mid t ''info''
                      (''Starting migration with rule: '' @ show_rule r))]"
proof -
  from logMigration_run [of E mid t "''info''" "''Starting migration with rule: '' @ show_rule r" s]
  obtain s1 where l1: "logMigration E mid t ''info''
        (''Starting migration with rule: '' @ show_rule r) s = (Inr (), s1)
     \<and> hist s1 = \<lparr>ev_conn = AppDb, ev_stmt = InsertMigrationLog mid t ''info''
                (''Starting migration with rule: '' @ show_rule r),
                ev_role = session_role s,
                ev_ok = (fault E (hist s) AppDb (InsertMigrationLog mid t ''info''
                           (''Starting migration with rule: '' @ show_rule r)) = None)\<rparr> # hist s"
    by (elim exE)
  note l = l1 [THEN conjunct1] and h1 = l1 [THEN conjunct2]
  from getTableColumns_run [OF nf [rule_format], of s1]
  obtain s2 where c2: "getTableColumns E SourceDb t s1 = (Inr (db_columns E (hist s1) SourceDb t), s2)
     \<and> hist s2 = \<lparr>ev_conn = SourceDb, ev_stmt = SelectColumns t,
                   ev_role = session_role s1, ev_ok = True\<rparr> # hist s1"
    by (elim exE)
  note c = c2 [THEN conjunct1] and h2 = c2 [THEN conjunct2]
  let ?jc = "getJsonColumns (db_columns E (hist s1) SourceDb t)"
  let ?ac = "getArrayColumns (db_columns E (hist s1) SourceDb t)"
  let ?m1 = "''Table '' @ t @ '' - JSON columns: ''
               @ (if js_join '', '' ?jc = [] then ''none'' else js_join '', '' ?jc)"
  let ?m2 = "''Table '' @ t @ '' - Array columns: ''
               @ (if js_join '', '' ?ac = [] then ''none'' else js_join '', '' ?ac)"
  from logger_write_run [of Info ?m1 s2]
  obtain s3 where w1: "logger_write Info ?m1 s2 = (Inr (), s3)" and h3: "hist s3 = hist s2"
    by (elim exE conjE)
  from logger_write_run [of Info ?m2 s3]
  obtain s4 where w2: "logger_write Info ?m2 s3 = (Inr (), s4)" and h4: "hist s4 = hist s3"
    by (elim exE conjE)
  have A: "migrateCollectionBody E mid t r s = (Inr 0, s4)"
    unfolding migrateCollectionBody_def Let_def dispatchRule_unknown [OF r]
    by (simp only: seqE_def bindE_def returnE_def l c w1 w2 prod.case sum.case)
  have B: "map (\<lambda>e. (ev_conn e, ev_stmt e)) (take (length (hist s4) - length (hist s)) (hist s4))
         = [(SourceDb, SelectColumns t),
            (AppDb, InsertMigrationLog mid t ''info''
                      (''Starting migration with rule: '' @ show_rule r))]"
    by (simp add: h1 h2 h3 h4)
  show ?thesis
    by (rule exI [of _ s4]) (rule conjI [OF A B])
qed

text \<open>
  C10.  Let the effective rule of a task be none of \<^verbatim>\<open>schema\<close>, \<^verbatim>\<open>overwrite\<close>,
  \<^verbatim>\<open>upsert\<close> and \<^verbatim>\<open>ignore\<close>, and let the query for the columns of the source table,
  which precedes the \<^verbatim>\<open>switch\<close>, succeed.  Then the task appends an entry with status
  \<^verbatim>\<open>success\<close> and \<^verbatim>\<open>rowsMigrated\<close> 0, and the only calls it makes are the log row
  that announces the rule and that query (listed here the most recent first): nothing is
  sent to the target.
\<close>

theorem unknown_rule_recorded_as_success:
  assumes "rule_or (coll_rule c) g
             \<notin> {Some ''schema'', Some ''overwrite'', Some ''upsert'', Some ''ignore''}"
    and "\<forall>h. fault E h SourceDb (SelectColumns (coll_name c)) = None"
  shows "fst (migrateCollection E mid g c results s)
           = Inr (results @ [\<lparr>collection = coll_name c, rule = rule_or (coll_rule c) g,
                                rowsMigrated = Some 0, status = ''success'', error = None\<rparr>])
       \<and> map (\<lambda>e. (ev_conn e, ev_stmt e)) (events_during (migrateCollection E mid g c results) s)
           = [(SourceDb, SelectColumns (coll_name c)),
              (AppDb, InsertMigrationLog mid (coll_name c) ''info''
                        (''Starting migration with rule: ''
                           @ show_rule (rule_or (coll_rule c) g)))]"
proof -
  let ?r = "rule_or (coll_rule c) g" and ?t = "coll_name c"
  from logger_write_run [of Info
        "''Processing collection: '' @ ?t @ '' with rule: '' @ show_rule ?r" s]
  obtain s1 where w: "logger_write Info
        (''Processing collection: '' @ ?t @ '' with rule: '' @ show_rule ?r) s = (Inr (), s1)"
    and h1: "hist s1 = hist s"
    by (elim exE conjE)
  from migrateCollectionBody_unknown [OF assms, of mid s1]
  obtain s2 where b2: "migrateCollectionBody E mid ?t ?r s1 = (Inr 0, s2)
    \<and> map (\<lambda>e. (ev_conn e, ev_stmt e)) (take (length (hist s2) - length (hist s1)) (hist s2))
         = [(SourceDb, SelectColumns ?t),
            (AppDb, InsertMigrationLog mid ?t ''info''
                      (''Starting migration with rule: '' @ show_rule ?r))]"
    by (elim exE)
  note b = b2 [THEN conjunct1] and h2 = b2 [THEN conjunct2]
  have run: "migrateCollection E mid g c results s
        = (Inr (results @ [\<lparr>collection = ?t, rule = ?r, rowsMigrated = Some 0,
                             status = ''success'', error = None\<rparr>]), s2)"
    unfolding migrateCollection_def Let_def
    by (simp only: seqE_def bindE_def catchE_def returnE_def w b prod.case sum.case)
  show ?thesis
    using h2 by (simp add: run events_during_def h1)
qed

text \<open>
  An instance: the rule \<^verbatim>\<open>bogus\<close>.
\<close>

theorem unknown_rule_recorded_as_success_witness:
  "rule_or (coll_rule \<lparr>coll_name = ''u'', coll_rule = Some ''bogus''\<rparr>) (Some ''overwrite'')
     \<notin> {Some ''schema'', Some ''overwrite'', Some ''upsert'', Some ''ignore''}
   \<and> (\<forall>h. fault quiet_env h SourceDb (SelectColumns ''u'') = None)
   \<and> fst (migrateCollection quiet_env ''m1'' (Some ''overwrite'')
            \<lparr>coll_name = ''u'', coll_rule = Some ''bogus''\<rparr> [] initial_state)
       = Inr [\<lparr>collection = ''u'', rule = Some ''bogus'', rowsMigrated = Some 0,
               status = ''success'', error = None\<rparr>]
   \<and> map (\<lambda>e. (ev_conn e, ev_stmt e))
        (events_during (migrateCollection quiet_env ''m1'' (Some ''overwrite'')
           \<lparr>coll_name = ''u'', coll_rule = Some ''bogus''\<rparr> []) initial_state)
       = [(SourceDb, SelectColumns ''u''),
          (AppDb, InsertMigrationLog ''m1'' ''u'' ''info''
                    ''Starting migration with rule: bogus'')]"
proof -
  have r: "rule_or (Some ''bogus'') (Some ''overwrite'') = Some ''bogus''"
    by (simp add: rule_or_def)
  have h1: "rule_or (coll_rule \<lparr>coll_name = ''u'', coll_rule = Some ''bogus''\<rparr>)
              (Some ''overwrite'')
            \<notin> {Some ''schema'', Some ''overwrite'', Some ''upsert'', Some ''ignore''}"
    by (simp add: r)
  have h2: "\<forall>h. fault quiet_env h SourceDb
                  (SelectColumns (coll_name \<lparr>coll_name = ''u'', coll_rule = Some ''bogus''\<rparr>))
                = None"
    by (simp add: quiet_env_def)
  from unknown_rule_recorded_as_success [OF h1 h2, of "''m1''" "[]" initial_state] h1 h2
  show ?thesis by (simp add: r show_rule_def)
qed

section \<open>One entry for each task\<close>

lemma migrateCollection_run:
  "migrateCollection E mid g c rs s
     = (Inr (rs @ [entry_for g c (task_outcome E mid g c s)]), after_task E mid g c s)"
proof -
  let ?r = "rule_or (coll_rule c) g" and ?t = "coll_name c"
  let ?m = "''Processing collection: '' @ ?t @ '' with rule: '' @ show_rule ?r"
  obtain s1 where w: "logger_write Info ?m s = (Inr (), s1)"
    by (simp add: logger_write_def)
  obtain x s2 where b: "migrateCollectionBody E mid ?t ?r s1 = (x, s2)"
    by (cases "migrateCollectionBody E mid ?t ?r s1")
  have s1: "snd (logger_write Info ?m s) = s1" by (simp only: w snd_conv)
  have out: "task_outcome E mid g c s = x"
    unfolding task_outcome_def by (simp only: s1 b fst_conv)
  show ?thesis
  proof (cases x)
    case (Inr n)
    have run: "migrateCollection E mid g c rs' s = (Inr (rs' @ [entry_for g c (Inr n)]), s2)"
      for rs'
      unfolding migrateCollection_def Let_def entry_for_def
      by (simp only: seqE_def bindE_def catchE_def returnE_def w b Inr prod.case sum.case)
    have "after_task E mid g c s = s2"
      unfolding after_task_def by (simp only: run snd_conv)
    with run [of rs] out Inr show ?thesis by simp
  next
    case (Inl msg)
    let ?e = "''Error migrating '' @ ?t @ '':''"
    obtain s3 where w3: "logger_write Error ?e s2 = (Inr (), s3)"
      by (simp add: logger_write_def)
    from logMigration_run [of E mid ?t "''error''" "''Migration failed: '' @ msg" s3]
    obtain s4 where l4: "logMigration E mid ?t ''error'' (''Migration failed: '' @ msg) s3
         = (Inr (), s4)
       \<and> hist s4 = \<lparr>ev_conn = AppDb, ev_stmt = InsertMigrationLog mid ?t ''error''
                        (''Migration failed: '' @ msg),
                      ev_role = session_role s3,
                      ev_ok = (fault E (hist s3) AppDb (InsertMigrationLog mid ?t ''error''
                                 (''Migration failed: '' @ msg)) = None)\<rparr> # hist s3"
      by (elim exE)
    note l = l4 [THEN conjunct1]
    have run: "migrateCollection E mid g c rs' s = (Inr (rs' @ [entry_for g c (Inl msg)]), s4)"
      for rs'
      unfolding migrateCollection_def Let_def entry_for_def
      by (simp only: seqE_def bindE_def catchE_def returnE_def w b Inl w3 l prod.case sum.case)
    have "after_task E mid g c s = s4"
      unfolding after_task_def by (simp only: run snd_conv)
    with run [of rs] out Inl show ?thesis by simp
  qed
qed

lemma entry_for_props:
  "collection (entry_for g c x) = coll_name c \<and> rule (entry_for g c x) = rule_or (coll_rule c) g
   \<and> entry_ok (entry_for g c x)"
  by (cases x) (simp_all add: entry_for_def entry_ok_def)

lemma job_entries_props:
  "map collection (job_entries E mid g cs s) = map coll_name cs
   \<and> map rule (job_entries E mid g cs s) = map (\<lambda>c. rule_or (coll_rule c) g) cs
   \<and> list_all entry_ok (job_entries E mid g cs s)"
  by (induction cs arbitrary: s) (simp_all add: entry_for_props)

lemma collections_run:
  "\<exists>s'. forE cs (migrateCollection E mid g) rs s = (Inr (rs @ job_entries E mid g cs s), s')"
proof (induction cs arbitrary: rs s)
  case Nil
  show ?case by (simp add: returnE_def)
next
  case (Cons c cs)
  let ?e = "entry_for g c (task_outcome E mid g c s)"
  from Cons.IH [of "rs @ [?e]" "after_task E mid g c s"]
  obtain s' where rest:
    "forE cs (migrateCollection E mid g) (rs @ [?e]) (after_task E mid g c s)
       = (Inr ((rs @ [?e]) @ job_entries E mid g cs (after_task E mid g c s)), s')"
    by (elim exE)
  have "forE (c # cs) (migrateCollection E mid g) rs s
          = (Inr (rs @ job_entries E mid g (c # cs) s), s')"
    using rest by (simp add: bindE_def migrateCollection_run)
  then show ?case by (rule exI)
qed

lemma job_exec_other:
  assumes "c \<noteq> AppDb"
  shows "keeps (\<lambda>s. job s = j) (exec E c q)"
  unfolding keeps_def hoareE_def exec_def apply_effect_def
  using assms by (auto split: option.splits stmt.splits)

lemma destroyHandles_job: "keeps (\<lambda>s. job s = j) (destroyHandles E)"
  unfolding destroyHandles_def
  by (rule keeps_state) (intro keeps_intros job_exec_other, simp_all)

text \<open>
  C1.  Let both connection records be found, and let the lookups of the connections and
  the final update of the job's row not fail.  Then the job ends with status
  \<^verbatim>\<open>completed\<close>, and its result is the list that holds, for each task in the order of
  the tasks, the entry of the outcome of that task's \<^verbatim>\<open>try\<close> block: the success entry
  with the count when the block returns, the failed entry with the message when it
  throws.  Each entry carries the table and the effective rule of its task.  A task
  itself never throws: it appends its entry to the list built so far, and the loop goes
  on from the state the task has left.
\<close>

theorem every_task_gets_one_result:
  assumes find: "\<forall>h i. fault E h AppDb (FindConnection i) = None"
    and upd: "\<forall>h rs. fault E h AppDb (UpdateMigration mid ''completed'' (Some rs) None) = None"
    and src: "connections E sid \<noteq> None" and tgt: "connections E tid \<noteq> None"
  shows "job_status (job (snd (executeMigration E mid sid tid g cs s))) = ''completed''
       \<and> job_result (job (snd (executeMigration E mid sid tid g cs s)))
           = Some (job_entries E mid g cs (loop_start E sid tid s))
       \<and> map collection (job_entries E mid g cs (loop_start E sid tid s)) = map coll_name cs
       \<and> map rule (job_entries E mid g cs (loop_start E sid tid s))
           = map (\<lambda>c. rule_or (coll_rule c) g) cs
       \<and> list_all entry_ok (job_entries E mid g cs (loop_start E sid tid s))
       \<and> migrateCollection E mid g c rs s0
           = (Inr (rs @ [entry_for g c (task_outcome E mid g c s0)]), after_task E mid g c s0)"
proof -
  let ?body = "catchE
          (bindE (query E AppDb (FindConnection sid) (\<lambda>h. connections E sid))
             (\<lambda>sourceConn.
                bindE (query E AppDb (FindConnection tid) (\<lambda>h. connections E tid))
                  (\<lambda>targetConn.
                     if sourceConn = None \<or> targetConn = None
                     then throwE ''Source or target connection not found''
                     else
                       seqE openHandles
                         (bindE (forE cs (migrateCollection E mid g) [])
                            (\<lambda>results.
                               seqE (exec E AppDb
                                       (UpdateMigration mid ''completed'' (Some results) None))
                                 (logger_write Info
                                    (''Migration '' @ mid @ '' completed'')))))))
          (\<lambda>err.
             seqE (logger_write Error (''Migration '' @ mid @ '' failed:''))
               (exec E AppDb (UpdateMigration mid ''failed'' None (Some err))))"
  let ?results = "job_entries E mid g cs (loop_start E sid tid s)"
  obtain s1 where q1: "query E AppDb (FindConnection sid) (\<lambda>h. connections E sid) s
                        = (Inr (connections E sid), s1)"
    by (simp add: query_def bindE_def returnE_def exec_ok find)
  obtain s2 where q2: "query E AppDb (FindConnection tid) (\<lambda>h. connections E tid) s1
                        = (Inr (connections E tid), s2)"
    by (simp add: query_def bindE_def returnE_def exec_ok find)
  obtain s3 where o: "openHandles s2 = (Inr (), s3)"
    by (simp add: openHandles_def)
  have start: "loop_start E sid tid s = s3"
    unfolding loop_start_def by (simp only: q1 q2 o snd_conv)
  from collections_run [of cs E mid g "[]" s3]
  obtain s4 where loop: "forE cs (migrateCollection E mid g) [] s3 = (Inr ?results, s4)"
    unfolding start by auto
  let ?s5 = "apply_effect AppDb (UpdateMigration mid ''completed'' (Some ?results) None)
          (s4\<lparr>hist := \<lparr>ev_conn = AppDb,
                         ev_stmt = UpdateMigration mid ''completed'' (Some ?results) None,
                         ev_role = session_role s4, ev_ok = True\<rparr> # hist s4\<rparr>)"
  have u: "exec E AppDb (UpdateMigration mid ''completed'' (Some ?results) None) s4
             = (Inr (), ?s5)"
    by (rule exec_ok) (simp add: upd)
  obtain s6 where w: "logger_write Info (''Migration '' @ mid @ '' completed'') ?s5 = (Inr (), s6)"
    and j6: "job s6 = job ?s5"
    by (simp add: logger_write_def)
  have j5: "job_status (job ?s5) = ''completed''" "job_result (job ?s5) = Some ?results"
    by (simp_all add: apply_effect_def)
  have body: "?body s = (Inr (), s6)"
    using src tgt
    by (simp only: seqE_def bindE_def catchE_def q1 q2 o loop u w prod.case sum.case if_False
          simp_thms)
  have "job (snd (executeMigration E mid sid tid g cs s)) = job s6"
    unfolding executeMigration_def
    by (rule finallyE_snd [where I = "\<lambda>s'. job s' = job s6" and m = "?body" and s = s
                             and fin = "destroyHandles E", OF body destroyHandles_job])
      (rule refl)
  with j5 j6 have job: "job_status (job (snd (executeMigration E mid sid tid g cs s)))
                          = ''completed''"
    "job_result (job (snd (executeMigration E mid sid tid g cs s))) = Some ?results"
    by simp_all
  note props = job_entries_props [of E mid g cs "loop_start E sid tid s"]
  show ?thesis
    by (intro conjI job props [THEN conjunct1] props [THEN conjunct2, THEN conjunct1]
          props [THEN conjunct2, THEN conjunct2] migrateCollection_run)
qed

text \<open>
  Actions that return from every state.
\<close>

lemma returns_D: "returns m P \<Longrightarrow> \<exists>x s'. m s = (Inr x, s') \<and> P x"
  unfolding returns_def by (rule spec)

lemma returns_return: "P x \<Longrightarrow> returns (returnE x) P"
  by (simp add: returns_def returnE_def)

lemma returns_bind:
  assumes "returns m P" and "\<And>x. P x \<Longrightarrow> returns (f x) Q"
  shows "returns (bindE m f) Q"
  unfolding returns_def
proof
  fix s
  from returns_D [OF assms(1), of s] obtain x s1 where m: "m s = (Inr x, s1)" and p: "P x"
    by blast
  from returns_D [OF assms(2) [OF p], of s1] obtain y s2 where f: "f x s1 = (Inr y, s2)"
    and q: "Q y"
    by blast
  have "bindE m f s = (Inr y, s2)"
    by (simp only: bindE_run [where m = m and s = s, OF m] f)
  with q show "\<exists>y s'. bindE m f s = (Inr y, s') \<and> Q y" by blast
qed

lemma returns_seq: "returns m P \<Longrightarrow> returns k Q \<Longrightarrow> returns (seqE m k) Q"
  unfolding seqE_def by (erule returns_bind)

lemma returns_catch:
  assumes "returns m P"
  shows "returns (catchE m h) P"
  unfolding returns_def
proof
  fix s
  from returns_D [OF assms, of s] obtain x s1 where m: "m s = (Inr x, s1)" and p: "P x"
    by blast
  from catchE_ok [where m = m and s = s and h = h, OF m] p show "\<exists>x s'. catchE m h s = (Inr x, s') \<and> P x" by blast
qed

lemma returns_exec:
  assumes "\<forall>h. fault E h c q = None"
  shows "returns (exec E c q) (\<lambda>u. True)"
  unfolding returns_def using assms by (simp add: exec_ok)

lemma returns_query:
  assumes "\<forall>h. fault E h c q = None" and "\<And>h. P (answer h)"
  shows "returns (query E c q answer) P"
  unfolding returns_def using assms by (simp add: query_def bindE_def returnE_def exec_ok)

lemma returns_logger_write: "returns (logger_write lvl msg) (\<lambda>u. True)"
  by (simp add: returns_def logger_write_def)

lemma returns_logger_writes: "returns (logger_writes es) (\<lambda>u. True)"
  by (simp add: returns_def logger_writes_def)

lemma returns_logMigration: "returns (logMigration E mid t lvl msg) (\<lambda>u. True)"
  unfolding returns_def using logMigration_run [of E mid t lvl msg] by blast

lemma returns_count:
  assumes "\<And>x n. returns (f x n) (\<lambda>k. k = Suc n)"
  shows "returns (forE xs f n) (\<lambda>k. k = n + length xs)"
proof (induction xs arbitrary: n)
  case Nil
  show ?case by (simp add: returns_return)
next
  case (Cons x xs)
  show ?case
    unfolding forE.simps
  proof (rule returns_bind [OF assms])
    fix k assume "k = Suc n"
    with Cons.IH [of "Suc n"] show "returns (forE xs f k) (\<lambda>k. k = n + length (x # xs))"
      by simp
  qed
qed

text \<open>
  A task under the \<^verbatim>\<open>upsert\<close> rule whose statements do not fail returns the number of
  rows of its table; a task whose column query fails throws the message of that failure.
\<close>

lemma upsertData_returns:
  assumes "\<forall>h. fault E h SourceDb (SelectPrimaryKey t) = None"
    and "\<forall>h. fault E h SourceDb (SelectAll t) = None"
    and "\<forall>h k r. fault E h TargetDb (InsertOnConflictMerge t k r) = None"
  shows "returns (upsertData E t jc ac) (\<lambda>n. n = length (source_rows E t))"
proof -
  have turn: "returns
      (seqE (logger_writes es)
         (catchE (seqE (exec E TargetDb (InsertOnConflictMerge t k r)) (returnE (n + 1))) h))
      (\<lambda>k. k = Suc n)" for es k r n h
  proof -
    have ins: "\<forall>h. fault E h TargetDb (InsertOnConflictMerge t k r) = None"
      using assms(3) by simp
    show ?thesis
      by (rule returns_seq [OF returns_logger_writes], rule returns_catch,
          rule returns_seq [OF returns_exec [OF ins]], rule returns_return) simp
  qed
  have loop: "returns
      (forE rows
         (\<lambda>r count.
            let prepared = prepareRowForInsert (json_parses E) r jc ac
            in seqE (logger_writes (snd prepared))
                 (catchE
                    (seqE (exec E TargetDb (InsertOnConflictMerge t k (fst prepared)))
                       (returnE (count + 1)))
                    (\<lambda>err.
                       seqE (logger_write Error
                               (''Upsert failed for row in '' @ t @ '': '' @ err))
                         (returnE count))))
         0)
      (\<lambda>n. n = 0 + length rows)" for rows k
    unfolding Let_def by (rule returns_count) (rule turn)
  show ?thesis
    unfolding upsertData_def Let_def
  proof (rule returns_bind [OF returns_query [OF assms(1), of "\<lambda>x. True"]])
    show "True" for h :: "event list" ..
  next
    fix pkRows :: "string list"
    show "returns
      (bindE (query E SourceDb (SelectAll t) (\<lambda>h. source_rows E t))
         (\<lambda>rows.
            forE rows
              (\<lambda>r count.
                 seqE (logger_writes (snd (prepareRowForInsert (json_parses E) r jc ac)))
                   (catchE
                      (seqE (exec E TargetDb
                               (InsertOnConflictMerge t
                                  (case pkRows of [] \<Rightarrow> ''id''
                                   | c # cs \<Rightarrow> if c \<noteq> [] then c else ''id'')
                                  (fst (prepareRowForInsert (json_parses E) r jc ac))))
                         (returnE (count + 1)))
                      (\<lambda>err.
                         seqE (logger_write Error
                                 (''Upsert failed for row in '' @ t @ '': '' @ err))
                           (returnE count))))
              0))
      (\<lambda>n. n = length (source_rows E t))"
    proof (rule returns_bind [OF returns_query [OF assms(2),
                                of "\<lambda>rows. rows = source_rows E t"]])
      show "source_rows E t = source_rows E t" for h :: "event list" ..
    next
      fix rows assume "rows = source_rows E t"
      with loop [of rows, unfolded Let_def] show "returns
        (forE rows
          (\<lambda>r count.
             seqE (logger_writes (snd (prepareRowForInsert (json_parses E) r jc ac)))
               (catchE
                  (seqE (exec E TargetDb
                           (InsertOnConflictMerge t
                              (case pkRows of [] \<Rightarrow> ''id''
                               | c # cs \<Rightarrow> if c \<noteq> [] then c else ''id'')
                              (fst (prepareRowForInsert (json_parses E) r jc ac))))
                     (returnE (count + 1)))
                  (\<lambda>err.
                     seqE (logger_write Error
                             (''Upsert failed for row in '' @ t @ '': '' @ err))
                       (returnE count))))
          0)
        (\<lambda>n. n = length (source_rows E t))"
        by simp
    qed
  qed
qed

lemma upsert_outcome:
  assumes r: "rule_or (coll_rule c) g = Some ''upsert''"
    and cols: "\<forall>h. fault E h SourceDb (SelectColumns (coll_name c)) = None"
    and key: "\<forall>h. fault E h SourceDb (SelectPrimaryKey (coll_name c)) = None"
    and rows: "\<forall>h. fault E h SourceDb (SelectAll (coll_name c)) = None"
    and ins: "\<forall>h k r. fault E h TargetDb (InsertOnConflictMerge (coll_name c) k r) = None"
  shows "task_outcome E mid g c s = Inr (length (source_rows E (coll_name c)))"
proof -
  let ?t = "coll_name c"
  have d: "returns (dispatchRule E mid ?t (Some ''upsert'') jc ac)
             (\<lambda>n. n = length (source_rows E ?t))" for jc ac
  proof -
    have e: "dispatchRule E mid ?t (Some ''upsert'') jc ac
               = bindE (upsertData E ?t jc ac)
                   (\<lambda>rowsMigrated.
                      seqE (logMigration E mid ?t ''info''
                              (''Upsert complete: '' @ show_nat rowsMigrated @ '' rows''))
                        (returnE rowsMigrated))"
      by (simp add: dispatchRule_def)
    show ?thesis
      unfolding e
      by (rule returns_bind [OF upsertData_returns [OF key rows ins]],
          rule returns_seq [OF returns_logMigration], rule returns_return)
  qed
  have "returns (migrateCollectionBody E mid ?t (Some ''upsert''))
          (\<lambda>n. n = length (source_rows E ?t))"
    unfolding migrateCollectionBody_def Let_def getTableColumns_def
    by (rule returns_seq [OF returns_logMigration],
        rule returns_bind [OF returns_query [OF cols, of "\<lambda>x. True"]], rule TrueI,
        rule returns_seq [OF returns_logger_write], rule returns_seq [OF returns_logger_write],
        rule d)
  from returns_D [OF this] show ?thesis
    unfolding task_outcome_def r by (metis fst_conv)
qed

lemma columns_fail_outcome:
  assumes "\<forall>h. fault E h SourceDb (SelectColumns (coll_name c)) = Some msg"
  shows "task_outcome E mid g c s = Inl msg"
proof -
  let ?r = "rule_or (coll_rule c) g" and ?t = "coll_name c"
  let ?s1 = "snd (logger_write Info
                    (''Processing collection: '' @ ?t @ '' with rule: '' @ show_rule ?r) s)"
  from logMigration_run [of E mid ?t "''info''" "''Starting migration with rule: '' @ show_rule ?r"
         ?s1]
  obtain s2 where l: "logMigration E mid ?t ''info''
                        (''Starting migration with rule: '' @ show_rule ?r) ?s1 = (Inr (), s2)"
    by blast
  obtain s3 where q: "getTableColumns E SourceDb ?t s2 = (Inl msg, s3)"
    using assms by (simp add: getTableColumns_def query_def bindE_def exec_def)
  have "fst (migrateCollectionBody E mid ?t ?r ?s1) = Inl msg"
    unfolding migrateCollectionBody_def
    by (simp only: seqE_def bindE_def l q prod.case sum.case fst_conv)
  then show ?thesis unfolding task_outcome_def .
qed

text \<open>
  An instance: three tasks under the rule \<^verbatim>\<open>upsert\<close>; the column query of the second
  fails, and the result is success, failed, success.
\<close>

theorem every_task_gets_one_result_witness:
  "(\<forall>h i. fault denied_env h AppDb (FindConnection i) = None)
   \<and> (\<forall>h rs. fault denied_env h AppDb (UpdateMigration ''m1'' ''completed'' (Some rs) None)
                = None)
   \<and> connections denied_env ''src'' \<noteq> None \<and> connections denied_env ''tgt'' \<noteq> None
   \<and> job_status (job (snd (executeMigration denied_env ''m1'' ''src'' ''tgt'' (Some ''upsert'')
                             plain_tasks initial_state))) = ''completed''
   \<and> job_result (job (snd (executeMigration denied_env ''m1'' ''src'' ''tgt'' (Some ''upsert'')
                             plain_tasks initial_state)))
       = Some [\<lparr>collection = ''t'', rule = Some ''upsert'', rowsMigrated = Some 2,
                 status = ''success'', error = None\<rparr>,
               \<lparr>collection = ''u'', rule = Some ''upsert'', rowsMigrated = None,
                 status = ''failed'', error = Some ''permission denied for table u''\<rparr>,
               \<lparr>collection = ''v'', rule = Some ''upsert'', rowsMigrated = Some 0,
                 status = ''success'', error = None\<rparr>]"
proof -
  have a: "\<forall>h i. fault denied_env h AppDb (FindConnection i) = None"
    and u: "\<forall>h rs. fault denied_env h AppDb
                      (UpdateMigration ''m1'' ''completed'' (Some rs) None) = None"
    by (simp_all add: denied_env_def denied_fault_def)
  have b: "connections denied_env ''src'' \<noteq> None"
    and c: "connections denied_env ''tgt'' \<noteq> None"
    by (simp_all add: denied_env_def quiet_env_def)
  have ok: "task_outcome denied_env ''m1'' (Some ''upsert'') \<lparr>coll_name = n, coll_rule = None\<rparr> s
              = Inr (length (source_rows denied_env n))" if "n \<noteq> ''u''" for n s
    using that
      upsert_outcome [where c = "\<lparr>coll_name = n, coll_rule = None\<rparr>" and g = "Some ''upsert''"
        and E = denied_env and mid = "''m1''" and s = s]
    by (simp add: rule_or_def denied_env_def denied_fault_def)
  have bad: "task_outcome denied_env ''m1'' (Some ''upsert'') \<lparr>coll_name = ''u'', coll_rule = None\<rparr> s
               = Inl ''permission denied for table u''" for s
    using columns_fail_outcome [where c = "\<lparr>coll_name = ''u'', coll_rule = None\<rparr>"
            and g = "Some ''upsert''" and E = denied_env and mid = "''m1''" and s = s
            and msg = "''permission denied for table u''"]
    by (simp add: denied_env_def denied_fault_def)
  have rows: "length (source_rows denied_env ''t'') = 2" "length (source_rows denied_env ''v'') = 0"
    by (simp_all add: denied_env_def quiet_env_def)
  have entries: "job_entries denied_env ''m1'' (Some ''upsert'') plain_tasks s
       = [\<lparr>collection = ''t'', rule = Some ''upsert'', rowsMigrated = Some 2,
                 status = ''success'', error = None\<rparr>,
               \<lparr>collection = ''u'', rule = Some ''upsert'', rowsMigrated = None,
                 status = ''failed'', error = Some ''permission denied for table u''\<rparr>,
               \<lparr>collection = ''v'', rule = Some ''upsert'', rowsMigrated = Some 0,
                 status = ''success'', error = None\<rparr>]" for s
    by (simp add: plain_tasks_def ok bad rows entry_for_def rule_or_def)
  note t = every_task_gets_one_result [OF a u b c, of "Some ''upsert''" plain_tasks initial_state]
  show ?thesis
    by (intro conjI a u b c t [THEN conjunct1]
          t [THEN conjunct2, THEN conjunct1, unfolded entries])
qed

section \<open>The conflict target of the upsert rule\<close>

text \<open>
  C2.  The key query returns one row for each column of the primary key, and
  \<^verbatim>\<open>upsertData\<close> reads the first row only.  For a table whose primary key is
  \<^verbatim>\<open>(tenant, id)\<close> the conflict target of the insert is \<^verbatim>\<open>tenant\<close> alone.  (The calls
  are listed the most recent first.)
\<close>

theorem upsert_conflict_target_is_first_key_column:
  "db_primary_key composite_key_env [] SourceDb ''t'' = [''tenant'', ''id'']
   \<and> map (\<lambda>e. (ev_conn e, ev_stmt e))
       (events_during (upsertData composite_key_env ''t'' [] []) initial_state)
     = [(TargetDb, InsertOnConflictMerge ''t'' ''tenant''
                     [(''tenant'', JNum 1), (''id'', JNum 7), (''name'', JStr ''a'')]),
        (SourceDb, SelectAll ''t''),
        (SourceDb, SelectPrimaryKey ''t'')]"
  by code_simp

end
